(* ===== verification/Go_Prelude.thy ===== *)
theory Go_Prelude
  imports Main "HOL-Library.AList" "HOL-Library.Multiset"
begin

text \<open>
  The parts of the Go language and runtime that every component of the server uses, and the
  lemmas about them that the component theories share.

  \<^item> \<open>'a go\<close> is the outcome of a piece of Go code: it returns a value, it panics, or it
    blocks on a channel operation that no buffer space or item makes ready. \<open>gbind\<close>
    sequences two pieces of code and \<open>gfor\<close> is a \<^verbatim>\<open>for ... range\<close> loop over a slice.
  \<^item> \<open>('k, 'v) gomap\<close> is a Go map as the list of its entries, in the order in which one
    \<^verbatim>\<open>range\<close> statement would visit them. Go leaves that order open, so what is proved of a
    loop over a map is stated on the lookup function \<open>map_of\<close> of the map, or up to the
    order of the entries. A nil map reads as the empty map.
  \<^item> a channel is the list of its buffered items, oldest first, with its capacity given where
    an item is sent.
  \<^item> \<open>reachable init step\<close> holds of the states of a step relation that some run reaches.
\<close>

named_theorems go_simps \<open>simplification rules for outcomes of Go code\<close>
named_theorems gomap_simps \<open>lookups in Go maps after an update\<close>

section \<open>Outcomes of Go code\<close>

datatype 'a go = Ret 'a | Panic string | Block

primrec gbind :: "'a go \<Rightarrow> ('a \<Rightarrow> 'b go) \<Rightarrow> 'b go" where
  "gbind (Ret x) f = f x"
| "gbind (Panic e) f = Panic e"
| "gbind Block f = Block"

primrec gfor :: "'a list \<Rightarrow> ('a \<Rightarrow> 's \<Rightarrow> 's go) \<Rightarrow> 's \<Rightarrow> 's go" where
  "gfor [] f s = Ret s"
| "gfor (x # xs) f s = gbind (f x s) (gfor xs f)"

definition returns :: "'a go \<Rightarrow> bool" where
  "returns m \<longleftrightarrow> (\<exists>x. m = Ret x)"

lemma returns_simps [simp]:
  "returns (Ret x)" "\<not> returns (Panic e)" "\<not> returns Block"
  by (simp_all add: returns_def)

lemma returnsE:
  assumes "returns m"
  obtains x where "m = Ret x"
  using assms by (auto simp: returns_def)

lemma gbind_Ret_iff [go_simps]: "gbind m f = Ret y \<longleftrightarrow> (\<exists>x. m = Ret x \<and> f x = Ret y)"
  by (cases m) auto

lemma gbind_Ret_right [simp]: "gbind m Ret = m"
  by (cases m) auto

lemma gbind_assoc: "gbind (gbind m f) g = gbind m (\<lambda>x. gbind (f x) g)"
  by (cases m) auto

lemma returns_gbind: "returns (gbind m f) \<longleftrightarrow> (\<exists>x. m = Ret x \<and> returns (f x))"
  by (cases m) auto

lemma gfor_append: "gfor (xs @ ys) f s = gbind (gfor xs f s) (gfor ys f)"
proof (induction xs arbitrary: s)
  case (Cons x xs)
  then show ?case by (cases "f x s") simp_all
qed simp

text \<open>A loop invariant of a \<^verbatim>\<open>range\<close> loop: kept by every iteration that returns.\<close>

lemma gfor_invariant:
  assumes "gfor xs f s = Ret s'" and "I s"
    and "\<And>x s s'. x \<in> set xs \<Longrightarrow> I s \<Longrightarrow> f x s = Ret s' \<Longrightarrow> I s'"
  shows "I s'"
  using assms
proof (induction xs arbitrary: s)
  case Nil
  then show ?case by simp
next
  case (Cons x xs)
  then obtain t where "f x s = Ret t" and "gfor xs f t = Ret s'"
    by (auto simp: go_simps)
  with Cons show ?case by (meson list.set_intros)
qed

text \<open>A loop returns when every iteration started in the invariant returns in it.\<close>

lemma gfor_returns:
  assumes "I s" and "\<And>x s. x \<in> set xs \<Longrightarrow> I s \<Longrightarrow> \<exists>s'. f x s = Ret s' \<and> I s'"
  shows "\<exists>s'. gfor xs f s = Ret s' \<and> I s'"
  using assms
proof (induction xs arbitrary: s)
  case Nil
  then show ?case by simp
next
  case (Cons x xs)
  then obtain t where "f x s = Ret t" and "I t" by (meson list.set_intros)
  with Cons show ?case by (auto simp: go_simps)
qed

section \<open>Errors\<close>

text \<open>
  An error value. \<open>Err\<close> is \<^verbatim>\<open>errors.New\<close> or \<^verbatim>\<open>fmt.Errorf\<close> with the message it formats;
  \<open>GrpcErr\<close> is an error that carries a gRPC status with its code and message.
\<close>

datatype error = Err string | GrpcErr nat string

text \<open>A Go pair \<^verbatim>\<open>(*T, error)\<close>: a pointer that may be nil and an error that may be nil.\<close>

type_synonym 'a result = "'a option \<times> error option"

section \<open>Go maps\<close>

type_synonym ('k, 'v) gomap = "('k \<times> 'v) list"

abbreviation mput :: "'k \<Rightarrow> 'v \<Rightarrow> ('k, 'v) gomap \<Rightarrow> ('k, 'v) gomap" where
  "mput \<equiv> AList.update"

abbreviation mdel :: "'k \<Rightarrow> ('k, 'v) gomap \<Rightarrow> ('k, 'v) gomap" where
  "mdel \<equiv> AList.delete"

abbreviation mkeys :: "('k, 'v) gomap \<Rightarrow> 'k list" where
  "mkeys m \<equiv> map fst m"

text \<open>The keys of a Go map are distinct.\<close>

abbreviation gomap :: "('k, 'v) gomap \<Rightarrow> bool" where
  "gomap m \<equiv> distinct (map fst m)"

text \<open>\<^verbatim>\<open>_, ok := m[k]\<close>.\<close>

definition mhas :: "('k, 'v) gomap \<Rightarrow> 'k \<Rightarrow> bool" where
  "mhas m k \<longleftrightarrow> map_of m k \<noteq> None"

text \<open>\<^verbatim>\<open>m[k]\<close> where the value type is a map, a slice or a string: the zero value is empty.\<close>

definition mfind :: "('k, 'v list) gomap \<Rightarrow> 'k \<Rightarrow> 'v list" where
  "mfind m k = (case map_of m k of None \<Rightarrow> [] | Some v \<Rightarrow> v)"

lemma mhas_mput [gomap_simps]: "mhas (mput k v m) k' \<longleftrightarrow> k' = k \<or> mhas m k'"
  by (simp add: mhas_def update_conv')

lemma mhas_mdel [gomap_simps]: "mhas (mdel k m) k' \<longleftrightarrow> k' \<noteq> k \<and> mhas m k'"
  by (simp add: mhas_def delete_conv')

lemma mhas_Nil [simp]: "\<not> mhas [] k"
  by (simp add: mhas_def)

lemma mhas_Cons [simp]: "mhas ((k, v) # m) k' \<longleftrightarrow> k' = k \<or> mhas m k'"
  by (auto simp: mhas_def)

lemma mfind_not_mhas: "\<not> mhas m k \<Longrightarrow> mfind m k = []"
  by (simp add: mhas_def mfind_def)

lemma keys_mput [gomap_simps]: "fst ` set (mput k v m) = insert k (fst ` set m)"
  by (simp add: dom_update)

lemma keys_mdel [gomap_simps]: "fst ` set (mdel k m) = fst ` set m - {k}"
  using arg_cong [OF delete_keys, of set k m] by simp

lemma mhas_iff_key: "mhas m k \<longleftrightarrow> k \<in> set (mkeys m)"
  by (simp add: mhas_def map_of_eq_None_iff)

lemma mhas_SomeI: "map_of m k = Some v \<Longrightarrow> mhas m k"
  by (simp add: mhas_def)

lemma mfind_simps [gomap_simps]:
  "map_of m k = None \<Longrightarrow> mfind m k = []"
  "map_of m k = Some v \<Longrightarrow> mfind m k = v"
  by (simp_all add: mfind_def)

lemma map_of_mput [gomap_simps]: "map_of (mput k v m) k' = (if k' = k then Some v else map_of m k')"
  by (simp add: update_conv')

lemma map_of_mdel [gomap_simps]: "map_of (mdel k m) k' = (if k' = k then None else map_of m k')"
  by (simp add: delete_conv')

lemma mfind_mput [gomap_simps]: "mfind (mput k v m) k' = (if k' = k then v else mfind m k')"
  by (simp add: mfind_def gomap_simps)

lemma mfind_mdel [gomap_simps]: "mfind (mdel k m) k' = (if k' = k then [] else mfind m k')"
  by (simp add: mfind_def gomap_simps)

lemma mfind_mdel_empty: "mdel k m = [] \<Longrightarrow> k' \<noteq> k \<Longrightarrow> mfind m k' = []"
  using mfind_mdel [of k m k'] by (simp add: mfind_def)

lemma mhas_mdel_empty: "mdel k m = [] \<Longrightarrow> mhas m k' \<Longrightarrow> k' = k"
  using map_of_mdel [of k m k'] by (auto simp: mhas_def split: if_splits)

lemma mfind_Nil [simp]: "mfind [] k = []"
  by (simp add: mfind_def)

lemma map_of_empty_iff: "m = [] \<longleftrightarrow> (\<forall>k. map_of m k = None)"
  by (cases m) (auto split: prod.splits)

lemma map_of_fold_mput:
  "gomap xs \<Longrightarrow> map_of (fold (\<lambda>(k, v) s. mput k (f v) s) xs s) k =
     (case map_of xs k of None \<Rightarrow> map_of s k | Some v \<Rightarrow> Some (f v))"
proof (induction xs arbitrary: s)
  case (Cons x xs)
  obtain a v where x: "x = (a, v)" by fastforce
  with Cons.prems have "map_of xs a = None" by (auto simp: map_of_eq_None_iff)
  with Cons x show ?case by (auto simp: gomap_simps split: option.split)
qed simp

lemma gomap_mput [simp, intro]: "gomap m \<Longrightarrow> gomap (mput k v m)"
  by (rule distinct_update)

lemma gomap_mdel [simp, intro]: "gomap m \<Longrightarrow> gomap (mdel k m)"
  by (rule distinct_delete)

lemma gomap_length: "gomap m \<Longrightarrow> length m = card (dom (map_of m))"
  by (simp add: dom_map_of_conv_image_fst distinct_card flip: set_map)

section \<open>The contract of a map\<close>

text \<open>
  What the language promises of a map and of a \<^verbatim>\<open>range\<close> loop over it: \<open>entries m\<close> lists every
  entry once, in an order nothing is said about.
\<close>

locale go_map =
  fixes empty :: 'm
    and get :: "'m \<Rightarrow> 'k \<Rightarrow> 'v option"
    and put :: "'k \<Rightarrow> 'v \<Rightarrow> 'm \<Rightarrow> 'm"
    and del :: "'k \<Rightarrow> 'm \<Rightarrow> 'm"
    and entries :: "'m \<Rightarrow> ('k \<times> 'v) list"
    and wf :: "'m \<Rightarrow> bool"
  assumes get_empty: "get empty k = None"
    and get_put: "get (put k v m) k' = (if k' = k then Some v else get m k')"
    and get_del: "get (del k m) k' = (if k' = k then None else get m k')"
    and entries_iff: "wf m \<Longrightarrow> (k, v) \<in> set (entries m) \<longleftrightarrow> get m k = Some v"
    and entries_once: "wf m \<Longrightarrow> distinct (map fst (entries m))"
    and wf_empty: "wf empty"
    and wf_put: "wf m \<Longrightarrow> wf (put k v m)"
    and wf_del: "wf m \<Longrightarrow> wf (del k m)"
begin

lemma entries_map_of: "wf m \<Longrightarrow> map_of (entries m) k = get m k"
  using entries_iff entries_once
  by (metis map_of_eq_Some_iff not_Some_eq)

text \<open>
  The loop that folds the entries of one map into another, storing a value or deleting its key:
  every key of the other map is decided by that map alone, whatever the order of the visit.
\<close>

lemma get_merge_list:
  assumes "distinct (map fst es)"
  shows "get (fold (\<lambda>(k, v) m. if p v then del k m else put k v m) es m) k =
    (case map_of es k of None \<Rightarrow> get m k | Some v \<Rightarrow> if p v then None else Some v)"
  using assms
proof (induction es arbitrary: m)
  case Nil
  then show ?case by simp
next
  case (Cons e es)
  obtain k' v where e: "e = (k', v)" by force
  show ?case
  proof (cases "k = k'")
    case True
    with Cons.prems e have "map_of es k = None"
      by (auto simp: map_of_eq_None_iff)
    with Cons True e show ?thesis by (auto simp: get_put get_del)
  next
    case False
    with Cons e show ?thesis by (auto simp: get_put get_del split: option.splits)
  qed
qed

lemma get_merge:
  assumes "wf other"
  shows "get (fold (\<lambda>(k, v) m. if p v then del k m else put k v m) (entries other) m) k =
    (case get other k of None \<Rightarrow> get m k | Some v \<Rightarrow> if p v then None else Some v)"
  using get_merge_list [OF entries_once [OF assms]] entries_map_of [OF assms] by simp

lemma wf_merge:
  "wf m \<Longrightarrow> wf (fold (\<lambda>(k, v) m. if p v then del k m else put k v m) es m)"
  by (induction es arbitrary: m) (auto simp: wf_put wf_del split: prod.splits)

end

interpretation gm: go_map "[]" "map_of" mput mdel "\<lambda>m. m" gomap
  by unfold_locales (auto simp: gomap_simps dest: map_of_SomeD)

section \<open>Channels\<close>

text \<open>A send on a buffered channel of capacity \<open>cap\<close>: it blocks when the buffer is full.\<close>

definition chan_send :: "nat \<Rightarrow> 'a \<Rightarrow> 'a list \<Rightarrow> 'a list go" where
  "chan_send cap x ch = (if length ch < cap then Ret (ch @ [x]) else Block)"

lemma chan_send_Ret_iff [go_simps]:
  "chan_send cap x ch = Ret ch' \<longleftrightarrow> length ch < cap \<and> ch' = ch @ [x]"
  by (auto simp: chan_send_def)

lemma chan_send_no_panic [simp]: "chan_send cap x ch \<noteq> Panic e"
  by (simp add: chan_send_def)

section \<open>Select\<close>

text \<open>
  A \<^verbatim>\<open>select\<close> takes any one of the cases that are ready, and blocks when none is. The runtime's
  pseudo-random choice is the number \<open>c\<close>: every ready case is taken for some \<open>c\<close>.
\<close>

definition select :: "nat \<Rightarrow> 'a list \<Rightarrow> 'a go" where
  "select c ready = (if ready = [] then Block else Ret (ready ! (c mod length ready)))"

lemma select_ready: "select c ready = Ret x \<Longrightarrow> x \<in> set ready"
  by (auto simp: select_def split: if_splits)

lemma select_any: "x \<in> set ready \<Longrightarrow> \<exists>c. select c ready = Ret x"
  by (auto simp: select_def in_set_conv_nth) (metis mod_less)

lemma select_Block_iff [go_simps]: "select c ready = Block \<longleftrightarrow> ready = []"
  by (simp add: select_def)

lemma select_no_panic [simp]: "select c ready \<noteq> Panic e"
  by (simp add: select_def)

section \<open>Safe outcomes\<close>

text \<open>\<open>safely P m\<close>: \<open>m\<close> does not panic, and what it returns, if it returns, satisfies \<open>P\<close>.\<close>

definition safely :: "('a \<Rightarrow> bool) \<Rightarrow> 'a go \<Rightarrow> bool" where
  "safely P m \<longleftrightarrow> (case m of Ret x \<Rightarrow> P x | Panic _ \<Rightarrow> False | Block \<Rightarrow> True)"

lemma safely_simps [simp]:
  "safely P (Ret x) \<longleftrightarrow> P x"
  "\<not> safely P (Panic e)"
  "safely P Block"
  by (simp_all add: safely_def)

lemma safely_gbind: "safely Q (gbind m f) \<longleftrightarrow> safely (\<lambda>x. safely Q (f x)) m"
  by (cases m) simp_all

lemma safely_gbindI: "safely P m \<Longrightarrow> (\<And>x. P x \<Longrightarrow> safely Q (f x)) \<Longrightarrow> safely Q (gbind m f)"
  by (cases m) simp_all

lemma safely_mono: "safely P m \<Longrightarrow> (\<And>x. P x \<Longrightarrow> Q x) \<Longrightarrow> safely Q m"
  by (cases m) simp_all

lemma safely_conj: "safely P m \<Longrightarrow> safely Q m \<Longrightarrow> safely (\<lambda>x. P x \<and> Q x) m"
  by (cases m) simp_all

lemma safely_RetD: "safely P m \<Longrightarrow> m = Ret x \<Longrightarrow> P x"
  by simp

lemma safely_iff: "safely P m \<longleftrightarrow> (\<forall>e. m \<noteq> Panic e) \<and> (\<forall>x. m = Ret x \<longrightarrow> P x)"
  by (cases m) simp_all

lemma safely_gfor:
  "P s \<Longrightarrow> (\<And>x s. x \<in> set xs \<Longrightarrow> P s \<Longrightarrow> safely P (f x s)) \<Longrightarrow> safely P (gfor xs f s)"
proof (induction xs arbitrary: s)
  case (Cons x xs)
  then show ?case by (auto intro!: safely_gbindI [of P])
qed simp

lemma safely_chan_send: "safely P (chan_send cap x ch) \<longleftrightarrow> (length ch < cap \<longrightarrow> P (ch @ [x]))"
  by (simp add: chan_send_def)

section \<open>Effects\<close>

text \<open>
  \<open>moves R s m\<close>: the state \<open>m\<close> returns, if it returns, is related to \<open>s\<close>. Effects of a program are
  followed through its steps by a reflexive and transitive relation.
\<close>

definition moves :: "('s \<Rightarrow> 's \<Rightarrow> bool) \<Rightarrow> 's \<Rightarrow> 's go \<Rightarrow> bool" where
  "moves R s m \<longleftrightarrow> (\<forall>t. m = Ret t \<longrightarrow> R s t)"

lemma moves_simps [simp]: "moves R s (Ret t) \<longleftrightarrow> R s t" "moves R s (Panic e)" "moves R s Block"
  by (simp_all add: moves_def)

lemma movesD: "moves R s m \<Longrightarrow> m = Ret t \<Longrightarrow> R s t"
  by (simp add: moves_def)

lemma moves_if: "(c \<Longrightarrow> moves R s m) \<Longrightarrow> (\<not> c \<Longrightarrow> moves R s m') \<Longrightarrow> moves R s (if c then m else m')"
  by simp

lemma moves_gbind:
  "transp R \<Longrightarrow> moves R s m \<Longrightarrow> (\<And>t. m = Ret t \<Longrightarrow> moves R t (f t)) \<Longrightarrow> moves R s (gbind m f)"
  by (cases m) (auto simp: moves_def dest: transpD)

lemma moves_gbind_pair:
  "transp R \<Longrightarrow> moves R s (gbind m (\<lambda>(t, _). Ret t)) \<Longrightarrow> (\<And>t x. m = Ret (t, x) \<Longrightarrow> moves R t (f (t, x))) \<Longrightarrow>
   moves R s (gbind m f)"
  by (cases m) (auto simp: moves_def dest: transpD)

lemma moves_gfor:
  "reflp R \<Longrightarrow> transp R \<Longrightarrow> (\<And>x s. x \<in> set xs \<Longrightarrow> moves R s (f x s)) \<Longrightarrow> moves R s (gfor xs f s)"
proof (induction xs arbitrary: s)
  case (Cons x xs)
  then show ?case by (auto intro!: moves_gbind)
qed (simp add: reflpD)

section \<open>Runs of a step relation\<close>

inductive reachable :: "('s \<Rightarrow> bool) \<Rightarrow> ('s \<Rightarrow> 's \<Rightarrow> bool) \<Rightarrow> 's \<Rightarrow> bool"
  for init :: "'s \<Rightarrow> bool" and step :: "'s \<Rightarrow> 's \<Rightarrow> bool" where
  reach_init: "init s \<Longrightarrow> reachable init step s"
| reach_step: "reachable init step s \<Longrightarrow> step s t \<Longrightarrow> reachable init step t"

locale invariant_of =
  fixes init :: "'s \<Rightarrow> bool" and step :: "'s \<Rightarrow> 's \<Rightarrow> bool" and inv :: "'s \<Rightarrow> bool"
  assumes inv_init: "init s \<Longrightarrow> inv s"
    and inv_step: "inv s \<Longrightarrow> step s t \<Longrightarrow> inv t"
begin

lemma inv_reachable: "reachable init step s \<Longrightarrow> inv s"
  by (induction rule: reachable.induct) (auto intro: inv_init inv_step)

end

end
