(* ===== verification/Go_Json.thy ===== *)
theory Go_Json
  imports Go_Prelude "HOL-Library.List_Lexorder" "HOL-Library.Char_ord"
begin

text \<open>
  What the server uses of Go's \<^verbatim>\<open>encoding/json\<close>: \<open>json_parse\<close> reads a JSON text as the
  decoder's scanner accepts it, \<open>jtext\<close> writes a value as \<^verbatim>\<open>json.Marshal\<close> does, \<open>any_of\<close>
  is decoding into an \<^verbatim>\<open>interface{}\<close> and \<open>unmarshal\<close> is decoding into a struct, where the
  fields are given by name. A Go string is its list of bytes.

  A number decoded into an \<^verbatim>\<open>interface{}\<close> becomes a float64. \<open>num_text\<close> gives the text such
  a number is written with again: an integer literal of magnitude at most \<open>2 ^ 53\<close> is exact and
  is written as it was read; for every other literal the IEEE rounding and the shortest decimal
  form are those of the parameter \<open>f64\<close>, with \<open>None\<close> for a literal out of range.
\<close>

section \<open>Bytes and UTF-8\<close>

abbreviation byte :: "char \<Rightarrow> nat" where
  "byte \<equiv> of_char"

definition between :: "nat \<Rightarrow> nat \<Rightarrow> char \<Rightarrow> bool" where
  "between lo hi c \<longleftrightarrow> lo \<le> byte c \<and> byte c \<le> hi"

definition is_ws :: "char \<Rightarrow> bool" where
  "is_ws c \<longleftrightarrow> c = CHR 0x20 \<or> c = CHR 0x09 \<or> c = CHR 0x0A \<or> c = CHR 0x0D"

definition is_digit :: "char \<Rightarrow> bool" where
  "is_digit c \<longleftrightarrow> between 48 57 c"

definition lower :: "char \<Rightarrow> char" where
  "lower c = (if between 65 90 c then char_of (byte c + 32) else c)"

text \<open>
  \<^verbatim>\<open>utf8.DecodeRune\<close> at the front of a string that starts with a byte of 128 or more: the
  number of bytes of the encoded rune, 0 where the bytes are not valid UTF-8.
\<close>

definition cont :: "char \<Rightarrow> bool" where
  "cont c \<longleftrightarrow> between 128 191 c"

definition utf8_size :: "string \<Rightarrow> nat" where
  "utf8_size s = (case s of
     c0 # c1 # r \<Rightarrow>
       if between 194 223 c0 then (if cont c1 then 2 else 0)
       else (case r of
         c2 # r' \<Rightarrow>
           if between 224 239 c0 then
             (if cont c2 \<and> (if byte c0 = 224 then between 160 191 c1
                            else if byte c0 = 237 then between 128 159 c1 else cont c1)
              then 3 else 0)
           else (case r' of
             c3 # _ \<Rightarrow>
               (if between 240 244 c0 \<and> cont c2 \<and> cont c3 \<and>
                   (if byte c0 = 240 then between 144 191 c1
                    else if byte c0 = 244 then between 128 143 c1 else cont c1)
                then 4 else 0)
           | [] \<Rightarrow> 0)
       | [] \<Rightarrow> 0)
   | _ \<Rightarrow> 0)"

text \<open>\<^verbatim>\<open>utf8.EncodeRune\<close>.\<close>

definition utf8_enc :: "nat \<Rightarrow> string" where
  "utf8_enc n =
     (if n < 128 then [char_of n]
      else if n < 2048 then [char_of (192 + n div 64), char_of (128 + n mod 64)]
      else if n < 65536 then
        [char_of (224 + n div 4096), char_of (128 + n div 64 mod 64), char_of (128 + n mod 64)]
      else [char_of (240 + n div 262144), char_of (128 + n div 4096 mod 64),
            char_of (128 + n div 64 mod 64), char_of (128 + n mod 64)])"

definition rune_error :: string where
  "rune_error = [CHR 0xEF, CHR 0xBF, CHR 0xBD]"

fun valid_utf8 :: "string \<Rightarrow> bool" where
  "valid_utf8 [] = True"
| "valid_utf8 (c # r) =
     (if byte c < 128 then valid_utf8 r
      else 0 < utf8_size (c # r) \<and> valid_utf8 (drop (utf8_size (c # r) - 1) r))"

section \<open>JSON values and the text of a value\<close>

datatype jvalue =
    JNull
  | JBool bool
  | JNum string
  | JStr string
  | JArr "jvalue list"
  | JObj "(string \<times> jvalue) list"

text \<open>The body of a quoted string as the encoder writes it, with its HTML-safe escapes.\<close>

definition hexdigit :: "nat \<Rightarrow> char" where
  "hexdigit n = char_of (if n < 10 then 48 + n else 87 + n)"

definition esc_char :: "char \<Rightarrow> string" where
  "esc_char c =
     (if c = CHR 0x22 \<or> c = CHR 0x5C then [CHR 0x5C, c]
      else if c = CHR 0x0A then [CHR 0x5C, CHR ''n'']
      else if c = CHR 0x0D then [CHR 0x5C, CHR ''r'']
      else if c = CHR 0x09 then [CHR 0x5C, CHR ''t'']
      else if byte c < 32 \<or> c = CHR ''<'' \<or> c = CHR ''>'' \<or> c = CHR ''&'' then
        [CHR 0x5C, CHR ''u'', CHR ''0'', CHR ''0'', hexdigit (byte c div 16), hexdigit (byte c mod 16)]
      else [c])"

fun quote_body :: "string \<Rightarrow> string" where
  "quote_body [] = []"
| "quote_body (c # r) =
     (if byte c < 128 then esc_char c @ quote_body r
      else (let n = utf8_size (c # r) in
        if n = 0 then CHR 0x5C # ''ufffd'' @ quote_body r
        else if take 3 (c # r) = [CHR 0xE2, CHR 0x80, CHR 0xA8]
          then CHR 0x5C # ''u2028'' @ quote_body (drop (n - 1) r)
        else if take 3 (c # r) = [CHR 0xE2, CHR 0x80, CHR 0xA9]
          then CHR 0x5C # ''u2029'' @ quote_body (drop (n - 1) r)
        else take n (c # r) @ quote_body (drop (n - 1) r)))"

definition quote :: "string \<Rightarrow> string" where
  "quote s = CHR 0x22 # quote_body s @ [CHR 0x22]"

fun join :: "string \<Rightarrow> string list \<Rightarrow> string" where
  "join sep [] = []"
| "join sep [x] = x"
| "join sep (x # y # xs) = x @ sep @ join sep (y # xs)"

text \<open>An object from the names of its fields and the texts of their values, in field order.\<close>

definition object_text :: "(string \<times> string) list \<Rightarrow> string" where
  "object_text fs = CHR ''{'' # join '','' (map (\<lambda>(k, t). quote k @ CHR '':'' # t) fs) @ ''}''"

text \<open>\<^verbatim>\<open>json.Marshal\<close> of a decoded value: the keys of a map are written in sorted order.\<close>

primrec jtext :: "jvalue \<Rightarrow> string" where
  "jtext JNull = ''null''"
| "jtext (JBool b) = (if b then ''true'' else ''false'')"
| "jtext (JNum t) = t"
| "jtext (JStr s) = quote s"
| "jtext (JArr vs) = CHR ''['' # join '','' (map jtext vs) @ '']''"
| "jtext (JObj ms) = object_text (sort_key fst (map (map_prod id jtext) ms))"

section \<open>Reading a JSON text\<close>

definition hexval :: "char \<Rightarrow> nat option" where
  "hexval c =
     (if between 48 57 c then Some (byte c - 48)
      else if between 97 102 c then Some (byte c - 87)
      else if between 65 70 c then Some (byte c - 55)
      else None)"

fun hex4 :: "string \<Rightarrow> (nat \<times> string) option" where
  "hex4 (a # b # c # d # r) =
     (case (hexval a, hexval b, hexval c, hexval d) of
        (Some w, Some x, Some y, Some z) \<Rightarrow> Some (4096 * w + 256 * x + 16 * y + z, r)
      | _ \<Rightarrow> None)"
| "hex4 _ = None"

text \<open>The rest of an escape that started with \<^verbatim>\<open>\u\<close>; a lone surrogate becomes U+FFFD.\<close>

definition unicode_escape :: "string \<Rightarrow> (string \<times> string) option" where
  "unicode_escape s = (case hex4 s of
     None \<Rightarrow> None
   | Some (x, r) \<Rightarrow>
       if x < 0xD800 \<or> 0xE000 \<le> x then Some (utf8_enc x, r)
       else (case r of
         a # b # r' \<Rightarrow>
           (case (if a = CHR 0x5C \<and> b = CHR ''u'' then hex4 r' else None) of
              Some (y, r'') \<Rightarrow>
                if x < 0xDC00 \<and> 0xDC00 \<le> y \<and> y < 0xE000
                then Some (utf8_enc ((x - 0xD800) * 1024 + (y - 0xDC00) + 0x10000), r'')
                else Some (rune_error, r)
            | None \<Rightarrow> Some (rune_error, r))
       | _ \<Rightarrow> Some (rune_error, r)))"

text \<open>One character, escape or encoded rune of a quoted string, decoded, and what follows it.\<close>

definition string_unit :: "string \<Rightarrow> (string \<times> string) option" where
  "string_unit s = (case s of
     [] \<Rightarrow> None
   | c # r \<Rightarrow>
       if c = CHR 0x5C then (case r of
         [] \<Rightarrow> None
       | e # r' \<Rightarrow>
           if e = CHR ''u'' then unicode_escape r'
           else if e = CHR 0x22 \<or> e = CHR 0x5C \<or> e = CHR ''/'' then Some ([e], r')
           else if e = CHR ''b'' then Some ([CHR 0x08], r')
           else if e = CHR ''f'' then Some ([CHR 0x0C], r')
           else if e = CHR ''n'' then Some ([CHR 0x0A], r')
           else if e = CHR ''r'' then Some ([CHR 0x0D], r')
           else if e = CHR ''t'' then Some ([CHR 0x09], r')
           else None)
       else if byte c < 32 then None
       else if byte c < 128 then Some ([c], r)
       else (let n = utf8_size s in
         if n = 0 then Some (rune_error, r) else Some (take n s, drop n s)))"

lemma hex4_length: "hex4 s = Some (x, r) \<Longrightarrow> length r < length s"
  by (induction s rule: hex4.induct) (auto split: option.splits)

lemma unicode_escape_length: "unicode_escape s = Some (u, r) \<Longrightarrow> length r < length s"
  by (fastforce simp: unicode_escape_def split: option.splits if_splits list.splits
      dest!: hex4_length)

lemma string_unit_length: "string_unit s = Some (u, r) \<Longrightarrow> length r < length s"
  by (auto simp: string_unit_def Let_def split: list.splits if_splits
      dest!: unicode_escape_length)

text \<open>A string after its opening quote: the decoded bytes and what follows the closing quote.\<close>

function jstring :: "string \<Rightarrow> (string \<times> string) option" where
  "jstring s = (case s of
     [] \<Rightarrow> None
   | c # r \<Rightarrow>
       if c = CHR 0x22 then Some ([], r)
       else (case string_unit s of
         None \<Rightarrow> None
       | Some (u, r') \<Rightarrow> map_option (\<lambda>(t, r''). (u @ t, r'')) (jstring r')))"
  by pat_completeness auto
termination
  by (relation "measure length") (auto dest: string_unit_length)

declare jstring.simps [simp del]

text \<open>A number literal: an optional sign, the integer part, a fraction, an exponent.\<close>

definition digits :: "string \<Rightarrow> (string \<times> string) option" where
  "digits s = (let d = takeWhile is_digit s in
     if d = [] then None else Some (d, dropWhile is_digit s))"

definition int_part :: "string \<Rightarrow> (string \<times> string) option" where
  "int_part s = (case s of
     [] \<Rightarrow> None
   | c # r \<Rightarrow> if c = CHR ''0'' then Some ([c], r) else digits s)"

definition frac_part :: "string \<Rightarrow> (string \<times> string) option" where
  "frac_part s = (case s of
     [] \<Rightarrow> Some ([], [])
   | c # r \<Rightarrow>
       if c = CHR ''.'' then map_option (\<lambda>(d, r'). (c # d, r')) (digits r) else Some ([], s))"

definition exp_part :: "string \<Rightarrow> (string \<times> string) option" where
  "exp_part s = (case s of
     [] \<Rightarrow> Some ([], [])
   | c # r \<Rightarrow>
       if c = CHR ''e'' \<or> c = CHR ''E'' then (case r of
         [] \<Rightarrow> None
       | g # r' \<Rightarrow>
           if g = CHR ''+'' \<or> g = CHR ''-''
           then map_option (\<lambda>(d, r''). (c # g # d, r'')) (digits r')
           else map_option (\<lambda>(d, r''). (c # d, r'')) (digits r))
       else Some ([], s))"

definition number_body :: "string \<Rightarrow> (string \<times> string) option" where
  "number_body s = (case int_part s of
     None \<Rightarrow> None
   | Some (i, r) \<Rightarrow> (case frac_part r of
       None \<Rightarrow> None
     | Some (f, r') \<Rightarrow> map_option (\<lambda>(e, r''). (i @ f @ e, r'')) (exp_part r')))"

definition jnumber :: "string \<Rightarrow> (string \<times> string) option" where
  "jnumber s = (case s of
     [] \<Rightarrow> None
   | c # r \<Rightarrow>
       if c = CHR ''-'' then map_option (\<lambda>(t, r'). (c # t, r')) (number_body r)
       else number_body s)"

definition skip_ws :: "string \<Rightarrow> string" where
  "skip_ws = dropWhile is_ws"

definition jliteral :: "string \<Rightarrow> (jvalue \<times> string) option" where
  "jliteral s =
     (if take 4 s = ''null'' then Some (JNull, drop 4 s)
      else if take 4 s = ''true'' then Some (JBool True, drop 4 s)
      else if take 5 s = ''false'' then Some (JBool False, drop 5 s)
      else map_option (\<lambda>(t, r). (JNum t, r)) (jnumber s))"

text \<open>
  A value, the elements of an array after the opening bracket and the members of an object after
  the opening brace. \<open>d\<close> counts the open arrays and objects: the scanner refuses more than
  10000. The first argument is fuel: each call reads a byte or is followed by one that does, so
  twice the length of the text is enough.
\<close>

fun jval :: "nat \<Rightarrow> nat \<Rightarrow> string \<Rightarrow> (jvalue \<times> string) option"
  and jelems :: "nat \<Rightarrow> nat \<Rightarrow> string \<Rightarrow> (jvalue list \<times> string) option"
  and jmembers :: "nat \<Rightarrow> nat \<Rightarrow> string \<Rightarrow> ((string \<times> jvalue) list \<times> string) option" where
  "jval 0 d s = None"
| "jval (Suc n) d s = (case skip_ws s of
     [] \<Rightarrow> None
   | c # r \<Rightarrow>
       if c = CHR 0x22 then map_option (\<lambda>(t, r'). (JStr t, r')) (jstring r)
       else if c = CHR ''['' then
         (if 10000 \<le> d then None
          else if take 1 (skip_ws r) = '']'' then Some (JArr [], drop 1 (skip_ws r))
          else map_option (\<lambda>(vs, r'). (JArr vs, r')) (jelems n (Suc d) r))
       else if c = CHR ''{'' then
         (if 10000 \<le> d then None
          else if take 1 (skip_ws r) = ''}'' then Some (JObj [], drop 1 (skip_ws r))
          else map_option (\<lambda>(ms, r'). (JObj ms, r')) (jmembers n (Suc d) r))
       else jliteral (c # r))"
| "jelems 0 d s = None"
| "jelems (Suc n) d s = (case jval n d s of
     None \<Rightarrow> None
   | Some (v, r) \<Rightarrow> (case skip_ws r of
       [] \<Rightarrow> None
     | c # r' \<Rightarrow>
         if c = CHR '']'' then Some ([v], r')
         else if c = CHR '','' then map_option (\<lambda>(vs, r''). (v # vs, r'')) (jelems n d r')
         else None))"
| "jmembers 0 d s = None"
| "jmembers (Suc n) d s = (case skip_ws s of
     [] \<Rightarrow> None
   | q # r0 \<Rightarrow>
       if q \<noteq> CHR 0x22 then None
       else (case jstring r0 of
         None \<Rightarrow> None
       | Some (k, r1) \<Rightarrow> (case skip_ws r1 of
           [] \<Rightarrow> None
         | c # r2 \<Rightarrow>
             if c \<noteq> CHR '':'' then None
             else (case jval n d r2 of
               None \<Rightarrow> None
             | Some (v, r) \<Rightarrow> (case skip_ws r of
                 [] \<Rightarrow> None
               | e # r' \<Rightarrow>
                   if e = CHR ''}'' then Some ([(k, v)], r')
                   else if e = CHR '','' then
                     map_option (\<lambda>(ms, r''). ((k, v) # ms, r'')) (jmembers n d r')
                   else None)))))"

definition json_parse :: "string \<Rightarrow> jvalue option" where
  "json_parse s = (case jval (2 * length s + 2) 0 s of
     None \<Rightarrow> None
   | Some (v, r) \<Rightarrow> if skip_ws r = [] then Some v else None)"

section \<open>Decoding into an interface and into a struct\<close>

text \<open>An integer literal: an optional sign and digits.\<close>

definition int_literal :: "string \<Rightarrow> nat option" where
  "int_literal t =
     (let ds = (if take 1 t = ''-'' then tl t else t) in
      if ds \<noteq> [] \<and> list_all is_digit ds
      then Some (foldl (\<lambda>n c. 10 * n + (byte c - 48)) 0 ds) else None)"

definition num_text :: "(string \<Rightarrow> string option) \<Rightarrow> string \<Rightarrow> string option" where
  "num_text f64 t = (case int_literal t of
     Some n \<Rightarrow> if n \<le> 2 ^ 53 then Some t else f64 t
   | None \<Rightarrow> f64 t)"

text \<open>
  The \<^verbatim>\<open>interface{}\<close> a value decodes into: a later member of an object replaces an earlier one
  of the same name, and a number out of range is left nil and reported as an error.
\<close>

primrec any_of :: "(string \<Rightarrow> string option) \<Rightarrow> jvalue \<Rightarrow> jvalue" where
  "any_of f64 JNull = JNull"
| "any_of f64 (JBool b) = JBool b"
| "any_of f64 (JNum t) = (case num_text f64 t of None \<Rightarrow> JNull | Some t' \<Rightarrow> JNum t')"
| "any_of f64 (JStr s) = JStr s"
| "any_of f64 (JArr vs) = JArr (map (any_of f64) vs)"
| "any_of f64 (JObj ms) =
     JObj (fold (\<lambda>(k, v) m. mput k v m) (map (map_prod id (any_of f64)) ms) [])"

primrec any_ok :: "(string \<Rightarrow> string option) \<Rightarrow> jvalue \<Rightarrow> bool" where
  "any_ok f64 JNull = True"
| "any_ok f64 (JBool b) = True"
| "any_ok f64 (JNum t) = (num_text f64 t \<noteq> None)"
| "any_ok f64 (JStr s) = True"
| "any_ok f64 (JArr vs) = list_all id (map (any_ok f64) vs)"
| "any_ok f64 (JObj ms) = list_all snd (map (map_prod id (any_ok f64)) ms)"

text \<open>
  \<^verbatim>\<open>json.Unmarshal(data, &msg)\<close> into a nil \<^verbatim>\<open>interface{}\<close>, the error ignored: a text that
  is not JSON leaves it nil.
\<close>

definition unmarshal_any :: "(string \<Rightarrow> string option) \<Rightarrow> string \<Rightarrow> jvalue" where
  "unmarshal_any f64 data = (case json_parse data of None \<Rightarrow> JNull | Some v \<Rightarrow> any_of f64 v)"

text \<open>
  The comparison of a field name with a key that differs from it: case is ignored for ASCII
  letters, and the long s and the Kelvin sign match \<^verbatim>\<open>s\<close> and \<^verbatim>\<open>k\<close>.
\<close>

fun fold_eq :: "string \<Rightarrow> string \<Rightarrow> bool" where
  "fold_eq [] t = (t = [])"
| "fold_eq (s # ss) t =
     (if t = [] then False
      else if byte (hd t) < 128 then lower s = lower (hd t) \<and> fold_eq ss (tl t)
      else if lower s = CHR ''s'' \<and> take 2 t = [CHR 0xC5, CHR 0xBF] then fold_eq ss (drop 2 t)
      else if lower s = CHR ''k'' \<and> take 3 t = [CHR 0xE2, CHR 0x84, CHR 0xAA]
        then fold_eq ss (drop 3 t)
      else False)"

definition pick_field :: "string list \<Rightarrow> string \<Rightarrow> string option" where
  "pick_field names key =
     (if key \<in> set names then Some key else find (\<lambda>n. fold_eq n key) names)"

text \<open>
  Decoding the members of an object into a struct: \<open>set_field name v r\<close> stores a value into the
  field, or returns \<open>None\<close> where the value's type does not fit; then the field is left as it is,
  the rest of the object is still decoded and the first such error is returned at the end.
\<close>

fun decode_members ::
  "string list \<Rightarrow> (string \<Rightarrow> jvalue \<Rightarrow> 'r \<Rightarrow> 'r \<times> bool) \<Rightarrow> (string \<times> jvalue) list \<Rightarrow> 'r \<times> bool
   \<Rightarrow> 'r \<times> bool" where
  "decode_members names set_field [] acc = acc"
| "decode_members names set_field ((k, v) # ms) (r, ok) =
     (case pick_field names k of
        None \<Rightarrow> decode_members names set_field ms (r, ok)
      | Some name \<Rightarrow>
          (let (r', ok') = set_field name v r
           in decode_members names set_field ms (r', ok \<and> ok')))"

definition json_syntax_error :: error where
  "json_syntax_error = Err ''invalid JSON''"

definition json_type_error :: error where
  "json_type_error = Err ''json: cannot unmarshal''"

definition unmarshal_value ::
  "string list \<Rightarrow> (string \<Rightarrow> jvalue \<Rightarrow> 'r \<Rightarrow> 'r \<times> bool) \<Rightarrow> jvalue \<Rightarrow> 'r \<Rightarrow> 'r \<times> error option" where
  "unmarshal_value names set_field v r = (case v of
     JNull \<Rightarrow> (r, None)
   | JObj ms \<Rightarrow>
       (let (r', ok) = decode_members names set_field ms (r, True)
        in (r', if ok then None else Some json_type_error))
   | _ \<Rightarrow> (r, Some json_type_error))"

definition unmarshal ::
  "string list \<Rightarrow> (string \<Rightarrow> jvalue \<Rightarrow> 'r \<Rightarrow> 'r \<times> bool) \<Rightarrow> string \<Rightarrow> 'r \<Rightarrow> 'r \<times> error option" where
  "unmarshal names set_field raw r = (case json_parse raw of
     None \<Rightarrow> (r, Some json_syntax_error)
   | Some v \<Rightarrow> unmarshal_value names set_field v r)"

text \<open>Storing a value into a field of type \<^verbatim>\<open>string\<close> or \<^verbatim>\<open>bool\<close>; null leaves it alone.\<close>

definition set_string :: "(string \<Rightarrow> 'r \<Rightarrow> 'r) \<Rightarrow> jvalue \<Rightarrow> 'r \<Rightarrow> 'r \<times> bool" where
  "set_string upd v r =
     (case v of JStr s \<Rightarrow> (upd s r, True) | JNull \<Rightarrow> (r, True) | _ \<Rightarrow> (r, False))"

definition set_bool :: "(bool \<Rightarrow> 'r \<Rightarrow> 'r) \<Rightarrow> jvalue \<Rightarrow> 'r \<Rightarrow> 'r \<times> bool" where
  "set_bool upd v r =
     (case v of JBool b \<Rightarrow> (upd b r, True) | JNull \<Rightarrow> (r, True) | _ \<Rightarrow> (r, False))"

end
