(* ===== verification/Common.thy ===== *)
theory Common
  imports Go_Json
begin

text \<open>
  The data shared by all components, from \<^verbatim>\<open>common/common.go\<close>: the session environment with
  its two kinds of application state, the results of controller calls, the messages that come from
  clients and from the pub/sub backend, and the messages sent to clients.

  The shared theorems: a merge of state deletes the keys with an empty value and overwrites the
  rest, whatever the order in which the map is visited.
\<close>

section \<open>Session environment\<close>

record SessionEnv =
  URL :: string
  Headers :: "(string, string) gomap option"
  ConnectionState :: "(string, string) gomap option"
  ChannelStates :: "(string, (string, string) gomap) gomap option"

definition nil_deref :: string where
  "nil_deref = ''invalid memory address or nil pointer dereference''"

definition NewSessionEnv :: "string \<Rightarrow> (string, string) gomap option \<Rightarrow> SessionEnv" where
  "NewSessionEnv url headers =
     \<lparr>URL = url, Headers = headers, ConnectionState = Some [], ChannelStates = Some []\<rparr>"

text \<open>One step of a merge loop: an empty value removes the key, any other is stored.\<close>

definition merge_entry ::
  "string \<times> string \<Rightarrow> (string, string) gomap \<Rightarrow> (string, string) gomap" where
  "merge_entry = (\<lambda>(k, v) m. if v = [] then mdel k m else mput k v m)"

definition MergeConnectionState :: "SessionEnv \<Rightarrow> (string, string) gomap \<Rightarrow> SessionEnv go" where
  "MergeConnectionState st other =
     gfor other (\<lambda>kv st. case ConnectionState st of
       None \<Rightarrow> Panic nil_deref
     | Some m \<Rightarrow> Ret (st\<lparr>ConnectionState := Some (merge_entry kv m)\<rparr>)) st"

definition MergeChannelState ::
  "SessionEnv \<Rightarrow> string \<Rightarrow> (string, string) gomap \<Rightarrow> SessionEnv go" where
  "MergeChannelState st ident other = (case ChannelStates st of
     None \<Rightarrow> Panic nil_deref
   | Some cs \<Rightarrow>
       (let cs' = (if \<not> mhas cs ident then mput ident [] cs else cs) in
        Ret (st\<lparr>ChannelStates := Some (fold (\<lambda>kv cs. mput ident (merge_entry kv (mfind cs ident)) cs) other cs')\<rparr>)))"

definition GetChannelStateField :: "SessionEnv \<Rightarrow> string \<Rightarrow> string \<Rightarrow> string go" where
  "GetChannelStateField st ident fld = (case ChannelStates st of
     None \<Rightarrow> Panic nil_deref
   | Some cs \<Rightarrow> Ret (case map_of cs ident of None \<Rightarrow> [] | Some cst \<Rightarrow> mfind cst fld))"

definition GetConnectionStateField :: "SessionEnv \<Rightarrow> string \<Rightarrow> string" where
  "GetConnectionStateField st fld = (case ConnectionState st of
     None \<Rightarrow> [] | Some m \<Rightarrow> mfind m fld)"

definition SetHeader :: "SessionEnv \<Rightarrow> string \<Rightarrow> string \<Rightarrow> SessionEnv" where
  "SetHeader st key val = (case Headers st of
     None \<Rightarrow> st\<lparr>Headers := Some [(key, val)]\<rparr>
   | Some hs \<Rightarrow> st\<lparr>Headers := Some (mput key val hs)\<rparr>)"

section \<open>Results of controller calls\<close>

definition SUCCESS :: int where "SUCCESS = 0"

definition FAILURE :: int where "FAILURE = 1"

definition ERROR :: int where "ERROR = 2"

lemmas status_defs = SUCCESS_def FAILURE_def ERROR_def

record StreamMessage =
  sm_Stream :: string
  sm_Data :: string

text \<open>\<open>CState\<close> and \<open>IState\<close> are maps that may be nil, which is not the same as empty.\<close>

record CallResult =
  call_Transmissions :: "string list"
  call_Broadcasts :: "StreamMessage list"
  call_CState :: "(string, string) gomap option"
  call_IState :: "(string, string) gomap option"

record ConnectResult =
  conn_Identifier :: string
  conn_Transmissions :: "string list"
  conn_Broadcasts :: "StreamMessage list"
  conn_CState :: "(string, string) gomap option"
  conn_IState :: "(string, string) gomap option"
  conn_Status :: int

definition ConnectResult_ToCallResult :: "ConnectResult \<Rightarrow> CallResult" where
  "ConnectResult_ToCallResult c =
     \<lparr>call_Transmissions = conn_Transmissions c, call_Broadcasts = conn_Broadcasts c,
      call_CState = conn_CState c, call_IState = conn_IState c\<rparr>"

record CommandResult =
  StopAllStreams :: bool
  cmd_Disconnect :: bool
  Streams :: "string list"
  StoppedStreams :: "string list"
  cmd_Transmissions :: "string list"
  cmd_Broadcasts :: "StreamMessage list"
  cmd_CState :: "(string, string) gomap option"
  cmd_IState :: "(string, string) gomap option"
  cmd_Status :: int

definition CommandResult_ToCallResult :: "CommandResult \<Rightarrow> CallResult" where
  "CommandResult_ToCallResult c =
     \<lparr>call_Transmissions = cmd_Transmissions c, call_Broadcasts = cmd_Broadcasts c,
      call_CState = cmd_CState c, call_IState = cmd_IState c\<rparr>"

section \<open>Messages\<close>

text \<open>A client's message. \<open>msg_Data\<close> is an \<^verbatim>\<open>interface{}\<close>, nil being \<open>JNull\<close>.\<close>

record Message =
  Command :: string
  Identifier :: string
  Data :: jvalue

text \<open>The payload is a raw JSON value; \<open>None\<close> is the nil slice.\<close>

record RemoteCommandMessage =
  rc_Command :: string
  rc_Payload :: "jvalue option"

record RemoteDisconnectMessage =
  rd_Identifier :: string
  rd_Reconnect :: bool

record PingMessage =
  ping_Type :: string
  ping_Message :: int

record DisconnectMessage =
  dm_Type :: string
  dm_Reason :: string
  dm_Reconnect :: bool

record Reply =
  reply_Type :: string
  reply_Identifier :: string
  reply_Message :: jvalue

definition set_StreamMessage :: "string \<Rightarrow> jvalue \<Rightarrow> StreamMessage \<Rightarrow> StreamMessage \<times> bool" where
  "set_StreamMessage name v r =
     (if name = ''stream'' then set_string (\<lambda>s r. r\<lparr>sm_Stream := s\<rparr>) v r
      else set_string (\<lambda>s r. r\<lparr>sm_Data := s\<rparr>) v r)"

definition set_RemoteCommandMessage ::
  "string \<Rightarrow> jvalue \<Rightarrow> RemoteCommandMessage \<Rightarrow> RemoteCommandMessage \<times> bool" where
  "set_RemoteCommandMessage name v r =
     (if name = ''command'' then set_string (\<lambda>s r. r\<lparr>rc_Command := s\<rparr>) v r
      else (r\<lparr>rc_Payload := Some v\<rparr>, True))"

definition set_RemoteDisconnectMessage ::
  "string \<Rightarrow> jvalue \<Rightarrow> RemoteDisconnectMessage \<Rightarrow> RemoteDisconnectMessage \<times> bool" where
  "set_RemoteDisconnectMessage name v r =
     (if name = ''identifier'' then set_string (\<lambda>s r. r\<lparr>rd_Identifier := s\<rparr>) v r
      else set_bool (\<lambda>b r. r\<lparr>rd_Reconnect := b\<rparr>) v r)"

datatype PubSubMessage = PStream StreamMessage | PDisconnect RemoteDisconnectMessage

definition PubSubMessageFromJSON :: "string \<Rightarrow> error + PubSubMessage" where
  "PubSubMessageFromJSON raw =
     (let (smsg, serr) = unmarshal [''stream'', ''data''] set_StreamMessage raw
            \<lparr>sm_Stream = [], sm_Data = []\<rparr>
      in if serr = None \<and> sm_Stream smsg \<noteq> [] then Inr (PStream smsg)
      else
     (let (rmsg, rerr) = unmarshal [''command'', ''payload''] set_RemoteCommandMessage raw
            \<lparr>rc_Command = [], rc_Payload = None\<rparr>
      in case rerr of Some e \<Rightarrow> Inl e
       | None \<Rightarrow>
         if rc_Command rmsg = ''disconnect'' then
           (case rc_Payload rmsg of
              None \<Rightarrow> Inl json_syntax_error
            | Some p \<Rightarrow>
                (let (dmsg, derr) = unmarshal_value [''identifier'', ''reconnect'']
                       set_RemoteDisconnectMessage p \<lparr>rd_Identifier = [], rd_Reconnect = False\<rparr>
                 in case derr of Some e \<Rightarrow> Inl e | None \<Rightarrow> Inr (PDisconnect dmsg)))
         else Inl (Err (''Unknown message: '' @ raw))))"

section \<open>Merging state\<close>

lemma MergeConnectionState_Some:
  assumes "ConnectionState st = Some m"
  shows "MergeConnectionState st other = Ret (st\<lparr>ConnectionState := Some (fold merge_entry other m)\<rparr>)"
  using assms unfolding MergeConnectionState_def
  by (induction other arbitrary: st m) (auto simp: merge_entry_def)

lemma fold_merge_channel:
  "map_of (fold (\<lambda>kv cs. mput ident (merge_entry kv (mfind cs ident)) cs) other (cs :: ('a, (string, string) gomap) gomap)) ident' =
     (if ident' = ident \<and> (other \<noteq> [] \<or> map_of cs ident \<noteq> None)
      then Some (fold merge_entry other (mfind cs ident)) else map_of cs ident')"
proof (induction other arbitrary: cs)
  case Nil
  then show ?case by (auto simp: gomap_simps)
next
  case (Cons kv other)
  then show ?case by (auto simp: gomap_simps)
qed

lemma map_of_merge:
  assumes "gomap other"
  shows "map_of (fold merge_entry other m) k =
    (case map_of other k of None \<Rightarrow> map_of m k | Some v \<Rightarrow> if v = [] then None else Some v)"
  using gm.get_merge [OF assms, of "\<lambda>v. v = []" m k] by (simp add: merge_entry_def)

end
