(* ===== verification/Go_Pool.thy ===== *)
theory Go_Pool
  imports Go_Prelude "HOL-Library.Multiset"
begin

text \<open>
  The goroutine pool of \<^verbatim>\<open>utils/gopool.go\<close>. A pool is the tokens in its semaphore channel, the
  queue of tasks and its live workers; a worker is busy with the task it was started for, waiting
  for a task of the queue, or busy with such a task, with the number of tasks it has finished.
  Scheduling and the two moves of a worker (taking a task, returning from one) are functions; a run
  of the pool interleaves them in any order.

  The lemmas show that tokens and workers agree and stay within the pool's size, that the queue
  stays within its capacity, that no task is lost or run twice, and that a blocked caller is never
  stuck for good: whenever the pool accepts nothing, one of its workers can move. A task that was
  accepted can be stuck, though, when the last worker has reached its number of tasks.
\<close>

section \<open>The pool\<close>

definition workerRespawnThreshold :: nat where
  "workerRespawnThreshold = 2 ^ 16"

datatype 't Worker =
    Starting "'t option"
  | Waiting nat
  | Running 't nat

record 't GoPool =
  pool_name :: string
  pool_size :: nat
  sem :: nat
  work :: "'t list"
  queue_cap :: nat
  workers :: "'t Worker list"

definition ErrScheduleTimeout :: error where
  "ErrScheduleTimeout = Err ''schedule error: timed out''"

definition spawn_count :: "int \<Rightarrow> nat" where
  "spawn_count poolSize =
     (let spawn = poolSize div 5;
          spawn = (if spawn \<le> 0 then 1 else spawn)
      in nat (if spawn > 1024 then 1024 else spawn))"

definition queue_count :: "int \<Rightarrow> nat" where
  "queue_count poolSize = (let queue = poolSize div 2 in nat (if queue \<le> 0 then 1 else queue))"

definition spawn_worker :: "'t option \<Rightarrow> 't GoPool \<Rightarrow> 't GoPool go" where
  "spawn_worker t p =
     (if sem p < pool_size p
      then Ret (p\<lparr>sem := Suc (sem p), workers := workers p @ [Starting t]\<rparr>) else Block)"

text \<open>
  \<^verbatim>\<open>make(chan struct{}, size)\<close> panics on a negative size. The quotients truncate towards zero in
  the source and are rounded down here: they differ only for a negative size.
\<close>

definition NewGoPool :: "string \<Rightarrow> int \<Rightarrow> 't GoPool go" where
  "NewGoPool name poolSize =
     (if poolSize < 0 then Panic ''makechan: size out of range''
      else gfor [0..<spawn_count poolSize] (\<lambda>_. spawn_worker None)
        \<lparr>pool_name = name, pool_size = nat poolSize, sem = 0, work = [],
         queue_cap = queue_count poolSize, workers = []\<rparr>)"

text \<open>
  The list of all pools, to which a new one is appended. A pool in it is only ever asked for its name
  and its size, which do not change.
\<close>

type_synonym PoolList = "(string \<times> nat) list"

definition register_pool :: "'t GoPool \<Rightarrow> PoolList \<Rightarrow> PoolList" where
  "register_pool p pools = pools @ [(pool_name p, pool_size p)]"

definition AllPools :: "PoolList \<Rightarrow> PoolList" where
  "AllPools pools = pools"

definition GoPool_Name :: "'t GoPool \<Rightarrow> string" where
  "GoPool_Name p = pool_name p"

definition GoPool_Size :: "'t GoPool \<Rightarrow> nat" where
  "GoPool_Size p = pool_size p"

section \<open>Scheduling\<close>

datatype SelectCase = TimeoutCase | WorkCase | SemCase

definition ready_cases :: "bool \<Rightarrow> 't GoPool \<Rightarrow> SelectCase list" where
  "ready_cases timedOut p =
     (if timedOut then [TimeoutCase] else []) @
     (if length (work p) < queue_cap p then [WorkCase] else []) @
     (if sem p < pool_size p then [SemCase] else [])"

text \<open>\<open>timedOut\<close> says that the timeout channel is ready; \<open>c\<close> is the choice of the \<^verbatim>\<open>select\<close>.\<close>

definition schedule :: "nat \<Rightarrow> bool \<Rightarrow> 't \<Rightarrow> 't GoPool \<Rightarrow> ('t GoPool \<times> error option) go" where
  "schedule c timedOut task p = gbind (select c (ready_cases timedOut p)) (\<lambda>k. case k of
       TimeoutCase \<Rightarrow> Ret (p, Some ErrScheduleTimeout)
     | WorkCase \<Rightarrow> Ret (p\<lparr>work := work p @ [task]\<rparr>, None)
     | SemCase \<Rightarrow> gbind (spawn_worker (Some task) p) (\<lambda>p. Ret (p, None)))"

text \<open>A nil timeout channel is never ready.\<close>

definition Schedule :: "nat \<Rightarrow> 't \<Rightarrow> 't GoPool \<Rightarrow> 't GoPool go" where
  "Schedule c task p = gbind (schedule c False task p) (\<lambda>(p, _). Ret p)"

definition ScheduleTimeout :: "nat \<Rightarrow> bool \<Rightarrow> 't \<Rightarrow> 't GoPool \<Rightarrow> ('t GoPool \<times> error option) go" where
  "ScheduleTimeout c elapsed task p = schedule c elapsed task p"

section \<open>Workers\<close>

text \<open>The worker at position \<open>i\<close> receives the next task of the queue; it blocks when there is none.\<close>

definition worker_take :: "nat \<Rightarrow> 't GoPool \<Rightarrow> 't GoPool go" where
  "worker_take i p =
     (if i < length (workers p) then
       (case (workers p ! i, work p) of
          (Waiting n, t # ts) \<Rightarrow> Ret (p\<lparr>work := ts, workers := (workers p)[i := Running t n]\<rparr>)
        | _ \<Rightarrow> Block)
      else Block)"

definition worker_exit :: "nat \<Rightarrow> 't GoPool \<Rightarrow> 't GoPool" where
  "worker_exit i p =
     p\<lparr>sem := sem p - 1, workers := take i (workers p) @ drop (Suc i) (workers p)\<rparr>"

text \<open>The task of the worker at position \<open>i\<close> returns.\<close>

definition worker_done :: "nat \<Rightarrow> 't GoPool \<Rightarrow> 't GoPool go" where
  "worker_done i p =
     (if i < length (workers p) then
       (case workers p ! i of
          Starting _ \<Rightarrow> Ret (p\<lparr>workers := (workers p)[i := Waiting 1]\<rparr>)
        | Running _ n \<Rightarrow>
            if Suc n \<ge> workerRespawnThreshold then Ret (worker_exit i p)
            else Ret (p\<lparr>workers := (workers p)[i := Waiting (Suc n)]\<rparr>)
        | Waiting _ \<Rightarrow> Block)
      else Block)"

definition current_task :: "'t Worker \<Rightarrow> 't list" where
  "current_task w = (case w of Starting (Some t) \<Rightarrow> [t] | Running t _ \<Rightarrow> [t] | _ \<Rightarrow> [])"

definition tasks_done :: "'t Worker \<Rightarrow> nat" where
  "tasks_done w = (case w of Starting _ \<Rightarrow> 0 | Waiting n \<Rightarrow> n | Running _ n \<Rightarrow> n)"

text \<open>The tasks the pool has accepted and not finished.\<close>

definition pending :: "'t GoPool \<Rightarrow> 't multiset" where
  "pending p = mset (work p) + mset (concat (map current_task (workers p)))"

definition pool_inv :: "'t GoPool \<Rightarrow> bool" where
  "pool_inv p \<longleftrightarrow> length (workers p) = sem p \<and> sem p \<le> pool_size p \<and>
     length (work p) \<le> queue_cap p \<and> 0 < queue_cap p \<and> 0 < pool_size p \<and>
     (\<forall>w \<in> set (workers p). tasks_done w < workerRespawnThreshold)"

inductive pool_step :: "'t GoPool \<Rightarrow> 't GoPool \<Rightarrow> bool" where
  scheduled: "schedule c elapsed t p = Ret (q, e) \<Longrightarrow> pool_step p q"
| taken: "worker_take i p = Ret q \<Longrightarrow> pool_step p q"
| returned: "worker_done i p = Ret q \<Longrightarrow> pool_step p q"

inductive_cases pool_stepE: "pool_step p q"

definition pool_created :: "'t GoPool \<Rightarrow> bool" where
  "pool_created p \<longleftrightarrow> (\<exists>name n. NewGoPool name n = Ret p)"

section \<open>Creation\<close>

lemma spawn_workers:
  "sem p + length xs \<le> pool_size p \<Longrightarrow>
   gfor xs (\<lambda>_. spawn_worker t) p =
     Ret (p\<lparr>sem := sem p + length xs, workers := workers p @ replicate (length xs) (Starting t)\<rparr>)"
proof (induction xs arbitrary: p)
  case (Cons x xs)
  then have "sem p < pool_size p" by simp
  then show ?case
    using Cons by (simp add: spawn_worker_def replicate_append_same)
qed simp

lemma spawn_count_bounds: "0 < n \<Longrightarrow> 1 \<le> spawn_count n \<and> spawn_count n \<le> nat n \<and> spawn_count n \<le> 1024"
  by (auto simp: spawn_count_def Let_def)

lemma queue_count_pos: "1 \<le> queue_count n"
  by (auto simp: queue_count_def Let_def)

lemma NewGoPool_positive:
  assumes "0 < n"
  shows "NewGoPool name n = Ret \<lparr>pool_name = name, pool_size = nat n, sem = spawn_count n, work = [],
    queue_cap = queue_count n, workers = replicate (spawn_count n) (Starting None)\<rparr>"
  using assms spawn_count_bounds [OF assms] by (simp add: NewGoPool_def spawn_workers)

lemma NewGoPool_zero: "NewGoPool name 0 = Block"
  by (simp add: NewGoPool_def spawn_count_def upt_rec [of 0] spawn_worker_def)

lemma NewGoPool_Ret_iff: "(\<exists>p. NewGoPool name n = Ret p) \<longleftrightarrow> 0 < n"
proof (cases n "0 :: int" rule: linorder_cases)
  case less
  then show ?thesis by (simp add: NewGoPool_def)
qed (simp_all add: NewGoPool_zero NewGoPool_positive)

lemma pool_inv_created: "pool_created p \<Longrightarrow> pool_inv p"
proof -
  assume "pool_created p"
  then obtain name n where *: "NewGoPool name n = Ret p" by (auto simp: pool_created_def)
  then have n: "0 < n" using NewGoPool_Ret_iff by blast
  with * have "p = \<lparr>pool_name = name, pool_size = nat n, sem = spawn_count n, work = [],
      queue_cap = queue_count n, workers = replicate (spawn_count n) (Starting None)\<rparr>"
    by (simp add: NewGoPool_positive)
  with n spawn_count_bounds [OF n] queue_count_pos [of n] show ?thesis
    by (auto simp: pool_inv_def tasks_done_def workerRespawnThreshold_def)
qed

section \<open>The moves keep the invariant\<close>

lemma schedule_cases:
  assumes "schedule c elapsed t p = Ret (q, e)"
  obtains (timeout) "elapsed" "q = p" "e = Some ErrScheduleTimeout"
  | (queued) "length (work p) < queue_cap p" "q = p\<lparr>work := work p @ [t]\<rparr>" "e = None"
  | (spawned) "sem p < pool_size p" "e = None"
      "q = p\<lparr>sem := Suc (sem p), workers := workers p @ [Starting (Some t)]\<rparr>"
proof -
  from assms obtain k where k: "select c (ready_cases elapsed p) = Ret k"
    and *: "(case k of TimeoutCase \<Rightarrow> Ret (p, Some ErrScheduleTimeout)
       | WorkCase \<Rightarrow> Ret (p\<lparr>work := work p @ [t]\<rparr>, None)
       | SemCase \<Rightarrow> gbind (spawn_worker (Some t) p) (\<lambda>p. Ret (p, None))) = Ret (q, e)"
    by (auto simp: schedule_def go_simps)
  from select_ready [OF k] have r: "k \<in> set (ready_cases elapsed p)" .
  show thesis
  proof (cases k)
    case TimeoutCase
    with * r show thesis by (intro timeout) (auto simp: ready_cases_def split: if_splits)
  next
    case WorkCase
    with * r show thesis by (intro queued) (auto simp: ready_cases_def split: if_splits)
  next
    case SemCase
    with * r show thesis
      by (intro spawned) (auto simp: ready_cases_def spawn_worker_def split: if_splits)
  qed
qed

lemma worker_take_cases:
  assumes "worker_take i p = Ret q"
  obtains n t ts where "i < length (workers p)" "workers p ! i = Waiting n" "work p = t # ts"
    "q = p\<lparr>work := ts, workers := (workers p)[i := Running t n]\<rparr>"
  using assms by (auto simp: worker_take_def split: if_splits Worker.splits list.splits)

lemma worker_done_cases:
  assumes "worker_done i p = Ret q"
  obtains (first) t where "i < length (workers p)" "workers p ! i = Starting t"
      "q = p\<lparr>workers := (workers p)[i := Waiting 1]\<rparr>"
  | (next_task) t n where "i < length (workers p)" "workers p ! i = Running t n"
      "Suc n < workerRespawnThreshold" "q = p\<lparr>workers := (workers p)[i := Waiting (Suc n)]\<rparr>"
  | (respawn) t n where "i < length (workers p)" "workers p ! i = Running t n"
      "workerRespawnThreshold \<le> Suc n" "q = worker_exit i p"
  using assms by (auto simp: worker_done_def not_le split: if_splits Worker.splits)

lemma pool_inv_schedule:
  assumes "pool_inv p" "schedule c elapsed t p = Ret (q, e)"
  shows "pool_inv q"
  using assms(2)
proof (cases rule: schedule_cases)
  case spawned
  with assms(1) show ?thesis
    by (auto simp: pool_inv_def tasks_done_def workerRespawnThreshold_def)
qed (use assms(1) in \<open>auto simp: pool_inv_def\<close>)

lemma pool_inv_take:
  assumes "pool_inv p" "worker_take i p = Ret q"
  shows "pool_inv q"
proof -
  from assms(2) obtain n t ts where i: "i < length (workers p)" and w: "workers p ! i = Waiting n"
    and ts: "work p = t # ts" and q: "q = p\<lparr>work := ts, workers := (workers p)[i := Running t n]\<rparr>"
    by (rule worker_take_cases)
  from i w have "Waiting n \<in> set (workers p)" by (metis nth_mem)
  with assms(1) have "n < workerRespawnThreshold" by (auto simp: pool_inv_def tasks_done_def)
  with assms(1) i ts q show ?thesis
    by (auto simp: pool_inv_def tasks_done_def dest!: set_update_subset_insert [THEN subsetD])
qed

lemma pool_inv_done:
  assumes "pool_inv p" "worker_done i p = Ret q"
  shows "pool_inv q"
  using assms(2)
proof (cases rule: worker_done_cases)
  case (first t)
  with assms(1) show ?thesis
    by (auto simp: pool_inv_def tasks_done_def workerRespawnThreshold_def
        dest!: set_update_subset_insert [THEN subsetD])
next
  case (next_task t n)
  with assms(1) show ?thesis
    by (auto simp: pool_inv_def tasks_done_def dest!: set_update_subset_insert [THEN subsetD])
next
  case (respawn t n)
  with assms(1) show ?thesis
    by (auto simp: pool_inv_def worker_exit_def dest: in_set_takeD in_set_dropD)
qed

lemma pool_inv_step: "pool_inv p \<Longrightarrow> pool_step p q \<Longrightarrow> pool_inv q"
  by (erule pool_stepE) (auto intro: pool_inv_schedule pool_inv_take pool_inv_done)

interpretation gopool: invariant_of pool_created pool_step pool_inv
  by unfold_locales (fact pool_inv_created, fact pool_inv_step)

section \<open>Accounting of tasks\<close>

lemma pending_schedule:
  assumes "schedule c elapsed t p = Ret (q, e)"
  shows "pending q = (if e = None then add_mset t (pending p) else pending p)"
  using assms
  by (cases rule: schedule_cases) (simp_all add: pending_def current_task_def ErrScheduleTimeout_def)

lemma mset_concat_update:
  "i < length xs \<Longrightarrow>
   mset (concat (map f (xs[i := x]))) + mset (f (xs ! i)) = mset (concat (map f xs)) + mset (f x)"
proof (induction xs arbitrary: i)
  case (Cons y ys)
  then show ?case by (cases i) (auto simp: ac_simps add_left_cancel)
qed simp

lemma pending_take:
  assumes "worker_take i p = Ret q"
  shows "pending q = pending p"
proof -
  from assms obtain n t ts where *: "i < length (workers p)" "workers p ! i = Waiting n"
    "work p = t # ts" "q = p\<lparr>work := ts, workers := (workers p)[i := Running t n]\<rparr>"
    by (rule worker_take_cases)
  with mset_concat_update [OF *(1), of current_task "Running t n"]
  show ?thesis by (simp add: pending_def current_task_def)
qed

lemma mset_concat_remove:
  "i < length xs \<Longrightarrow>
   mset (concat (map f (take i xs @ drop (Suc i) xs))) + mset (f (xs ! i)) = mset (concat (map f xs))"
proof -
  assume "i < length xs"
  then have "concat (map f xs) = concat (map f (take i xs @ xs ! i # drop (Suc i) xs))"
    by (simp add: id_take_nth_drop [symmetric])
  then show ?thesis by (simp add: ac_simps)
qed

lemma pending_done:
  assumes "worker_done i p = Ret q"
  shows "pending q + mset (current_task (workers p ! i)) = pending p"
  using assms
proof (cases rule: worker_done_cases)
  case (first t)
  with mset_concat_update [of i "workers p" current_task "Waiting 1"]
  show ?thesis by (simp add: pending_def current_task_def ac_simps)
next
  case (next_task t n)
  with mset_concat_update [of i "workers p" current_task "Waiting (Suc n)"]
  show ?thesis by (simp add: pending_def current_task_def ac_simps)
next
  case (respawn t n)
  with mset_concat_remove [of i "workers p" current_task]
  show ?thesis by (simp add: pending_def worker_exit_def ac_simps)
qed

section \<open>Progress\<close>

lemma schedule_Block_iff:
  assumes "pool_inv p"
  shows "Schedule c t p = Block \<longleftrightarrow> sem p = pool_size p \<and> length (work p) = queue_cap p"
proof -
  have "spawn_worker (Some t) p \<noteq> Block" if "SemCase \<in> set (ready_cases False p)"
    using that by (auto simp: ready_cases_def spawn_worker_def split: if_splits)
  then have "Schedule c t p = Block \<longleftrightarrow> ready_cases False p = []"
    using select_ready [of c "ready_cases False p"]
    by (cases "select c (ready_cases False p)")
      (auto simp: Schedule_def schedule_def select_def spawn_worker_def ready_cases_def
        split: SelectCase.splits if_splits)
  also have "\<dots> \<longleftrightarrow> sem p = pool_size p \<and> length (work p) = queue_cap p"
    using assms by (auto simp: ready_cases_def pool_inv_def)
  finally show ?thesis .
qed

lemma blocked_pool_moves:
  assumes "pool_inv p" "Schedule c t p = Block"
  shows "\<exists>i q. worker_take i p = Ret q \<or> worker_done i p = Ret q"
proof -
  from assms schedule_Block_iff [OF assms(1)] have full: "sem p = pool_size p" "length (work p) = queue_cap p"
    by auto
  with assms(1) have i: "0 < length (workers p)" and "work p \<noteq> []" by (auto simp: pool_inv_def)
  then obtain t' ts where "work p = t' # ts" by (cases "work p") auto
  with i have "\<exists>q. worker_take 0 p = Ret q \<or> worker_done 0 p = Ret q"
    by (cases "workers p ! 0") (auto simp: worker_take_def worker_done_def)
  then show ?thesis by blast
qed

section \<open>Workers that retire\<close>

text \<open>A worker that waits takes a task and returns from it, while the others do nothing.\<close>

lemma schedule_queues:
  "length w < queue_cap p \<Longrightarrow>
   pool_step (p\<lparr>work := w, workers := ws\<rparr>) (p\<lparr>work := w @ [t], workers := ws\<rparr>)"
  by (rule scheduled [of 0 False t _ _ None], cases p) (simp add: schedule_def ready_cases_def select_def)

lemma worker_takes:
  "i < length ws \<Longrightarrow> ws ! i = Waiting k \<Longrightarrow>
   pool_step (p\<lparr>work := t # w, workers := ws\<rparr>) (p\<lparr>work := w, workers := ws[i := Running t k]\<rparr>)"
  by (rule taken [of i], cases p) (simp add: worker_take_def)

lemma worker_returns:
  "i < length ws \<Longrightarrow> ws ! i = Running t k \<Longrightarrow> Suc k < workerRespawnThreshold \<Longrightarrow>
   pool_step (p\<lparr>work := w, workers := ws\<rparr>) (p\<lparr>work := w, workers := ws[i := Waiting (Suc k)]\<rparr>)"
  by (rule returned [of i], cases p) (simp add: worker_done_def)

lemma worker_cycle:
  fixes p :: "'t GoPool"
  assumes "reachable I pool_step (p\<lparr>work := [], workers := ws\<rparr>)" "i < length ws" "ws ! i = Waiting k"
    and "0 < queue_cap p" "Suc k < workerRespawnThreshold"
  shows "reachable I pool_step (p\<lparr>work := [], workers := ws[i := Waiting (Suc k)]\<rparr>)"
proof -
  define t :: 't where "t = undefined"
  have "pool_step (p\<lparr>work := [], workers := ws\<rparr>) (p\<lparr>work := [t], workers := ws\<rparr>)"
    using schedule_queues [of "[]" p ws t] assms(4) by simp
  moreover have "pool_step (p\<lparr>work := [t], workers := ws\<rparr>) (p\<lparr>work := [], workers := ws[i := Running t k]\<rparr>)"
    using assms(2,3) by (rule worker_takes)
  moreover have "pool_step (p\<lparr>work := [], workers := ws[i := Running t k]\<rparr>)
      (p\<lparr>work := [], workers := ws[i := Waiting (Suc k)]\<rparr>)"
    using worker_returns [of i "ws[i := Running t k]" t k "[]" p] assms(2,5) by simp
  ultimately show ?thesis using assms(1) by (blast intro: reach_step)
qed

lemma worker_wears:
  assumes "reachable I pool_step (p\<lparr>work := [], workers := ws\<rparr>)" "i < length ws" "ws ! i = Waiting k"
    and "0 < queue_cap p" "k + m < workerRespawnThreshold"
  shows "reachable I pool_step (p\<lparr>work := [], workers := ws[i := Waiting (k + m)]\<rparr>)"
  using assms(5)
proof (induction m)
  case 0
  with assms(1,3) show ?case by (metis add_0_right list_update_id)
next
  case (Suc m)
  with worker_cycle [of I "ws[i := Waiting (k + m)]" p i "k + m"] assms(2,4) show ?case by simp
qed

text \<open>The last worker of a pool runs its tasks up to the threshold and ends, with \<open>ts\<close> in the queue.\<close>

lemma worker_retires:
  fixes p :: "'t GoPool"
  assumes "reachable I pool_step (p\<lparr>work := [], workers := ws @ [Starting None]\<rparr>)"
    and "0 < queue_cap p" "length ts \<le> 1"
  shows "reachable I pool_step (p\<lparr>sem := sem p - 1, work := ts, workers := ws\<rparr>)"
proof -
  define t :: 't where "t = undefined"
  define k where "k = workerRespawnThreshold - 1"
  let ?i = "length ws"
  have "pool_step (p\<lparr>work := [], workers := ws @ [Starting None]\<rparr>) (p\<lparr>work := [], workers := ws @ [Waiting 1]\<rparr>)"
    by (rule returned [of ?i], cases p) (simp add: worker_done_def)
  with assms(1) have "reachable I pool_step (p\<lparr>work := [], workers := ws @ [Waiting 1]\<rparr>)" by (rule reach_step)
  from worker_wears [OF this, of ?i 1 "k - 1"] assms(2)
  have "reachable I pool_step (p\<lparr>work := [], workers := ws @ [Waiting k]\<rparr>)"
    by (simp add: k_def workerRespawnThreshold_def)
  moreover have "pool_step (p\<lparr>work := [], workers := ws @ [Waiting k]\<rparr>) (p\<lparr>work := [t], workers := ws @ [Waiting k]\<rparr>)"
    using schedule_queues [of "[]" p] assms(2) by simp
  moreover have "pool_step (p\<lparr>work := [t], workers := ws @ [Waiting k]\<rparr>) (p\<lparr>work := [], workers := ws @ [Running t k]\<rparr>)"
    using worker_takes [of ?i "ws @ [Waiting k]" k t "[]" p] by simp
  ultimately have busy: "reachable I pool_step (p\<lparr>work := [], workers := ws @ [Running t k]\<rparr>)" by (blast intro: reach_step)
  have "reachable I pool_step (p\<lparr>work := ts, workers := ws @ [Running t k]\<rparr>)"
  proof (cases ts)
    case (Cons u us)
    with assms(2,3) schedule_queues [of "[]" p "ws @ [Running t k]" u] busy show ?thesis
      by (auto intro: reach_step)
  qed (use busy in simp)
  moreover have "pool_step (p\<lparr>work := ts, workers := ws @ [Running t k]\<rparr>)
      (p\<lparr>sem := sem p - 1, work := ts, workers := ws\<rparr>)"
    by (rule returned [of ?i], cases p)
      (simp add: worker_done_def worker_exit_def k_def workerRespawnThreshold_def)
  ultimately show ?thesis by (rule reach_step)
qed

lemma workers_retire:
  assumes "reachable I pool_step (p\<lparr>work := [], workers := replicate (Suc m) (Starting None)\<rparr>)" "0 < queue_cap p"
  shows "reachable I pool_step (p\<lparr>sem := sem p - Suc m, work := [t], workers := []\<rparr>)"
  using assms
proof (induction m arbitrary: p)
  case 0
  then show ?case using worker_retires [of I "[]" p "[t]"] by simp
next
  case (Suc m)
  have "replicate (Suc (Suc m)) (Starting None) = replicate (Suc m) (Starting None) @ [Starting None]"
    by (simp add: replicate_append_same)
  from worker_retires [of I _ p "[]", OF Suc.prems(1) [unfolded this] Suc.prems(2)]
  have "reachable I pool_step (p\<lparr>sem := sem p - 1, work := [], workers := replicate (Suc m) (Starting None)\<rparr>)"
    by simp
  from Suc.IH [OF this] Suc.prems(2) show ?case by simp
qed

section \<open>Properties\<close>

text \<open>
  A pool of positive size is created with one worker for every five of its size (at least one,
  at most 1024, never more than the size), each holding a token, and an empty queue of half the
  size (at least one). Creation with size zero never returns: the first token has no room. Creation
  with a negative size panics.
\<close>

theorem NewGoPool_outcome:
  "NewGoPool name n =
    (if n < 0 then Panic ''makechan: size out of range''
     else if n = 0 then Block
     else Ret \<lparr>pool_name = name, pool_size = nat n,
       sem = min 1024 (max 1 (nat n div 5)), work = [], queue_cap = max 1 (nat n div 2),
       workers = replicate (min 1024 (max 1 (nat n div 5))) (Starting None)\<rparr>)"
proof (cases n "0 :: int" rule: linorder_cases)
  case less
  then show ?thesis by (simp add: NewGoPool_def)
next
  case greater
  have "spawn_count n = min 1024 (max 1 (nat n div 5))"
    using greater by (auto simp: spawn_count_def Let_def min_def max_def nat_div_distrib)
  moreover have "queue_count n = max 1 (nat n div 2)"
    using greater by (auto simp: queue_count_def Let_def max_def nat_div_distrib)
  ultimately show ?thesis using greater by (simp add: NewGoPool_positive)
qed (simp add: NewGoPool_zero)

text \<open>
  C31. In every state a pool can reach, each worker holds a token and there are at most as many
  workers as the pool's size, the queue is within its capacity, and no worker has finished as many
  tasks as the respawn threshold.
\<close>

theorem pool_bounded:
  assumes "reachable pool_created pool_step p"
  shows "length (workers p) = sem p \<and> length (workers p) \<le> pool_size p \<and>
    length (work p) \<le> queue_cap p \<and> (\<forall>w \<in> set (workers p). tasks_done w < 2 ^ 16)"
  using gopool.inv_reachable [OF assms] by (simp add: pool_inv_def workerRespawnThreshold_def)

lemma pool_created_one:
  "pool_created (\<lparr>pool_name = ''w'', pool_size = 1, sem = 1, work = [], queue_cap = 1,
     workers = [Starting None]\<rparr> :: nat GoPool)"
  unfolding pool_created_def
  by (rule exI [of _ "''w''"], rule exI [of _ 1])
    (simp add: NewGoPool_positive spawn_count_def queue_count_def)

lemma pool_reached_full:
  "reachable pool_created pool_step (\<lparr>pool_name = ''w'', pool_size = 1, sem = 1, work = [7],
     queue_cap = 1, workers = [Starting None]\<rparr> :: nat GoPool)"
  by (rule reach_step [OF reach_init [of pool_created, OF pool_created_one]],
      rule scheduled [of 0 False 7 _ _ None])
    (simp add: schedule_def ready_cases_def select_def)

theorem pool_bounded_witness:
  "length (workers (\<lparr>pool_name = ''w'', pool_size = 1, sem = 1, work = [7], queue_cap = 1,
     workers = [Starting None]\<rparr> :: nat GoPool)) = 1"
  using pool_bounded [OF pool_reached_full] by simp

text \<open>
  C32. No task is lost, duplicated or run twice: a schedule that reports success adds exactly its
  task to the pending ones and one that times out adds nothing, a worker that takes a task leaves
  them as they are, and a worker that returns removes exactly the task it was running.
\<close>

theorem pool_accounting:
  "(schedule c elapsed t p = Ret (q, e) \<longrightarrow>
      pending q = (if e = None then add_mset t (pending p) else pending p)) \<and>
   (worker_take i p = Ret q' \<longrightarrow> pending q' = pending p) \<and>
   (worker_done i p = Ret q'' \<longrightarrow> pending q'' + mset (current_task (workers p ! i)) = pending p)"
  by (intro conjI impI pending_schedule pending_take pending_done)

theorem pool_accounting_witness:
  "let p = \<lparr>pool_name = ''w'', pool_size = 1, sem = 1, work = [], queue_cap = 1,
             workers = [Running (3 :: nat) 1]\<rparr>
   in pending (p\<lparr>work := [7]\<rparr>) = add_mset 7 (pending p) \<and>
      pending (p\<lparr>workers := [Waiting 2]\<rparr>) + {#3#} = pending p"
  using pool_accounting [of 0 False 7 "\<lparr>pool_name = ''w'', pool_size = 1, sem = 1, work = [], queue_cap = 1,
      workers = [Running (3 :: nat) 1]\<rparr>" _ None 0]
  by (simp add: schedule_def ready_cases_def select_def worker_done_def workerRespawnThreshold_def
      current_task_def worker_take_def)

text \<open>
  A caller blocked in \<^verbatim>\<open>Schedule\<close> is not stuck: the pool then has its full number of workers and
  a full queue, and some worker can take a task or return from one.
\<close>

theorem pool_progress:
  assumes "reachable pool_created pool_step p" and "Schedule c t p = Block"
  shows "length (workers p) = pool_size p \<and> length (work p) = queue_cap p \<and>
    (\<exists>i q. worker_take i p = Ret q \<or> worker_done i p = Ret q)"
proof -
  have inv: "pool_inv p" by (rule gopool.inv_reachable [OF assms(1)])
  with assms(2) schedule_Block_iff [OF inv] blocked_pool_moves [OF inv assms(2)] show ?thesis
    by (simp add: pool_inv_def)
qed

theorem pool_progress_witness:
  "\<exists>i q. worker_take i (\<lparr>pool_name = ''w'', pool_size = 1, sem = 1, work = [7], queue_cap = 1,
      workers = [Starting None]\<rparr> :: nat GoPool) = Ret q \<or>
    worker_done i (\<lparr>pool_name = ''w'', pool_size = 1, sem = 1, work = [7], queue_cap = 1,
      workers = [Starting None]\<rparr> :: nat GoPool) = Ret q"
  using pool_progress [OF pool_reached_full, of 0 8]
  by (simp add: Schedule_def schedule_def ready_cases_def select_def)

text \<open>
  C39. A task can be left in a pool without workers. A worker ends for good once it has run as many
  tasks as the respawn threshold, whatever the queue holds, and only \<^verbatim>\<open>Schedule\<close> starts workers. From
  every pool, of whatever size, a run leads to a state in which a task has been accepted, no worker
  is left and no worker can move: the task waits until something else is scheduled.
\<close>

theorem task_stranded:
  assumes "NewGoPool name n = Ret (p0 :: 't GoPool)"
  shows "\<exists>p. reachable (\<lambda>p. p = p0) pool_step p \<and> pending p = {#t#} \<and> work p = [t] \<and> workers p = [] \<and>
    (\<forall>i. worker_take i p = Block \<and> worker_done i p = Block)"
proof -
  have "0 < n" using assms NewGoPool_Ret_iff by blast
  define m where "m = spawn_count n - 1"
  have p0: "workers p0 = replicate (Suc m) (Starting None)" "work p0 = []" "0 < queue_cap p0"
    using assms spawn_count_bounds [OF \<open>0 < n\<close>]
    by (auto simp: NewGoPool_positive [OF \<open>0 < n\<close>] m_def queue_count_def Let_def)
  have "p0\<lparr>work := [], workers := replicate (Suc m) (Starting None)\<rparr> = p0" using p0(1,2) by (cases p0) simp
  then have "reachable (\<lambda>p. p = p0) pool_step (p0\<lparr>work := [], workers := replicate (Suc m) (Starting None)\<rparr>)"
    by (intro reach_init) simp
  from workers_retire [OF this p0(3), of t] show ?thesis
    by (intro exI [of _ "p0\<lparr>sem := sem p0 - Suc m, work := [t], workers := []\<rparr>"])
      (simp add: pending_def worker_take_def worker_done_def)
qed

theorem task_stranded_witness:
  "\<exists>(p0 :: nat GoPool) p. NewGoPool ''broadcast'' 16 = Ret p0 \<and> reachable (\<lambda>p. p = p0) pool_step p \<and>
     pending p = {#7#} \<and> workers p = []"
proof -
  obtain p0 :: "nat GoPool" where "NewGoPool ''broadcast'' 16 = Ret p0"
    using NewGoPool_Ret_iff [of "''broadcast''" 16] by auto
  with task_stranded [OF this, of 7] show ?thesis by blast
qed

end
