(* ===== verification/Hub.thy ===== *)
theory Hub
  imports Common Go_Pool
begin

text \<open>
  The hub of \<^verbatim>\<open>node/hub.go\<close>: the registry of sessions and the two indexes of their
  subscriptions, the channels it is driven by, and the tasks it hands to its pool. Here are its
  data and the operations that change the maps; sending to sessions is in theory \<open>Node\<close>, which
  has the sessions.

  A session pointer is a number (\<open>sref\<close>). The inner maps of \<^verbatim>\<open>identifiers\<close> are shared with the
  tasks that captured them, so each is stored with the number of its allocation: a task can tell
  whether the map installed under an identifier is still the one it captured. A map is dropped from
  \<^verbatim>\<open>identifiers\<close> only when it is empty and nothing writes to it afterwards, so a captured map
  that is not installed any more is empty.

  \<open>subscribed\<close> is the abstract view of the three-level index \<^verbatim>\<open>streams\<close> as a relation between
  streams, session ids and channel identifiers. Each operation on the index is shown to be the
  insertion or removal of triples in that relation, from the invariant \<open>indexed\<close>: every
  subscription can be found again from the session id through \<^verbatim>\<open>sessionsStreams\<close>.
\<close>

section \<open>State\<close>

type_synonym sref = nat

record HubSubscription =
  hs_event :: string
  hs_session :: string
  hs_stream :: string
  hs_identifier :: string

record HubRegistration =
  hr_event :: string
  hr_session :: sref

text \<open>A closure given to the pool, with the variables it captured.\<close>

datatype HubTask =
    BroadcastTask string string
  | DisconnectTask string nat DisconnectMessage

record Hub =
  sessions :: "(string, sref) gomap"
  identifiers :: "(string, nat \<times> (string, bool) gomap) gomap"
  streams :: "(string, (string, (string, bool) gomap) gomap) gomap"
  sessionsStreams :: "(string, (string, string list) gomap) gomap"
  broadcast_ch :: "StreamMessage list"
  disconnect_ch :: "RemoteDisconnectMessage list"
  register_ch :: "HubRegistration list"
  subscribe_ch :: "HubSubscription list"
  hub_running :: bool
  pool :: "HubTask GoPool"
  next_map :: nat

definition NewHub :: "int \<Rightarrow> Hub go" where
  "NewHub poolSize = gbind (NewGoPool ''broadcast'' poolSize) (\<lambda>p. Ret
     \<lparr>sessions = [], identifiers = [], streams = [], sessionsStreams = [],
      broadcast_ch = [], disconnect_ch = [], register_ch = [], subscribe_ch = [],
      hub_running = True, pool = p, next_map = 0\<rparr>)"

section \<open>Requests\<close>

definition AddSession :: "sref \<Rightarrow> Hub \<Rightarrow> Hub go" where
  "AddSession s h = gbind (chan_send 2048 \<lparr>hr_event = ''add'', hr_session = s\<rparr> (register_ch h))
     (\<lambda>ch. Ret (h\<lparr>register_ch := ch\<rparr>))"

definition RemoveSession :: "sref \<Rightarrow> Hub \<Rightarrow> Hub go" where
  "RemoveSession s h = gbind (chan_send 2048 \<lparr>hr_event = ''remove'', hr_session = s\<rparr> (register_ch h))
     (\<lambda>ch. Ret (h\<lparr>register_ch := ch\<rparr>))"

definition send_subscription :: "HubSubscription \<Rightarrow> Hub \<Rightarrow> Hub go" where
  "send_subscription r h = gbind (chan_send 128 r (subscribe_ch h))
     (\<lambda>ch. Ret (h\<lparr>subscribe_ch := ch\<rparr>))"

definition AddSubscription :: "string \<Rightarrow> string \<Rightarrow> string \<Rightarrow> Hub \<Rightarrow> Hub go" where
  "AddSubscription sid ident stream = send_subscription
     \<lparr>hs_event = ''add'', hs_session = sid, hs_stream = stream, hs_identifier = ident\<rparr>"

definition RemoveSubscription :: "string \<Rightarrow> string \<Rightarrow> string \<Rightarrow> Hub \<Rightarrow> Hub go" where
  "RemoveSubscription sid ident stream = send_subscription
     \<lparr>hs_event = ''remove'', hs_session = sid, hs_stream = stream, hs_identifier = ident\<rparr>"

definition RemoveAllSubscriptions :: "string \<Rightarrow> string \<Rightarrow> Hub \<Rightarrow> Hub go" where
  "RemoveAllSubscriptions sid ident = send_subscription
     \<lparr>hs_event = ''removeAll'', hs_session = sid, hs_stream = [], hs_identifier = ident\<rparr>"

definition BroadcastMessage :: "StreamMessage \<Rightarrow> Hub \<Rightarrow> Hub go" where
  "BroadcastMessage msg h = gbind (chan_send 256 msg (broadcast_ch h))
     (\<lambda>ch. Ret (h\<lparr>broadcast_ch := ch\<rparr>))"

definition Hub_Broadcast :: "string \<Rightarrow> string \<Rightarrow> Hub \<Rightarrow> Hub go" where
  "Hub_Broadcast stream data = BroadcastMessage \<lparr>sm_Stream = stream, sm_Data = data\<rparr>"

definition Hub_RemoteDisconnect :: "RemoteDisconnectMessage \<Rightarrow> Hub \<Rightarrow> Hub go" where
  "Hub_RemoteDisconnect msg h = gbind (chan_send 128 msg (disconnect_ch h))
     (\<lambda>ch. Ret (h\<lparr>disconnect_ch := ch\<rparr>))"

text \<open>
  \<^verbatim>\<open>Shutdown\<close> hands a value to the loop on an unbuffered channel, which the loop takes by
  returning; with no loop to take it, the send blocks.
\<close>

definition Hub_Shutdown :: "Hub \<Rightarrow> Hub go" where
  "Hub_Shutdown h = (if hub_running h then Ret (h\<lparr>hub_running := False\<rparr>) else Block)"

definition Size :: "Hub \<Rightarrow> nat" where
  "Size h = length (sessions h)"

definition UniqSize :: "Hub \<Rightarrow> nat" where
  "UniqSize h = length (identifiers h)"

definition StreamsSize :: "Hub \<Rightarrow> nat" where
  "StreamsSize h = length (streams h)"

section \<open>Registration\<close>

text \<open>
  \<^verbatim>\<open>h.identifiers[idents][uid] = true\<close>, after a new inner map was allocated as number \<open>a\<close> and
  installed where there was none.
\<close>

definition note_client ::
  "nat \<Rightarrow> string \<Rightarrow> string \<Rightarrow> (string, nat \<times> (string, bool) gomap) gomap
   \<Rightarrow> (string, nat \<times> (string, bool) gomap) gomap" where
  "note_client a uid idents m = (case map_of m idents of
     None \<Rightarrow> mput idents (a, mput uid True []) m
   | Some (b, ids) \<Rightarrow> mput idents (b, mput uid True ids) m)"

definition addSession :: "sref \<Rightarrow> string \<Rightarrow> string \<Rightarrow> Hub \<Rightarrow> Hub" where
  "addSession s uid idents h =
     h\<lparr>sessions := mput uid s (sessions h),
       identifiers := note_client (next_map h) uid idents (identifiers h),
       next_map := (if mhas (identifiers h) idents then next_map h else Suc (next_map h))\<rparr>"

text \<open>
  One stream of the loop in \<^verbatim>\<open>unsubscribeSessionFromChannel\<close>: the identifier is deleted from the
  session's entry, then an empty session entry from the stream's, then an empty stream's entry.
\<close>

definition drop_identifier ::
  "string \<Rightarrow> string \<Rightarrow> string \<Rightarrow> (string, (string, (string, bool) gomap) gomap) gomap
   \<Rightarrow> (string, (string, (string, bool) gomap) gomap) gomap" where
  "drop_identifier sid ident stream m0 =
     (let m = (case map_of m0 stream of
                 None \<Rightarrow> m0
               | Some ss \<Rightarrow> (case map_of ss sid of
                   None \<Rightarrow> m0
                 | Some ids \<Rightarrow> mput stream (mput sid (mdel ident ids) ss) m0));
          m = (if mfind (mfind m stream) sid = []
               then (case map_of m stream of None \<Rightarrow> m | Some ss \<Rightarrow> mput stream (mdel sid ss) m)
               else m)
      in if mfind m stream = [] then mdel stream m else m)"

definition unsubscribeSessionFromChannel :: "string \<Rightarrow> string \<Rightarrow> Hub \<Rightarrow> Hub" where
  "unsubscribeSessionFromChannel sid ident h =
     (if \<not> mhas (sessionsStreams h) sid then h
      else h\<lparr>streams := fold (drop_identifier sid ident)
                 (mfind (mfind (sessionsStreams h) sid) ident) (streams h)\<rparr>)"

definition unsubscribeSessionFromAllChannels :: "string \<Rightarrow> Hub \<Rightarrow> Hub" where
  "unsubscribeSessionFromAllChannels sid h0 =
     (let h = fold (unsubscribeSessionFromChannel sid) (mkeys (mfind (sessionsStreams h0) sid)) h0
      in h\<lparr>sessionsStreams := mdel sid (sessionsStreams h)\<rparr>)"

text \<open>
  \<^verbatim>\<open>delete(h.identifiers[idents], uid)\<close>, and the inner map itself when that leaves it empty.
\<close>

definition forget_client ::
  "string \<Rightarrow> string \<Rightarrow> (string, nat \<times> (string, bool) gomap) gomap
   \<Rightarrow> (string, nat \<times> (string, bool) gomap) gomap" where
  "forget_client uid idents m = (case map_of m idents of
     None \<Rightarrow> m
   | Some (a, ids) \<Rightarrow>
       if mdel uid ids = [] then mdel idents m else mput idents (a, mdel uid ids) m)"

definition removeSession :: "string \<Rightarrow> string \<Rightarrow> Hub \<Rightarrow> Hub" where
  "removeSession uid idents h0 =
     (if \<not> mhas (sessions h0) uid then h0
      else
       (let h = unsubscribeSessionFromAllChannels uid h0
        in h\<lparr>sessions := mdel uid (sessions h),
             identifiers := forget_client uid idents (identifiers h)\<rparr>))"

section \<open>Subscriptions\<close>

definition subscribeSession :: "string \<Rightarrow> string \<Rightarrow> string \<Rightarrow> Hub \<Rightarrow> Hub" where
  "subscribeSession sid stream ident h0 =
     (let ss = mfind (streams h0) stream;
          ids = mfind ss sid;
          h = h0\<lparr>streams := mput stream (mput sid (mput ident True ids) ss) (streams h0)\<rparr>;
          chans = mfind (sessionsStreams h) sid
      in h\<lparr>sessionsStreams :=
             mput sid (mput ident (mfind chans ident @ [stream]) chans) (sessionsStreams h)\<rparr>)"

definition unsubscribeSession :: "string \<Rightarrow> string \<Rightarrow> string \<Rightarrow> Hub \<Rightarrow> Hub" where
  "unsubscribeSession sid stream ident h = (case map_of (streams h) stream of
     None \<Rightarrow> h
   | Some ss \<Rightarrow> (case map_of ss sid of
       None \<Rightarrow> h
     | Some ids \<Rightarrow>
         if \<not> mhas ids ident then h
         else h\<lparr>streams := mput stream (mput sid (mdel ident ids) ss) (streams h)\<rparr>))"

text \<open>A session registered under an identifier: the first entry of the map that is registered.\<close>

fun first_registered :: "(string, sref) gomap \<Rightarrow> string list \<Rightarrow> sref option" where
  "first_registered ses [] = None"
| "first_registered ses (uid # uids) =
     (case map_of ses uid of Some s \<Rightarrow> Some s | None \<Rightarrow> first_registered ses uids)"

definition findByIdentifier :: "string \<Rightarrow> Hub \<Rightarrow> sref option" where
  "findByIdentifier ident h = (case map_of (identifiers h) ident of
     None \<Rightarrow> None
   | Some (_, ids) \<Rightarrow> first_registered (sessions h) (mkeys ids))"

section \<open>The loop\<close>

definition remoteDisconnectReason :: string where
  "remoteDisconnectReason = ''remote''"

definition newDisconnectMessage :: "string \<Rightarrow> bool \<Rightarrow> DisconnectMessage" where
  "newDisconnectMessage reason reconnect =
     \<lparr>dm_Type = ''disconnect'', dm_Reason = reason, dm_Reconnect = reconnect\<rparr>"

text \<open>
  The numbers given to \<open>broadcastToStream\<close> and \<open>disconnectSessions\<close> are the choice of the pool's
  \<^verbatim>\<open>select\<close>.
\<close>

definition broadcastToStream :: "nat \<Rightarrow> string \<Rightarrow> string \<Rightarrow> Hub \<Rightarrow> Hub go" where
  "broadcastToStream c stream data h =
     (if \<not> mhas (streams h) stream then Ret h
      else gbind (Schedule c (BroadcastTask stream data) (pool h)) (\<lambda>p. Ret (h\<lparr>pool := p\<rparr>)))"

definition disconnectSessions :: "nat \<Rightarrow> string \<Rightarrow> bool \<Rightarrow> Hub \<Rightarrow> Hub go" where
  "disconnectSessions c ident reconnect h = (case map_of (identifiers h) ident of
     None \<Rightarrow> Ret h
   | Some (a, _) \<Rightarrow>
       gbind (Schedule c (DisconnectTask ident a (newDisconnectMessage remoteDisconnectReason reconnect))
           (pool h)) (\<lambda>p. Ret (h\<lparr>pool := p\<rparr>)))"

text \<open>\<open>info\<close> reads the \<^verbatim>\<open>UID\<close> and \<^verbatim>\<open>Identifiers\<close> of a session.\<close>

definition on_register :: "(sref \<Rightarrow> string \<times> string) \<Rightarrow> HubRegistration \<Rightarrow> Hub \<Rightarrow> Hub" where
  "on_register info r h = (case info (hr_session r) of (uid, idents) \<Rightarrow>
     if hr_event r = ''add'' then addSession (hr_session r) uid idents h
     else removeSession uid idents h)"

definition on_subscribe :: "HubSubscription \<Rightarrow> Hub \<Rightarrow> Hub" where
  "on_subscribe r h =
     (if hs_event r = ''add'' then subscribeSession (hs_session r) (hs_stream r) (hs_identifier r) h
      else if hs_event r = ''removeAll''
      then unsubscribeSessionFromChannel (hs_session r) (hs_identifier r) h
      else unsubscribeSession (hs_session r) (hs_stream r) (hs_identifier r) h)"

datatype HubCase =
    OnRegister HubRegistration | OnSubscribe HubSubscription
  | OnBroadcast StreamMessage | OnDisconnect RemoteDisconnectMessage

definition hub_ready :: "Hub \<Rightarrow> HubCase list" where
  "hub_ready h = map OnRegister (take 1 (register_ch h)) @ map OnSubscribe (take 1 (subscribe_ch h)) @
     map OnBroadcast (take 1 (broadcast_ch h)) @ map OnDisconnect (take 1 (disconnect_ch h))"

text \<open>
  One turn of \<^verbatim>\<open>Run\<close>: \<open>c\<close> is the choice of its \<^verbatim>\<open>select\<close>, \<open>c'\<close> that of the pool. The shutdown
  case is part of \<open>Hub_Shutdown\<close>, whose send meets it.
\<close>

definition hub_turn :: "(sref \<Rightarrow> string \<times> string) \<Rightarrow> nat \<Rightarrow> nat \<Rightarrow> Hub \<Rightarrow> Hub go" where
  "hub_turn info c c' h =
     (if \<not> hub_running h then Block
      else gbind (select c (hub_ready h)) (\<lambda>k. case k of
          OnRegister r \<Rightarrow> Ret (on_register info r (h\<lparr>register_ch := tl (register_ch h)\<rparr>))
        | OnSubscribe r \<Rightarrow> Ret (on_subscribe r (h\<lparr>subscribe_ch := tl (subscribe_ch h)\<rparr>))
        | OnBroadcast m \<Rightarrow>
            broadcastToStream c' (sm_Stream m) (sm_Data m) (h\<lparr>broadcast_ch := tl (broadcast_ch h)\<rparr>)
        | OnDisconnect m \<Rightarrow>
            disconnectSessions c' (rd_Identifier m) (rd_Reconnect m)
              (h\<lparr>disconnect_ch := tl (disconnect_ch h)\<rparr>)))"

section \<open>The subscription relation\<close>

definition subscribed :: "Hub \<Rightarrow> string \<Rightarrow> string \<Rightarrow> string \<Rightarrow> bool" where
  "subscribed h stream sid ident \<longleftrightarrow> mhas (mfind (mfind (streams h) stream) sid) ident"

definition subs :: "Hub \<Rightarrow> (string \<times> string \<times> string) set" where
  "subs h = {(stream, sid, ident). subscribed h stream sid ident}"

text \<open>Every subscription is listed under its session and channel identifier.\<close>

definition indexed :: "Hub \<Rightarrow> bool" where
  "indexed h \<longleftrightarrow> (\<forall>stream sid ident. subscribed h stream sid ident \<longrightarrow>
     stream \<in> set (mfind (mfind (sessionsStreams h) sid) ident))"

text \<open>The session ids registered under a connection identifier.\<close>

definition clients_of :: "(string, nat \<times> (string, bool) gomap) gomap \<Rightarrow> string \<Rightarrow> string set" where
  "clients_of m i = (case map_of m i of None \<Rightarrow> {} | Some (_, ids) \<Rightarrow> {uid. mhas ids uid})"

definition clients :: "Hub \<Rightarrow> string \<Rightarrow> string set" where
  "clients h = clients_of (identifiers h)"

text \<open>Every map of the hub has distinct keys, and no identifier is kept with no session.\<close>

definition stream_maps :: "(string, (string, (string, bool) gomap) gomap) gomap \<Rightarrow> bool" where
  "stream_maps m \<longleftrightarrow> gomap m \<and> (\<forall>st. gomap (mfind m st)) \<and>
     (\<forall>st sid. gomap (mfind (mfind m st) sid))"

definition identifier_maps :: "(string, nat \<times> (string, bool) gomap) gomap \<Rightarrow> bool" where
  "identifier_maps m \<longleftrightarrow> gomap m \<and>
     (\<forall>i a ids. map_of m i = Some (a, ids) \<longrightarrow> gomap ids \<and> ids \<noteq> [])"

definition hub_maps :: "Hub \<Rightarrow> bool" where
  "hub_maps h \<longleftrightarrow> gomap (sessions h) \<and> identifier_maps (identifiers h) \<and> stream_maps (streams h) \<and>
     gomap (sessionsStreams h) \<and> (\<forall>sid. gomap (mfind (sessionsStreams h) sid))"

text \<open>Every registered session is found under some connection identifier.\<close>

definition covered :: "Hub \<Rightarrow> bool" where
  "covered h \<longleftrightarrow> (\<forall>uid. mhas (sessions h) uid \<longrightarrow> (\<exists>i. uid \<in> clients h i))"

definition hub_inv :: "Hub \<Rightarrow> bool" where
  "hub_inv h \<longleftrightarrow> hub_maps h \<and> indexed h \<and> covered h"

section \<open>Each operation on the relation\<close>

text \<open>
  The three steps of \<open>drop_identifier\<close>: the first removes one triple, the others only empty maps.
\<close>

lemma delete_triple_has:
  "mhas (mfind (mfind (case map_of m st of
       None \<Rightarrow> m
     | Some ss \<Rightarrow> (case map_of ss sid of
         None \<Rightarrow> m
       | Some ids \<Rightarrow> mput st (mput sid (mdel ident ids) ss) m)) st') sid') ident' \<longleftrightarrow>
   mhas (mfind (mfind m st') sid') ident' \<and> \<not> (st' = st \<and> sid' = sid \<and> ident' = ident)"
  by (auto simp: gomap_simps split: option.split)

lemma delete_empty_session_find:
  assumes "mfind (mfind m st) sid = []"
  shows "mfind (mfind (case map_of m st of None \<Rightarrow> m | Some ss \<Rightarrow> mput st (mdel sid ss) m) st') sid' =
    mfind (mfind m st') sid'"
  using assms by (auto simp: gomap_simps split: option.split)

lemma delete_empty_stream_find:
  assumes "mfind m st = []"
  shows "mfind (mdel st m) st' = mfind m st'"
  using assms by (simp add: gomap_simps)

lemma drop_identifier_has:
  "mhas (mfind (mfind (drop_identifier sid ident st m) st') sid') ident' \<longleftrightarrow>
   mhas (mfind (mfind m st') sid') ident' \<and> \<not> (st' = st \<and> sid' = sid \<and> ident' = ident)"
  unfolding drop_identifier_def Let_def
  by (simp only: if_distrib [where f = "\<lambda>m. mfind m st'"] if_distrib [where f = "\<lambda>m. mfind m sid'"]
      delete_empty_stream_find delete_empty_session_find delete_triple_has if_cancel split: if_split)
    (simp add: delete_empty_stream_find delete_empty_session_find delete_triple_has)

lemma fold_drop_identifier_has:
  "mhas (mfind (mfind (fold (drop_identifier sid ident) sts m) st') sid') ident' \<longleftrightarrow>
   mhas (mfind (mfind m st') sid') ident' \<and> \<not> (st' \<in> set sts \<and> sid' = sid \<and> ident' = ident)"
  by (induction sts arbitrary: m) (auto simp: drop_identifier_has)

lemma subscribed_subscribeSession:
  "subscribed (subscribeSession sid st ident h) st' sid' ident' \<longleftrightarrow>
   (st' = st \<and> sid' = sid \<and> ident' = ident) \<or> subscribed h st' sid' ident'"
  by (auto simp: subscribed_def subscribeSession_def Let_def gomap_simps)

lemma subscribed_unsubscribeSession:
  "subscribed (unsubscribeSession sid st ident h) st' sid' ident' \<longleftrightarrow>
   subscribed h st' sid' ident' \<and> \<not> (st' = st \<and> sid' = sid \<and> ident' = ident)"
proof (cases "mhas (mfind (mfind (streams h) st) sid) ident")
  case True
  then obtain ss ids where "map_of (streams h) st = Some ss" and "map_of ss sid = Some ids"
    and "mhas ids ident"
    by (auto simp: mfind_def split: option.splits)
  then show ?thesis
    by (auto simp: subscribed_def unsubscribeSession_def gomap_simps)
next
  case False
  then have "unsubscribeSession sid st ident h = h"
    by (auto simp: unsubscribeSession_def mfind_def split: option.splits)
  with False show ?thesis by (auto simp: subscribed_def)
qed

lemma subscribed_unsubscribeSessionFromChannel:
  assumes "indexed h"
  shows "subscribed (unsubscribeSessionFromChannel sid ident h) st' sid' ident' \<longleftrightarrow>
    subscribed h st' sid' ident' \<and> \<not> (sid' = sid \<and> ident' = ident)"
proof (cases "mhas (sessionsStreams h) sid")
  case True
  with assms show ?thesis
    by (auto simp: unsubscribeSessionFromChannel_def subscribed_def indexed_def
        fold_drop_identifier_has)
next
  case False
  then have "\<not> subscribed h st' sid ident"
    using assms by (force simp: indexed_def mfind_not_mhas)
  with False show ?thesis
    by (auto simp: unsubscribeSessionFromChannel_def)
qed

lemma unsubscribeSessionFromChannel_frame [simp]:
  "sessionsStreams (unsubscribeSessionFromChannel sid ident h) = sessionsStreams h"
  "sessions (unsubscribeSessionFromChannel sid ident h) = sessions h"
  "identifiers (unsubscribeSessionFromChannel sid ident h) = identifiers h"
  by (simp_all add: unsubscribeSessionFromChannel_def)

lemma indexed_unsubscribeSessionFromChannel:
  "indexed h \<Longrightarrow> indexed (unsubscribeSessionFromChannel sid ident h)"
  using subscribed_unsubscribeSessionFromChannel by (simp add: indexed_def)

lemma fold_unsubscribeSessionFromChannel_frame [simp]:
  "sessionsStreams (fold (unsubscribeSessionFromChannel sid) chans h) = sessionsStreams h"
  "sessions (fold (unsubscribeSessionFromChannel sid) chans h) = sessions h"
  "identifiers (fold (unsubscribeSessionFromChannel sid) chans h) = identifiers h"
  by (induction chans arbitrary: h) simp_all

lemma fold_unsubscribeSessionFromChannel:
  assumes "indexed h"
  shows "subscribed (fold (unsubscribeSessionFromChannel sid) chans h) st' sid' ident' \<longleftrightarrow>
      subscribed h st' sid' ident' \<and> \<not> (sid' = sid \<and> ident' \<in> set chans)"
  using assms
  by (induction chans arbitrary: h)
    (auto simp: subscribed_unsubscribeSessionFromChannel indexed_unsubscribeSessionFromChannel)

lemma indexed_channel_key:
  assumes "indexed h" and "subscribed h st sid ident"
  shows "ident \<in> set (mkeys (mfind (sessionsStreams h) sid))"
proof -
  have "mfind (mfind (sessionsStreams h) sid) ident \<noteq> []"
    using assms by (fastforce simp: indexed_def)
  then have "mhas (mfind (sessionsStreams h) sid) ident"
    by (auto simp: mfind_def mhas_def split: option.splits)
  then show ?thesis by (simp add: mhas_iff_key)
qed

lemma subscribed_unsubscribeSessionFromAllChannels:
  assumes "indexed h"
  shows "subscribed (unsubscribeSessionFromAllChannels sid h) st' sid' ident' \<longleftrightarrow>
    subscribed h st' sid' ident' \<and> sid' \<noteq> sid"
proof -
  let ?h = "fold (unsubscribeSessionFromChannel sid) (mkeys (mfind (sessionsStreams h) sid)) h"
  have "subscribed (unsubscribeSessionFromAllChannels sid h) st' sid' ident' \<longleftrightarrow>
      subscribed ?h st' sid' ident'"
    by (simp add: unsubscribeSessionFromAllChannels_def subscribed_def Let_def)
  also have "\<dots> \<longleftrightarrow> subscribed h st' sid' ident' \<and> sid' \<noteq> sid"
    using indexed_channel_key [OF assms] fold_unsubscribeSessionFromChannel [OF assms]
    by blast
  finally show ?thesis .
qed

lemma unsubscribeSessionFromAllChannels_frame [simp]:
  "sessions (unsubscribeSessionFromAllChannels sid h) = sessions h"
  "identifiers (unsubscribeSessionFromAllChannels sid h) = identifiers h"
  "sessionsStreams (unsubscribeSessionFromAllChannels sid h) = mdel sid (sessionsStreams h)"
  by (simp_all add: unsubscribeSessionFromAllChannels_def Let_def)

lemma subscribed_removeSession:
  assumes "indexed h"
  shows "subscribed (removeSession uid idents h) st sid ident \<longleftrightarrow>
    subscribed h st sid ident \<and> (mhas (sessions h) uid \<longrightarrow> sid \<noteq> uid)"
  using subscribed_unsubscribeSessionFromAllChannels [OF assms, of uid]
  by (simp add: removeSession_def Let_def subscribed_def)

lemma subscribed_addSession [simp]:
  "subscribed (addSession s uid idents h) = subscribed h"
  by (simp add: addSession_def subscribed_def fun_eq_iff)

section \<open>Each operation on the registry\<close>

lemma sessions_addSession [simp]:
  "sessions (addSession s uid idents h) = mput uid s (sessions h)"
  by (simp add: addSession_def)

lemma sessions_removeSession:
  "sessions (removeSession uid idents h) =
    (if mhas (sessions h) uid then mdel uid (sessions h) else sessions h)"
  by (simp add: removeSession_def Let_def)

lemma clients_of_note_client:
  "clients_of (note_client a uid idents m) i =
    (if i = idents then insert uid (clients_of m i) else clients_of m i)"
  by (cases "map_of m idents") (auto simp: clients_of_def note_client_def gomap_simps)

lemma clients_of_forget_client:
  "clients_of (forget_client uid idents m) i =
    (if i = idents then clients_of m i - {uid} else clients_of m i)"
proof (cases "map_of m idents")
  case None
  then show ?thesis by (simp add: clients_of_def forget_client_def)
next
  case (Some p)
  then show ?thesis
    by (cases p; cases "mdel uid (snd p) = []")
      (auto simp: clients_of_def forget_client_def gomap_simps dest: mhas_mdel_empty)
qed

lemma clients_addSession:
  "clients (addSession s uid idents h) i = (if i = idents then insert uid (clients h i) else clients h i)"
  by (simp add: clients_def addSession_def clients_of_note_client)

lemma clients_removeSession:
  "clients (removeSession uid idents h) i =
    (if mhas (sessions h) uid \<and> i = idents then clients h i - {uid} else clients h i)"
  by (simp add: clients_def removeSession_def Let_def clients_of_forget_client)

section \<open>The invariant\<close>

lemma stream_maps_mput:
  "stream_maps m \<Longrightarrow> gomap ss \<Longrightarrow> (\<And>sid. gomap (mfind ss sid)) \<Longrightarrow> stream_maps (mput st ss m)"
  by (simp add: stream_maps_def gomap_simps)

lemma stream_maps_mdel: "stream_maps m \<Longrightarrow> stream_maps (mdel st m)"
  by (simp add: stream_maps_def gomap_simps)

lemma stream_mapsD:
  assumes "stream_maps m" and "map_of m st = Some ss"
  shows "gomap ss" and "map_of ss sid = Some ids \<Longrightarrow> gomap ids" and "gomap (mfind ss sid)"
  using assms by (metis stream_maps_def mfind_simps(2))+

lemma stream_maps_delete_triple:
  assumes "stream_maps m"
  shows "stream_maps (case map_of m st of None \<Rightarrow> m | Some ss \<Rightarrow> (case map_of ss sid of
      None \<Rightarrow> m | Some ids \<Rightarrow> mput st (mput sid (mdel ident ids) ss) m))"
proof -
  have "stream_maps (mput st (mput sid (mdel ident ids) ss) m)"
    if "map_of m st = Some ss" and "map_of ss sid = Some ids" for ss ids
    using assms stream_mapsD [OF assms that(1)] that(2)
    by (intro stream_maps_mput) (simp_all add: gomap_simps)
  with assms show ?thesis by (auto split: option.split)
qed

lemma stream_maps_delete_session:
  assumes "stream_maps m"
  shows "stream_maps (case map_of m st of None \<Rightarrow> m | Some ss \<Rightarrow> mput st (mdel sid ss) m)"
proof -
  have "stream_maps (mput st (mdel sid ss) m)" if "map_of m st = Some ss" for ss
    using assms stream_mapsD [OF assms that]
    by (intro stream_maps_mput) (simp_all add: gomap_simps)
  with assms show ?thesis by (auto split: option.split)
qed

lemma stream_maps_drop_identifier:
  "stream_maps m \<Longrightarrow> stream_maps (drop_identifier sid ident st m)"
  unfolding drop_identifier_def Let_def
  by (simp only: stream_maps_mdel stream_maps_delete_triple stream_maps_delete_session
      if_split simp_thms)

lemma stream_maps_fold_drop:
  "stream_maps m \<Longrightarrow> stream_maps (fold (drop_identifier sid ident) sts m)"
  by (induction sts arbitrary: m) (auto intro: stream_maps_drop_identifier)

lemma hub_maps_unsubscribeSessionFromChannel:
  "hub_maps h \<Longrightarrow> hub_maps (unsubscribeSessionFromChannel sid ident h)"
  by (simp add: hub_maps_def unsubscribeSessionFromChannel_def stream_maps_fold_drop)

lemma hub_maps_unsubscribeSessionFromAllChannels:
  assumes "hub_maps h"
  shows "hub_maps (unsubscribeSessionFromAllChannels sid h)"
proof -
  have "hub_maps (fold (unsubscribeSessionFromChannel sid) chans h)" for chans
    using assms
    by (induction chans arbitrary: h) (auto intro: hub_maps_unsubscribeSessionFromChannel)
  then show ?thesis
    by (simp add: unsubscribeSessionFromAllChannels_def Let_def hub_maps_def gomap_simps)
qed

lemma identifier_maps_mput:
  "identifier_maps m \<Longrightarrow> gomap ids \<Longrightarrow> ids \<noteq> [] \<Longrightarrow> identifier_maps (mput i (a, ids) m)"
  by (auto simp: identifier_maps_def gomap_simps)

lemma identifier_maps_mdel: "identifier_maps m \<Longrightarrow> identifier_maps (mdel i m)"
  by (auto simp: identifier_maps_def gomap_simps)

lemma identifier_maps_note_client:
  assumes "identifier_maps m"
  shows "identifier_maps (note_client a uid idents m)"
proof (cases "map_of m idents")
  case None
  with assms show ?thesis by (simp add: note_client_def identifier_maps_mput)
next
  case (Some p)
  with assms have "gomap (snd p)" by (cases p) (auto simp: identifier_maps_def)
  with assms Some show ?thesis
    by (auto simp: note_client_def intro!: identifier_maps_mput split: prod.split)
qed

lemma identifier_maps_forget_client:
  assumes "identifier_maps m"
  shows "identifier_maps (forget_client uid idents m)"
proof (cases "map_of m idents")
  case None
  with assms show ?thesis by (simp add: forget_client_def)
next
  case (Some p)
  with assms have "gomap (snd p)" by (cases p) (auto simp: identifier_maps_def)
  with assms Some show ?thesis
    by (auto simp: forget_client_def intro!: identifier_maps_mput identifier_maps_mdel split: prod.split)
qed

lemma hub_maps_addSession: "hub_maps h \<Longrightarrow> hub_maps (addSession s uid idents h)"
  by (simp add: hub_maps_def addSession_def identifier_maps_note_client)

lemma hub_maps_removeSession: "hub_maps h \<Longrightarrow> hub_maps (removeSession uid idents h)"
  using hub_maps_unsubscribeSessionFromAllChannels [of h uid]
  by (simp add: hub_maps_def removeSession_def Let_def identifier_maps_forget_client)

lemma hub_maps_subscribeSession:
  assumes "hub_maps h"
  shows "hub_maps (subscribeSession sid st ident h)"
proof -
  let ?ss = "mfind (streams h) st"
  have "stream_maps (mput st (mput sid (mput ident True (mfind ?ss sid)) ?ss) (streams h))"
    using assms by (intro stream_maps_mput) (auto simp: hub_maps_def stream_maps_def gomap_simps)
  with assms show ?thesis
    by (simp add: hub_maps_def subscribeSession_def Let_def gomap_simps)
qed

lemma hub_maps_unsubscribeSession:
  assumes "hub_maps h"
  shows "hub_maps (unsubscribeSession sid st ident h)"
  using assms stream_maps_delete_triple [of "streams h" st sid ident]
  by (auto simp: hub_maps_def unsubscribeSession_def split: option.splits)

lemma indexed_subscribeSession:
  "indexed h \<Longrightarrow> indexed (subscribeSession sid st ident h)"
  by (auto simp: indexed_def subscribed_subscribeSession)
    (auto simp: subscribeSession_def Let_def gomap_simps)

lemma indexed_unsubscribeSession:
  assumes "indexed h"
  shows "indexed (unsubscribeSession sid st ident h)"
proof -
  have "sessionsStreams (unsubscribeSession sid st ident h) = sessionsStreams h"
    by (simp add: unsubscribeSession_def split: option.split)
  with assms show ?thesis
    by (simp add: indexed_def subscribed_unsubscribeSession)
qed

lemma indexed_removeSession:
  assumes "indexed h"
  shows "indexed (removeSession uid idents h)"
proof -
  have "sessionsStreams (removeSession uid idents h) =
      (if mhas (sessions h) uid then mdel uid (sessionsStreams h) else sessionsStreams h)"
    by (simp add: removeSession_def Let_def)
  with assms show ?thesis
    by (simp add: indexed_def subscribed_removeSession gomap_simps)
qed

lemma subscription_frame [simp]:
  "sessions (subscribeSession sid st ident h) = sessions h"
  "identifiers (subscribeSession sid st ident h) = identifiers h"
  "sessions (unsubscribeSession sid st ident h) = sessions h"
  "identifiers (unsubscribeSession sid st ident h) = identifiers h"
  by (simp_all add: subscribeSession_def Let_def unsubscribeSession_def split: option.split)

lemma indexed_addSession: "indexed h \<Longrightarrow> indexed (addSession s uid idents h)"
  by (simp add: indexed_def) (simp add: addSession_def)

lemma covered_frame:
  "covered h \<Longrightarrow> sessions h' = sessions h \<Longrightarrow> identifiers h' = identifiers h \<Longrightarrow> covered h'"
  by (simp add: covered_def clients_def)

lemma covered_addSession:
  assumes "covered h"
  shows "covered (addSession s uid idents h)"
  unfolding covered_def
proof (intro allI impI)
  fix u
  assume "mhas (sessions (addSession s uid idents h)) u"
  then have "u = uid \<or> mhas (sessions h) u" by (simp add: gomap_simps)
  with assms obtain i where "u = uid \<or> u \<in> clients h i" by (auto simp: covered_def)
  then show "\<exists>i. u \<in> clients (addSession s uid idents h) i"
    by (cases "u = uid") (auto simp: clients_addSession)
qed

lemma covered_removeSession:
  assumes "covered h"
  shows "covered (removeSession uid idents h)"
  unfolding covered_def
proof (intro allI impI)
  fix u
  assume "mhas (sessions (removeSession uid idents h)) u"
  then have "mhas (sessions h) u" and "mhas (sessions h) uid \<Longrightarrow> u \<noteq> uid"
    by (auto simp: sessions_removeSession gomap_simps split: if_splits)
  with assms obtain i where "u \<in> clients h i" by (auto simp: covered_def)
  with \<open>mhas (sessions h) uid \<Longrightarrow> u \<noteq> uid\<close> have "u \<in> clients (removeSession uid idents h) i"
    by (auto simp: clients_removeSession)
  then show "\<exists>i. u \<in> clients (removeSession uid idents h) i" ..
qed

section \<open>The abstract hub\<close>

text \<open>
  What the hub promises: which session is registered under a session id, which session ids belong
  to a connection identifier, and which triples are subscribed.
\<close>

record AbsHub =
  a_sessions :: "string \<rightharpoonup> sref"
  a_clients :: "string \<Rightarrow> string set"
  a_subs :: "(string \<times> string \<times> string) set"

definition abs_hub :: "Hub \<Rightarrow> AbsHub" where
  "abs_hub h = \<lparr>a_sessions = map_of (sessions h), a_clients = clients h, a_subs = subs h\<rparr>"

datatype HubOp =
    OpAdd sref string string
  | OpRemove string string
  | OpSubscribe string string string
  | OpUnsubscribe string string string
  | OpUnsubscribeChannel string string

fun hub_op :: "HubOp \<Rightarrow> Hub \<Rightarrow> Hub" where
  "hub_op (OpAdd s uid idents) h = addSession s uid idents h"
| "hub_op (OpRemove uid idents) h = removeSession uid idents h"
| "hub_op (OpSubscribe sid st ident) h = subscribeSession sid st ident h"
| "hub_op (OpUnsubscribe sid st ident) h = unsubscribeSession sid st ident h"
| "hub_op (OpUnsubscribeChannel sid ident) h = unsubscribeSessionFromChannel sid ident h"

fun abs_op :: "HubOp \<Rightarrow> AbsHub \<Rightarrow> AbsHub" where
  "abs_op (OpAdd s uid idents) a =
     a\<lparr>a_sessions := (a_sessions a)(uid \<mapsto> s),
       a_clients := (a_clients a)(idents := insert uid (a_clients a idents))\<rparr>"
| "abs_op (OpRemove uid idents) a =
     (if a_sessions a uid = None then a
      else a\<lparr>a_sessions := (a_sessions a)(uid := None),
             a_clients := (a_clients a)(idents := a_clients a idents - {uid}),
             a_subs := {(st, sid, ident) \<in> a_subs a. sid \<noteq> uid}\<rparr>)"
| "abs_op (OpSubscribe sid st ident) a = a\<lparr>a_subs := insert (st, sid, ident) (a_subs a)\<rparr>"
| "abs_op (OpUnsubscribe sid st ident) a = a\<lparr>a_subs := a_subs a - {(st, sid, ident)}\<rparr>"
| "abs_op (OpUnsubscribeChannel sid ident) a =
     a\<lparr>a_subs := {(st, sid', ident') \<in> a_subs a. \<not> (sid' = sid \<and> ident' = ident)}\<rparr>"

lemma hub_inv_NewHub: "NewHub n = Ret h \<Longrightarrow> hub_inv h"
  by (auto simp: hub_inv_def hub_maps_def identifier_maps_def stream_maps_def indexed_def covered_def
      subscribed_def NewHub_def mhas_def mfind_def go_simps)

lemmas hub_maps_intros =
  hub_maps_addSession hub_maps_removeSession hub_maps_subscribeSession
  hub_maps_unsubscribeSession hub_maps_unsubscribeSessionFromChannel

lemmas indexed_intros =
  indexed_addSession indexed_removeSession indexed_subscribeSession
  indexed_unsubscribeSession indexed_unsubscribeSessionFromChannel

lemma covered_hub_op: "covered h \<Longrightarrow> covered (hub_op op h)"
  by (cases op)
    (simp_all add: covered_addSession covered_removeSession covered_frame [of h])

lemma hub_inv_hub_op:
  assumes "hub_inv h"
  shows "hub_inv (hub_op op h)"
proof -
  from assms have "hub_maps h" "indexed h" "covered h" by (simp_all add: hub_inv_def)
  moreover from \<open>hub_maps h\<close> have "hub_maps (hub_op op h)"
    by (cases op) (simp_all add: hub_maps_intros)
  moreover from \<open>indexed h\<close> have "indexed (hub_op op h)"
    by (cases op) (simp_all add: indexed_intros)
  ultimately show ?thesis by (simp add: hub_inv_def covered_hub_op)
qed

lemma abs_hub_op:
  assumes "hub_inv h"
  shows "abs_hub (hub_op op h) = abs_op op (abs_hub h)"
proof -
  from assms have ix: "indexed h" by (simp add: hub_inv_def)
  show ?thesis
  proof (cases op)
    case (OpAdd s uid idents)
    then show ?thesis
      by (simp add: abs_hub_def subs_def clients_addSession fun_eq_iff update_conv')
  next
    case (OpRemove uid idents)
    then show ?thesis
      by (auto simp: abs_hub_def subs_def clients_removeSession sessions_removeSession fun_eq_iff
          subscribed_removeSession [OF ix] delete_conv' mhas_def)
  next
    case (OpSubscribe sid st ident)
    then show ?thesis
      by (auto simp: abs_hub_def subs_def clients_def subscribed_subscribeSession)
  next
    case (OpUnsubscribe sid st ident)
    then show ?thesis
      by (auto simp: abs_hub_def subs_def clients_def subscribed_unsubscribeSession)
  next
    case (OpUnsubscribeChannel sid ident)
    then show ?thesis
      by (auto simp: abs_hub_def subs_def clients_def subscribed_unsubscribeSessionFromChannel [OF ix])
  qed
qed

lemma hub_ops_refine:
  "hub_inv h \<Longrightarrow> hub_inv (fold hub_op ops h) \<and>
    abs_hub (fold hub_op ops h) = fold abs_op ops (abs_hub h)"
  by (induction ops arbitrary: h) (auto simp: hub_inv_hub_op abs_hub_op)

section \<open>Runs of the hub\<close>

text \<open>
  Everything that happens to a hub: the calls its clients make directly (\<^verbatim>\<open>addSession\<close> and
  \<^verbatim>\<open>subscribeSession\<close>), the requests they send, the turns of the loop and the moves of the pool's
  workers. The sessions' fields may change between turns.
\<close>

inductive hub_step :: "Hub \<Rightarrow> Hub \<Rightarrow> bool" where
  direct_add: "hub_step h (addSession s uid idents h)"
| direct_subscribe: "hub_step h (subscribeSession sid stream ident h)"
| request_register: "AddSession s h = Ret h' \<or> RemoveSession s h = Ret h' \<Longrightarrow> hub_step h h'"
| request_subscription: "send_subscription r h = Ret h' \<Longrightarrow> hub_step h h'"
| request_broadcast: "BroadcastMessage m h = Ret h' \<Longrightarrow> hub_step h h'"
| request_disconnect: "Hub_RemoteDisconnect d h = Ret h' \<Longrightarrow> hub_step h h'"
| turn: "hub_turn info c c' h = Ret h' \<Longrightarrow> hub_step h h'"
| stop: "Hub_Shutdown h = Ret h' \<Longrightarrow> hub_step h h'"
| worker: "worker_take i (pool h) = Ret p \<or> worker_done i (pool h) = Ret p \<Longrightarrow>
    hub_step h (h\<lparr>pool := p\<rparr>)"

definition hub_created :: "Hub \<Rightarrow> bool" where
  "hub_created h \<longleftrightarrow> (\<exists>n. NewHub n = Ret h)"

definition channels_ok :: "Hub \<Rightarrow> bool" where
  "channels_ok h \<longleftrightarrow> length (register_ch h) \<le> 2048 \<and> length (subscribe_ch h) \<le> 128 \<and>
     length (broadcast_ch h) \<le> 256 \<and> length (disconnect_ch h) \<le> 128"

definition hub_ok :: "Hub \<Rightarrow> bool" where
  "hub_ok h \<longleftrightarrow> hub_inv h \<and> channels_ok h \<and> pool_inv (pool h)"

text \<open>The invariant of the maps does not depend on the channels or the pool.\<close>

lemma hub_inv_channels [simp]:
  "hub_inv (h\<lparr>register_ch := a\<rparr>) = hub_inv h"
  "hub_inv (h\<lparr>subscribe_ch := b\<rparr>) = hub_inv h"
  "hub_inv (h\<lparr>broadcast_ch := d\<rparr>) = hub_inv h"
  "hub_inv (h\<lparr>disconnect_ch := e\<rparr>) = hub_inv h"
  "hub_inv (h\<lparr>pool := p\<rparr>) = hub_inv h"
  "hub_inv (h\<lparr>hub_running := r\<rparr>) = hub_inv h"
  by (simp_all add: hub_inv_def hub_maps_def indexed_def subscribed_def covered_def clients_def)

lemma abs_hub_channels [simp]:
  "abs_hub (h\<lparr>register_ch := a\<rparr>) = abs_hub h"
  "abs_hub (h\<lparr>subscribe_ch := b\<rparr>) = abs_hub h"
  "abs_hub (h\<lparr>broadcast_ch := d\<rparr>) = abs_hub h"
  "abs_hub (h\<lparr>disconnect_ch := e\<rparr>) = abs_hub h"
  "abs_hub (h\<lparr>pool := p\<rparr>) = abs_hub h"
  "abs_hub (h\<lparr>hub_running := r\<rparr>) = abs_hub h"
  by (simp_all add: abs_hub_def subs_def subscribed_def clients_def)

definition same_plumbing :: "Hub \<Rightarrow> Hub \<Rightarrow> bool" where
  "same_plumbing h h' \<longleftrightarrow> register_ch h' = register_ch h \<and> subscribe_ch h' = subscribe_ch h \<and>
     broadcast_ch h' = broadcast_ch h \<and> disconnect_ch h' = disconnect_ch h \<and> pool h' = pool h \<and>
     hub_running h' = hub_running h"

lemma same_plumbing_fold:
  "(\<And>x h. same_plumbing h (f x h)) \<Longrightarrow> same_plumbing h (fold f xs h)"
  by (induction xs arbitrary: h) (simp_all add: same_plumbing_def)

lemma same_plumbing_channel: "same_plumbing h (unsubscribeSessionFromChannel sid ident h)"
  by (simp add: same_plumbing_def unsubscribeSessionFromChannel_def)

lemma same_plumbing_hub_op: "same_plumbing h (hub_op op h)"
proof (cases op)
  case (OpRemove uid idents)
  have "same_plumbing h (fold (unsubscribeSessionFromChannel uid) xs h)" for xs
    by (rule same_plumbing_fold) (rule same_plumbing_channel)
  with OpRemove show ?thesis
    by (simp add: same_plumbing_def removeSession_def unsubscribeSessionFromAllChannels_def Let_def)
qed (auto simp: same_plumbing_def addSession_def subscribeSession_def unsubscribeSession_def
    unsubscribeSessionFromChannel_def Let_def split: option.split)

lemma hub_ok_hub_op: "hub_ok h \<Longrightarrow> hub_ok (hub_op op h)"
  using same_plumbing_hub_op [of h op] hub_inv_hub_op
  by (simp add: hub_ok_def channels_ok_def same_plumbing_def)

text \<open>The operation on the maps that a request stands for.\<close>

definition register_op :: "(sref \<Rightarrow> string \<times> string) \<Rightarrow> HubRegistration \<Rightarrow> HubOp" where
  "register_op info r = (case info (hr_session r) of (uid, idents) \<Rightarrow>
     if hr_event r = ''add'' then OpAdd (hr_session r) uid idents else OpRemove uid idents)"

definition subscribe_op :: "HubSubscription \<Rightarrow> HubOp" where
  "subscribe_op r =
     (if hs_event r = ''add'' then OpSubscribe (hs_session r) (hs_stream r) (hs_identifier r)
      else if hs_event r = ''removeAll'' then OpUnsubscribeChannel (hs_session r) (hs_identifier r)
      else OpUnsubscribe (hs_session r) (hs_stream r) (hs_identifier r))"

lemma on_register_op: "on_register info r = hub_op (register_op info r)"
  by (rule ext) (simp add: on_register_def register_op_def split: prod.split)

lemma on_subscribe_op: "on_subscribe r = hub_op (subscribe_op r)"
  by (rule ext) (simp add: on_subscribe_def subscribe_op_def)

lemma Schedule_Ret_iff: "Schedule c t p = Ret q \<longleftrightarrow> (\<exists>e. schedule c False t p = Ret (q, e))"
  by (auto simp: Schedule_def go_simps)

lemma pool_inv_Schedule: "Schedule c t p = Ret q \<Longrightarrow> pool_inv p \<Longrightarrow> pool_inv q"
  by (metis Schedule_Ret_iff pool_inv_schedule)

lemma broadcastToStream_pool:
  assumes "broadcastToStream c stream data h = Ret h'" "pool_inv (pool h)"
  shows "pool_inv (pool h') \<and> h' = h\<lparr>pool := pool h'\<rparr>"
proof (cases "mhas (streams h) stream")
  case True
  with assms(1) obtain p where "Schedule c (BroadcastTask stream data) (pool h) = Ret p"
    and "h' = h\<lparr>pool := p\<rparr>"
    by (auto simp: broadcastToStream_def go_simps)
  then show ?thesis using assms(2) by (simp add: pool_inv_Schedule)
qed (use assms in \<open>simp add: broadcastToStream_def\<close>)

lemma disconnectSessions_pool:
  assumes "disconnectSessions c ident reconnect h = Ret h'" "pool_inv (pool h)"
  shows "pool_inv (pool h') \<and> h' = h\<lparr>pool := pool h'\<rparr>"
proof (cases "map_of (identifiers h) ident")
  case (Some x)
  with assms(1) obtain t p where "Schedule c t (pool h) = Ret p" and "h' = h\<lparr>pool := p\<rparr>"
    by (cases x) (auto simp: disconnectSessions_def go_simps)
  then show ?thesis using assms(2) by (simp add: pool_inv_Schedule)
qed (use assms in \<open>simp add: disconnectSessions_def\<close>)

lemma hub_turn_cases:
  assumes "hub_turn info c c' h = Ret h'"
  obtains (register) r rs where "register_ch h = r # rs"
      "h' = hub_op (register_op info r) (h\<lparr>register_ch := rs\<rparr>)"
  | (subscribe) r rs where "subscribe_ch h = r # rs"
      "h' = hub_op (subscribe_op r) (h\<lparr>subscribe_ch := rs\<rparr>)"
  | (broadcast) m ms where "broadcast_ch h = m # ms"
      "broadcastToStream c' (sm_Stream m) (sm_Data m) (h\<lparr>broadcast_ch := ms\<rparr>) = Ret h'"
  | (disconnect) m ms where "disconnect_ch h = m # ms"
      "disconnectSessions c' (rd_Identifier m) (rd_Reconnect m) (h\<lparr>disconnect_ch := ms\<rparr>) = Ret h'"
proof -
  from assms obtain k where k: "select c (hub_ready h) = Ret k"
    by (auto simp: hub_turn_def go_simps split: if_splits)
  have r: "k \<in> set (hub_ready h)" by (rule select_ready [OF k])
  show thesis
  proof (cases k)
    case (OnRegister r)
    with r obtain rs where "register_ch h = r # rs"
      by (cases "register_ch h") (auto simp: hub_ready_def dest: in_set_takeD)
    with assms k OnRegister show thesis
      by (intro register) (auto simp: hub_turn_def on_register_op split: if_splits)
  next
    case (OnSubscribe r)
    with r obtain rs where "subscribe_ch h = r # rs"
      by (cases "subscribe_ch h") (auto simp: hub_ready_def dest: in_set_takeD)
    with assms k OnSubscribe show thesis
      by (intro subscribe) (auto simp: hub_turn_def on_subscribe_op split: if_splits)
  next
    case (OnBroadcast m)
    with r obtain ms where "broadcast_ch h = m # ms"
      by (cases "broadcast_ch h") (auto simp: hub_ready_def dest: in_set_takeD)
    with assms k OnBroadcast show thesis
      by (intro broadcast) (auto simp: hub_turn_def split: if_splits)
  next
    case (OnDisconnect m)
    with r obtain ms where "disconnect_ch h = m # ms"
      by (cases "disconnect_ch h") (auto simp: hub_ready_def dest: in_set_takeD)
    with assms k OnDisconnect show thesis
      by (intro disconnect) (auto simp: hub_turn_def split: if_splits)
  qed
qed

lemma hub_ok_turn:
  assumes ok: "hub_ok h" and "hub_turn info c c' h = Ret h'"
  shows "hub_ok h'"
  using assms(2)
proof (cases rule: hub_turn_cases)
  case (register r rs)
  then have "hub_ok (h\<lparr>register_ch := rs\<rparr>)" using ok by (simp add: hub_ok_def channels_ok_def)
  with register show ?thesis by (simp add: hub_ok_hub_op)
next
  case (subscribe r rs)
  then have "hub_ok (h\<lparr>subscribe_ch := rs\<rparr>)" using ok by (simp add: hub_ok_def channels_ok_def)
  with subscribe show ?thesis by (simp add: hub_ok_hub_op)
next
  case (broadcast m ms)
  from ok have "pool_inv (pool h)" by (simp add: hub_ok_def)
  with broadcastToStream_pool [OF broadcast(2)] obtain p
    where "pool_inv p" "h' = h\<lparr>broadcast_ch := ms, pool := p\<rparr>" by auto
  with ok broadcast(1) show ?thesis by (simp add: hub_ok_def channels_ok_def)
next
  case (disconnect m ms)
  from ok have "pool_inv (pool h)" by (simp add: hub_ok_def)
  with disconnectSessions_pool [OF disconnect(2)] obtain p
    where "pool_inv p" "h' = h\<lparr>disconnect_ch := ms, pool := p\<rparr>" by auto
  with ok disconnect(1) show ?thesis by (simp add: hub_ok_def channels_ok_def)
qed

lemmas hub_requests =
  AddSession_def RemoveSession_def send_subscription_def BroadcastMessage_def
  Hub_RemoteDisconnect_def Hub_Shutdown_def

lemma hub_ok_step:
  assumes ok: "hub_ok h" and "hub_step h h'"
  shows "hub_ok h'"
  using assms(2)
proof cases
  case (direct_add s uid idents)
  then show ?thesis using hub_ok_hub_op [OF ok, of "OpAdd s uid idents"] by simp
next
  case (direct_subscribe sid stream ident)
  then show ?thesis using hub_ok_hub_op [OF ok, of "OpSubscribe sid stream ident"] by simp
next
  case (turn info c c')
  then show ?thesis using hub_ok_turn [OF ok] by blast
next
  case (worker i p)
  then show ?thesis
    using ok pool_inv_take pool_inv_done by (auto simp: hub_ok_def channels_ok_def)
qed (use ok in \<open>auto simp: hub_requests hub_ok_def channels_ok_def go_simps split: if_splits\<close>)

lemma hub_ok_created: "hub_created h \<Longrightarrow> hub_ok h"
  using hub_inv_NewHub pool_inv_created
  by (fastforce simp: hub_created_def hub_ok_def NewHub_def go_simps channels_ok_def pool_created_def)

interpretation hub_machine: invariant_of hub_created hub_step hub_ok
  by unfold_locales (fact hub_ok_created, fact hub_ok_step)

end
