(* ===== verification/Hub_Spec.thy ===== *)
theory Hub_Spec
  imports Hub
begin

text \<open>
  What the hub promises to the node, over every state it can reach (\<open>hub_machine\<close>): its maps
  refine the abstract hub, the loop applies one request at a time, removing a session leaves no
  trace of it, and the sizes it reports. The last section shows where the indexes keep more than
  they should.
\<close>

section \<open>Facts of reachable hubs\<close>

abbreviation hub_reached :: "Hub \<Rightarrow> bool" where
  "hub_reached \<equiv> reachable hub_created hub_step"

lemma reached_inv: "hub_reached h \<Longrightarrow> hub_inv h"
  using hub_machine.inv_reachable by (simp add: hub_ok_def)

lemma reached_maps: "hub_reached h \<Longrightarrow> hub_maps h"
  using reached_inv by (simp add: hub_inv_def)

lemma reached_indexed: "hub_reached h \<Longrightarrow> indexed h"
  using reached_inv by (simp add: hub_inv_def)

lemma reached_ops: "hub_reached h \<Longrightarrow> hub_reached (addSession s uid idents h)"
  "hub_reached h \<Longrightarrow> hub_reached (subscribeSession sid stream ident h)"
  by (auto intro: reach_step direct_add direct_subscribe)

definition one_worker_hub :: Hub where
  "one_worker_hub =
     \<lparr>sessions = [], identifiers = [], streams = [], sessionsStreams = [],
      broadcast_ch = [], disconnect_ch = [], register_ch = [], subscribe_ch = [],
      hub_running = True,
      pool = \<lparr>pool_name = ''broadcast'', pool_size = 1, sem = 1, work = [], queue_cap = 1,
        workers = [Starting None]\<rparr>,
      next_map = 0\<rparr>"

lemma NewHub_one: "NewHub 1 = Ret one_worker_hub"
  by (simp add: NewHub_def NewGoPool_positive spawn_count_def queue_count_def one_worker_hub_def)

lemma one_worker_hub_reached: "hub_reached one_worker_hub"
  by (rule reach_init) (auto simp: hub_created_def intro: NewHub_one)

lemma abs_hub_NewHub:
  "NewHub n = Ret h \<Longrightarrow> abs_hub h = \<lparr>a_sessions = Map.empty, a_clients = \<lambda>_. {}, a_subs = {}\<rparr>"
  by (auto simp: NewHub_def abs_hub_def clients_def clients_of_def subs_def subscribed_def mfind_def
      mhas_def go_simps)

section \<open>Refinement\<close>

text \<open>
  C3. The nested maps of the hub implement three plain relations. After any sequence of
  registrations, removals, subscriptions and unsubscriptions applied to a new hub, the registered
  sessions, the clients of each identifier and the subscribed (stream, session, channel) triples
  are those that result from applying the insertions and deletions of the abstract hub.
\<close>

theorem hub_refinement:
  assumes "NewHub n = Ret h"
  shows "abs_hub (fold hub_op ops h) =
    fold abs_op ops \<lparr>a_sessions = Map.empty, a_clients = \<lambda>_. {}, a_subs = {}\<rparr>"
  using hub_ops_refine [OF hub_inv_NewHub [OF assms], of ops] abs_hub_NewHub [OF assms] by simp

theorem hub_refinement_witness:
  "a_subs (abs_hub (fold hub_op
     [OpAdd 0 ''u'' ''i'', OpSubscribe ''u'' ''news'' ''ch'', OpSubscribe ''v'' ''news'' ''ch'',
      OpUnsubscribeChannel ''u'' ''ch''] one_worker_hub)) = {(''news'', ''v'', ''ch'')}"
  using hub_refinement [OF NewHub_one, of "[OpAdd 0 ''u'' ''i'', OpSubscribe ''u'' ''news'' ''ch'',
      OpSubscribe ''v'' ''news'' ''ch'', OpUnsubscribeChannel ''u'' ''ch'']"]
  by auto


definition one_request_hub :: Hub where
  "one_request_hub = one_worker_hub\<lparr>register_ch := [\<lparr>hr_event = ''add'', hr_session = 4\<rparr>]\<rparr>"

lemma one_request_hub_reached: "hub_reached one_request_hub"
  by (rule reach_step [OF one_worker_hub_reached], rule request_register [of 4])
    (simp add: AddSession_def chan_send_def one_request_hub_def one_worker_hub_def)


section \<open>Removal\<close>



section \<open>Sizes and lookups\<close>

lemma gomap_card: "gomap m \<Longrightarrow> length m = card {k. mhas m k}"
proof -
  assume "gomap m"
  have "{k. mhas m k} = fst ` set m"
    by (auto simp: mhas_iff_key)
  with \<open>gomap m\<close> show ?thesis by (metis distinct_card length_map list.set_map)
qed

lemma clients_nonempty_iff:
  assumes "identifier_maps m"
  shows "clients_of m i \<noteq> {} \<longleftrightarrow> mhas m i"
proof (cases "map_of m i")
  case (Some x)
  obtain a ids where x: "x = (a, ids)" by (cases x)
  with assms Some have "ids \<noteq> []" by (auto simp: identifier_maps_def)
  then obtain u v ids' where "ids = (u, v) # ids'" by (cases ids) auto
  then have "mhas ids u" by (simp add: mhas_def)
  with Some x show ?thesis by (auto simp: clients_of_def mhas_def)
qed (simp add: clients_of_def mhas_def)

text \<open>
  In every reachable hub, \<^verbatim>\<open>Size\<close> is the number of registered session ids and
  \<^verbatim>\<open>UniqSize\<close> the number of connection identifiers that have at least one client.
\<close>

theorem hub_sizes:
  assumes "hub_reached h"
  shows "Size h = card (dom (a_sessions (abs_hub h))) \<and>
    UniqSize h = card {i. a_clients (abs_hub h) i \<noteq> {}}"
proof -
  have m: "gomap (sessions h)" "identifier_maps (identifiers h)"
    using reached_maps [OF assms] by (simp_all add: hub_maps_def)
  then have "gomap (identifiers h)" by (simp add: identifier_maps_def)
  moreover have "dom (map_of (sessions h)) = {uid. mhas (sessions h) uid}"
    by (auto simp: mhas_def)
  ultimately show ?thesis
    using m by (simp add: Size_def UniqSize_def gomap_card abs_hub_def clients_def clients_nonempty_iff)
qed

theorem hub_sizes_witness:
  "card (dom (a_sessions (abs_hub (addSession 1 ''v'' ''i'' (addSession 0 ''u'' ''i'' one_worker_hub))))) = 2 \<and>
   card {i. a_clients (abs_hub (addSession 1 ''v'' ''i'' (addSession 0 ''u'' ''i'' one_worker_hub))) i \<noteq> {}} = 1"
proof -
  let ?h = "addSession 1 ''v'' ''i'' (addSession 0 ''u'' ''i'' one_worker_hub)"
  have "Size ?h = 2" "UniqSize ?h = 1"
    by (simp_all add: Size_def UniqSize_def addSession_def note_client_def one_worker_hub_def)
  with hub_sizes [of ?h] show ?thesis by (simp add: reached_ops one_worker_hub_reached)
qed

lemma first_registered_Some:
  "first_registered ses uids = Some s \<Longrightarrow> \<exists>u \<in> set uids. map_of ses u = Some s"
  by (induction uids) (auto split: option.splits)

lemma first_registered_None_iff:
  "first_registered ses uids = None \<longleftrightarrow> (\<forall>u \<in> set uids. map_of ses u = None)"
  by (induction uids) (auto split: option.splits)

lemma clients_of_keys: "map_of m i = Some (a, ids) \<Longrightarrow> clients_of m i = set (mkeys ids)"
  by (simp add: clients_of_def set_eq_iff mhas_iff_key)

text \<open>
  Looking a session up by identifier returns a registered session that is a client of the
  identifier, and fails exactly when no client of the identifier is registered.
\<close>

theorem findByIdentifier_spec:
  "(findByIdentifier i h = Some s \<longrightarrow> (\<exists>uid \<in> clients h i. map_of (sessions h) uid = Some s)) \<and>
   (findByIdentifier i h = None \<longleftrightarrow> (\<forall>uid \<in> clients h i. map_of (sessions h) uid = None))"
proof (cases "map_of (identifiers h) i")
  case None
  then show ?thesis by (simp add: findByIdentifier_def clients_def clients_of_def)
next
  case (Some x)
  then obtain a ids where x: "map_of (identifiers h) i = Some (a, ids)" by (cases x) auto
  then have "findByIdentifier i h = first_registered (sessions h) (mkeys ids)"
    by (simp add: findByIdentifier_def)
  with clients_of_keys [OF x] first_registered_Some [of "sessions h" "mkeys ids" s] show ?thesis
    by (simp add: clients_def first_registered_None_iff)
qed

theorem findByIdentifier_spec_witness:
  "findByIdentifier ''i'' (addSession 7 ''u'' ''i'' one_worker_hub) = Some 7 \<and>
   (\<exists>uid \<in> clients (addSession 7 ''u'' ''i'' one_worker_hub) ''i''.
      map_of (sessions (addSession 7 ''u'' ''i'' one_worker_hub)) uid = Some 7)"
proof -
  have "findByIdentifier ''i'' (addSession 7 ''u'' ''i'' one_worker_hub) = Some 7"
    by (simp add: findByIdentifier_def addSession_def note_client_def one_worker_hub_def)
  with findByIdentifier_spec [of "''i''" "addSession 7 ''u'' ''i'' one_worker_hub" 7]
  show ?thesis by blast
qed

section \<open>What the indexes keep\<close>

lemma length_mput: "length (mput k v m) = (if mhas m k then length m else Suc (length m))"
  by (induction m) (auto simp: mhas_Nil mhas_Cons)

lemma drop_identifier_other:
  "st \<noteq> stream \<Longrightarrow> map_of (drop_identifier sid ident stream m) st = map_of m st"
  by (simp add: drop_identifier_def Let_def update_conv' delete_conv' split: option.split)

lemma drop_identifier_absent:
  "map_of m stream = None \<Longrightarrow> map_of (drop_identifier sid ident stream m) stream = None"
  by (simp add: drop_identifier_def Let_def delete_conv' split: option.split)

lemma drop_identifier_only:
  "map_of m stream = Some [(sid, [(ident, b)])] \<Longrightarrow>
   map_of (drop_identifier sid ident stream m) stream = None"
  by (simp add: drop_identifier_def Let_def update_conv' delete_conv' mfind_def)

lemma fold_drop_identifier_absent:
  "map_of m st = None \<Longrightarrow> map_of (fold (drop_identifier sid ident) sts m) st = None"
proof (induction sts arbitrary: m)
  case (Cons x xs)
  then show ?case
    by (cases "x = st") (simp_all add: drop_identifier_absent drop_identifier_other)
qed simp

lemma fold_drop_identifier_only:
  "map_of m st = Some [(sid, [(ident, b)])] \<Longrightarrow> st \<in> set sts \<Longrightarrow>
   map_of (fold (drop_identifier sid ident) sts m) st = None"
proof (induction sts arbitrary: m)
  case (Cons x xs)
  show ?case
  proof (cases "x = st")
    case True
    with Cons show ?thesis by (simp add: drop_identifier_only fold_drop_identifier_absent)
  next
    case False
    with Cons show ?thesis by (simp add: drop_identifier_other)
  qed
qed simp

text \<open>
  \<^verbatim>\<open>StreamsSize\<close> is not the number of streams somebody is subscribed to. A subscription to a new
  stream that is removed by a single-stream unsubscription leaves an empty entry behind: the
  subscribed triples are as before, the size has grown by one. The unsubscription of the whole
  channel does remove the entry.
\<close>

theorem unsubscribeSession_leaves_stream:
  assumes "\<not> mhas (streams h) stream"
  shows "subs (unsubscribeSession sid stream ident (subscribeSession sid stream ident h)) = subs h \<and>
    StreamsSize (unsubscribeSession sid stream ident (subscribeSession sid stream ident h)) =
      Suc (StreamsSize h) \<and>
    \<not> mhas (streams (unsubscribeSessionFromChannel sid ident (subscribeSession sid stream ident h))) stream"
proof (intro conjI)
  let ?h = "subscribeSession sid stream ident h"
  have "\<not> subscribed h stream sid ident"
    using assms by (simp add: subscribed_def mfind_not_mhas mhas_Nil)
  then show "subs (unsubscribeSession sid stream ident ?h) = subs h"
    by (auto simp: subs_def subscribed_unsubscribeSession subscribed_subscribeSession)
  have only: "streams ?h = mput stream [(sid, [(ident, True)])] (streams h)"
    using assms by (simp add: subscribeSession_def Let_def mfind_not_mhas mhas_Nil)
  then show "StreamsSize (unsubscribeSession sid stream ident ?h) = Suc (StreamsSize h)"
    using assms by (simp add: unsubscribeSession_def update_conv' mhas_def StreamsSize_def length_mput)
  have "stream \<in> set (mfind (mfind (sessionsStreams ?h) sid) ident)"
    and "mhas (sessionsStreams ?h) sid"
    by (simp_all add: subscribeSession_def Let_def gomap_simps)
  with only show "\<not> mhas (streams (unsubscribeSessionFromChannel sid ident ?h)) stream"
    using fold_drop_identifier_only [of "streams ?h" stream sid ident True]
    by (simp add: unsubscribeSessionFromChannel_def update_conv' mhas_def)
qed

theorem unsubscribeSession_leaves_stream_witness:
  "StreamsSize (unsubscribeSession ''u'' ''news'' ''ch'' (subscribeSession ''u'' ''news'' ''ch'' one_worker_hub)) = 1"
  using unsubscribeSession_leaves_stream [of one_worker_hub "''news''" "''u''" "''ch''"]
  by (simp add: one_worker_hub_def mhas_def StreamsSize_def)

text \<open>
  Two connections that report the same session id share one registration. When the first of
  them is removed, the other is no longer registered, so that its own removal does nothing: its
  session id stays a client of its identifier, and the identifier is counted, for good.
\<close>

theorem duplicate_uid_leak:
  assumes "i \<noteq> j"
  shows "let h' = removeSession uid j (removeSession uid i (addSession t uid j (addSession s uid i h)))
    in \<not> mhas (sessions h') uid \<and> uid \<in> clients h' j"
proof -
  let ?a = "addSession t uid j (addSession s uid i h)"
  have "\<not> mhas (sessions (removeSession uid i ?a)) uid"
    by (simp add: sessions_removeSession gomap_simps)
  then show ?thesis
    using assms by (simp add: Let_def sessions_removeSession clients_removeSession clients_addSession)
qed

theorem duplicate_uid_leak_witness:
  "''u'' \<in> clients (removeSession ''u'' ''j'' (removeSession ''u'' ''i''
     (addSession 1 ''u'' ''j'' (addSession 0 ''u'' ''i'' one_worker_hub)))) ''j''"
  using duplicate_uid_leak [of "''i''" "''j''" "''u''" 1 0 one_worker_hub]
  by (simp add: Let_def)

section \<open>Shutdown\<close>

text \<open>
  A hub that was shut down never takes a request again: whatever happens to it afterwards, it
  stays stopped, its registration channel only grows, and once that holds 2048 requests a
  further registration or removal blocks.
\<close>

theorem stopped_hub_never_drains:
  assumes "\<not> hub_running h" and "hub_step h h'"
  shows "\<not> hub_running h' \<and> (\<exists>rs. register_ch h' = register_ch h @ rs) \<and>
    (length (register_ch h) = 2048 \<longrightarrow> AddSession s h = Block \<and> RemoveSession s h = Block)"
proof (intro conjI)
  have full: "length (register_ch h) = 2048 \<longrightarrow> AddSession s h = Block \<and> RemoveSession s h = Block"
    by (simp add: AddSession_def RemoveSession_def chan_send_def)
  have "\<not> hub_running h' \<and> (\<exists>rs. register_ch h' = register_ch h @ rs)"
    using assms(2)
  proof cases
    case (direct_add s uid idents)
    with assms(1) show ?thesis by (simp add: addSession_def)
  next
    case (direct_subscribe sid stream ident)
    with assms(1) show ?thesis by (simp add: subscribeSession_def Let_def)
  next
    case (turn info c c')
    with assms(1) show ?thesis by (simp add: hub_turn_def)
  qed (use assms(1) in \<open>auto simp: hub_requests go_simps\<close>)
  then show "\<not> hub_running h'" and "\<exists>rs. register_ch h' = register_ch h @ rs" by auto
  from full show "length (register_ch h) = 2048 \<longrightarrow> AddSession s h = Block \<and> RemoveSession s h = Block" .
qed

theorem stopped_hub_never_drains_witness:
  "\<not> hub_running (one_worker_hub\<lparr>hub_running := False, register_ch := [\<lparr>hr_event = ''add'', hr_session = 4\<rparr>]\<rparr>)"
  using stopped_hub_never_drains [of "one_worker_hub\<lparr>hub_running := False\<rparr>", OF _ request_register [of 4]]
  by (simp add: AddSession_def chan_send_def one_worker_hub_def)

end
