(* ===== verification/Encoding.thy ===== *)
theory Encoding
  imports Common
begin

text \<open>
  Frames (\<^verbatim>\<open>ws/ws.go\<close>), the encoder interface and its JSON implementation
  (\<^verbatim>\<open>encoders/encoder.go\<close>, \<^verbatim>\<open>encoders/json.go\<close>), and the cache that encodes a broadcast
  message once per encoder (\<^verbatim>\<open>node/encoding_cache.go\<close>).

  The interface is the record \<open>Encoder\<close> and its contract the locale \<open>frame_encoder\<close>, which the
  JSON encoder is shown to satisfy; the transparency of the cache is proved once from the contract.
\<close>

section \<open>Frames\<close>

definition CloseNormalClosure :: int where "CloseNormalClosure = 1000"

definition CloseGoingAway :: int where "CloseGoingAway = 1001"

definition CloseNoStatusReceived :: int where "CloseNoStatusReceived = 1005"

definition CloseAbnormalClosure :: int where "CloseAbnormalClosure = 1006"

definition CloseInternalServerErr :: int where "CloseInternalServerErr = 1011"

lemmas close_codes = CloseNormalClosure_def CloseGoingAway_def CloseNoStatusReceived_def
  CloseAbnormalClosure_def CloseInternalServerErr_def

definition expectedCloseStatuses :: "int list" where
  "expectedCloseStatuses = [CloseNormalClosure, CloseGoingAway, CloseNoStatusReceived]"

datatype FrameType = TextFrame | CloseFrame | BinaryFrame | OtherFrame int

record SentFrame =
  FrameType :: FrameType
  Payload :: string
  CloseCode :: int
  CloseReason :: string

text \<open>The error of a read from a connection: a close frame with its code, or anything else.\<close>

datatype ReadError = CloseError int | ReadFailed string

definition IsCloseError :: "ReadError \<Rightarrow> bool" where
  "IsCloseError err = (case err of
     CloseError code \<Rightarrow> code \<in> set expectedCloseStatuses | ReadFailed _ \<Rightarrow> False)"

section \<open>Messages to clients and the encoder interface\<close>

datatype EncodedMessage =
    MReply Reply
  | MPing PingMessage
  | MDisconnect DisconnectMessage

definition PingType :: string where "PingType = ''ping''"

definition ReplyType :: string where "ReplyType = ''message''"

definition DisconnectType :: string where "DisconnectType = ''disconnect''"

fun GetType :: "EncodedMessage \<Rightarrow> string" where
  "GetType (MPing _) = PingType"
| "GetType (MDisconnect _) = DisconnectType"
| "GetType (MReply _) = ReplyType"

record Encoder =
  enc_ID :: string
  enc_Encode :: "EncodedMessage \<Rightarrow> SentFrame result go"
  enc_EncodeTransmission :: "string \<Rightarrow> SentFrame result"
  enc_Decode :: "string \<Rightarrow> Message result"

section \<open>The JSON encoder\<close>

fun nat_text :: "nat \<Rightarrow> string" where
  "nat_text n = (if n < 10 then [char_of (48 + n)]
                 else nat_text (n div 10) @ [char_of (48 + n mod 10)])"

declare nat_text.simps [simp del]

definition int_text :: "int \<Rightarrow> string" where
  "int_text i = (if i < 0 then CHR ''-'' # nat_text (nat (- i)) else nat_text (nat i))"

text \<open>
  \<^verbatim>\<open>json.Marshal\<close> of the message structs, in the order of their fields; \<^verbatim>\<open>type\<close> of a reply is
  omitted when empty. No value these structs hold makes it fail.
\<close>

fun marshal_message :: "EncodedMessage \<Rightarrow> string" where
  "marshal_message (MReply r) = object_text
     ((if reply_Type r = [] then [] else [(''type'', quote (reply_Type r))]) @
      [(''identifier'', quote (reply_Identifier r)), (''message'', jtext (reply_Message r))])"
| "marshal_message (MPing p) = object_text
     [(''type'', quote (ping_Type p)), (''message'', int_text (ping_Message p))]"
| "marshal_message (MDisconnect d) = object_text
     [(''type'', quote (dm_Type d)), (''reason'', quote (dm_Reason d)),
      (''reconnect'', jtext (JBool (dm_Reconnect d)))]"

definition text_frame :: "string \<Rightarrow> SentFrame" where
  "text_frame b = \<lparr>FrameType = TextFrame, Payload = b, CloseCode = 0, CloseReason = []\<rparr>"

definition JSON_Encode :: "EncodedMessage \<Rightarrow> SentFrame result go" where
  "JSON_Encode msg = Ret (Some (text_frame (marshal_message msg)), None)"

definition JSON_EncodeTransmission :: "string \<Rightarrow> SentFrame result" where
  "JSON_EncodeTransmission msg = (Some (text_frame msg), None)"

definition set_Message ::
  "(string \<Rightarrow> string option) \<Rightarrow> string \<Rightarrow> jvalue \<Rightarrow> Message \<Rightarrow> Message \<times> bool" where
  "set_Message f64 name v r =
     (if name = ''command'' then set_string (\<lambda>s r. r\<lparr>Command := s\<rparr>) v r
      else if name = ''identifier'' then set_string (\<lambda>s r. r\<lparr>Identifier := s\<rparr>) v r
      else (r\<lparr>Data := any_of f64 v\<rparr>, any_ok f64 v))"

text \<open>
  \<^verbatim>\<open>json.Unmarshal(raw, &msg)\<close> where \<^verbatim>\<open>msg\<close> is itself a pointer: the text \<^verbatim>\<open>null\<close> makes
  that pointer nil and is no error.
\<close>

definition JSON_Decode :: "(string \<Rightarrow> string option) \<Rightarrow> string \<Rightarrow> Message result" where
  "JSON_Decode f64 raw =
     (if json_parse raw = Some JNull then (None, None)
      else (let (msg, err) = unmarshal [''command'', ''identifier'', ''data''] (set_Message f64) raw
                  \<lparr>Command = [], Identifier = [], Data = JNull\<rparr>
            in case err of Some e \<Rightarrow> (None, Some e) | None \<Rightarrow> (Some msg, None)))"

definition JSON :: "(string \<Rightarrow> string option) \<Rightarrow> Encoder" where
  "JSON f64 = \<lparr>enc_ID = ''json'', enc_Encode = JSON_Encode,
     enc_EncodeTransmission = JSON_EncodeTransmission, enc_Decode = JSON_Decode f64\<rparr>"

section \<open>The encoding cache\<close>

text \<open>Encoder id to encoded frame; a nil frame records that encoding failed.\<close>

type_synonym EncodingCache = "(string, SentFrame option) gomap"

definition encoding_failed :: error where
  "encoding_failed = Err ''Encoding failed''"

definition Fetch ::
  "EncodingCache \<Rightarrow> EncodedMessage \<Rightarrow> string \<Rightarrow> (EncodedMessage \<Rightarrow> SentFrame result go)
   \<Rightarrow> (SentFrame result \<times> EncodingCache) go" where
  "Fetch m msg encoder callback =
     gbind (if \<not> mhas m encoder
            then gbind (callback msg) (\<lambda>(b, err).
                   Ret (if err \<noteq> None then mput encoder None m else mput encoder b m))
            else Ret m)
       (\<lambda>m'. Ret (case map_of m' encoder of
          Some (Some b) \<Rightarrow> ((Some b, None), m')
        | _ \<Rightarrow> ((None, Some encoding_failed), m')))"

record CachedEncodedMessage =
  target :: EncodedMessage
  cache :: EncodingCache

definition NewCachedEncodedMessage :: "EncodedMessage \<Rightarrow> CachedEncodedMessage" where
  "NewCachedEncodedMessage msg = \<lparr>target = msg, cache = []\<rparr>"

definition CachedEncodedMessage_Fetch ::
  "CachedEncodedMessage \<Rightarrow> string \<Rightarrow> (EncodedMessage \<Rightarrow> SentFrame result go)
   \<Rightarrow> (SentFrame result \<times> CachedEncodedMessage) go" where
  "CachedEncodedMessage_Fetch msg encid callback =
     gbind (Fetch (cache msg) (target msg) encid callback)
       (\<lambda>(r, c). Ret (r, msg\<lparr>cache := c\<rparr>))"

section \<open>The contract of an encoder\<close>

text \<open>
  Encoding returns a data frame or an error, never both and never neither, and never a close frame.
\<close>

definition data_frame :: "SentFrame \<Rightarrow> bool" where
  "data_frame f \<longleftrightarrow> FrameType f = TextFrame \<or> FrameType f = BinaryFrame"

locale frame_encoder =
  fixes enc :: Encoder
  assumes encode_cases:
    "(\<exists>f. enc_Encode enc m = Ret (Some f, None) \<and> data_frame f) \<or>
     (\<exists>e. enc_Encode enc m = Ret (None, Some e))"
    and transmission_cases:
    "(\<exists>f. enc_EncodeTransmission enc t = (Some f, None) \<and> data_frame f) \<or>
     (\<exists>e. enc_EncodeTransmission enc t = (None, Some e))"
begin

text \<open>The frame an encoder gives a message, \<open>None\<close> where it reports an error.\<close>

definition frame_of :: "EncodedMessage \<Rightarrow> SentFrame option" where
  "frame_of m = (case enc_Encode enc m of Ret (f, None) \<Rightarrow> f | _ \<Rightarrow> None)"

definition faithful :: "EncodedMessage \<Rightarrow> EncodingCache \<Rightarrow> bool" where
  "faithful m c \<longleftrightarrow> (\<forall>b. map_of c (enc_ID enc) = Some b \<longrightarrow> b = frame_of m)"

lemma fetch_outcome:
  assumes "faithful m c"
  shows "\<exists>c'. Fetch c m (enc_ID enc) (enc_Encode enc) =
      Ret (case frame_of m of Some f \<Rightarrow> (Some f, None) | None \<Rightarrow> (None, Some encoding_failed), c') \<and>
    faithful m c' \<and> mhas c' (enc_ID enc) \<and>
    (\<forall>k. k \<noteq> enc_ID enc \<longrightarrow> map_of c' k = map_of c k)"
proof (cases "mhas c (enc_ID enc)")
  case True
  then obtain b where "map_of c (enc_ID enc) = Some b" by (auto simp: mhas_def)
  with True assms show ?thesis
    by (auto simp: Fetch_def faithful_def split: option.splits)
next
  case False
  then show ?thesis
    using encode_cases [of m]
    by (auto simp: Fetch_def faithful_def frame_of_def gomap_simps)
qed

end

lemma JSON_simps [simp]:
  "enc_ID (JSON f64) = ''json''"
  "enc_Encode (JSON f64) = JSON_Encode"
  "enc_EncodeTransmission (JSON f64) = JSON_EncodeTransmission"
  "enc_Decode (JSON f64) = JSON_Decode f64"
  by (simp_all add: JSON_def)

interpretation json_enc: frame_encoder "JSON f64" for f64
  by unfold_locales
    (auto simp: JSON_Encode_def JSON_EncodeTransmission_def data_frame_def text_frame_def)

lemma json_frame_of: "json_enc.frame_of f64 m = Some (text_frame (marshal_message m))"
  by (simp add: json_enc.frame_of_def JSON_Encode_def)

text \<open>A cached encoder id is served from the cache: the callback is not run again.\<close>

lemma Fetch_cached: "mhas c k \<Longrightarrow> Fetch c m k cb = Fetch c m k cb'"
  by (simp add: Fetch_def)

end
