(* ===== verification/Disconnect_Queue.thy ===== *)
theory Disconnect_Queue
  imports Hub Encoding "HOL-Library.Signed_Division"
begin

text \<open>
  The rate-limited queue of disconnect calls (\<^verbatim>\<open>node/disconnect_queue.go\<close>), its interface and the
  implementation that does nothing (\<^verbatim>\<open>node/disconnector.go\<close>). The loop \<^verbatim>\<open>Run\<close> and the caller of
  \<^verbatim>\<open>Shutdown\<close> both receive from the queue's channel; their control points are fields of the queue,
  so that a run interleaves their steps with calls of \<^verbatim>\<open>Enqueue\<close>.

  The lemmas show that sessions leave the queue in the order they entered it and that each is passed
  to \<^verbatim>\<open>DisconnectNow\<close> at most once, and exactly once when everything has been drained.
\<close>

section \<open>The queue\<close>

record DisconnectQueueConfig =
  cfg_Rate :: int
  cfg_ShutdownTimeout :: int

definition NewDisconnectQueueConfig :: DisconnectQueueConfig where
  "NewDisconnectQueueConfig = \<lparr>cfg_Rate = 100, cfg_ShutdownTimeout = 5\<rparr>"

text \<open>Where the goroutine of \<^verbatim>\<open>Run\<close> is: in its \<^verbatim>\<open>select\<close>, or waiting for the ticker with a session.\<close>

datatype RunPoint = RunNotStarted | RunSelect | RunThrottle sref | RunReturned

text \<open>
  Where the first caller of \<^verbatim>\<open>Shutdown\<close> is: in its \<^verbatim>\<open>select\<close> with the number of calls left to make,
  or returned. Later callers find the queue stopped and return nil at once.
\<close>

datatype ShutdownPoint = ShutdownNotCalled | ShutdownSelect nat | ShutdownReturned "error option"

text \<open>Durations are in milliseconds; \<open>dq_shutdown\<close> counts the values in the control channel.\<close>

record DisconnectQueue =
  dq_rate :: int
  dq_timeout :: int
  dq_disconnect :: "sref list"
  dq_shutdown :: nat
  dq_isStopped :: bool
  dq_run :: RunPoint
  dq_drain :: ShutdownPoint

definition NewDisconnectQueue :: "DisconnectQueueConfig \<Rightarrow> DisconnectQueue go" where
  "NewDisconnectQueue config =
     (if cfg_Rate config = 0 then Panic ''integer divide by zero''
      else Ret \<lparr>dq_rate = 1000 sdiv cfg_Rate config,
                dq_timeout = cfg_ShutdownTimeout config * 1000,
                dq_disconnect = [], dq_shutdown = 0, dq_isStopped = False,
                dq_run = RunNotStarted, dq_drain = ShutdownNotCalled\<rparr>)"

definition Enqueue :: "sref \<Rightarrow> DisconnectQueue \<Rightarrow> (DisconnectQueue \<times> error option) go" where
  "Enqueue s d =
     (if dq_isStopped d then Ret (d, None)
      else gbind (chan_send 4096 s (dq_disconnect d)) (\<lambda>ch. Ret (d\<lparr>dq_disconnect := ch\<rparr>, None)))"

definition DisconnectQueue_Size :: "DisconnectQueue \<Rightarrow> nat" where
  "DisconnectQueue_Size d = length (dq_disconnect d)"

section \<open>Run\<close>

text \<open>\<^verbatim>\<open>time.NewTicker\<close> panics when the interval is not positive.\<close>

definition Run_start :: "DisconnectQueue \<Rightarrow> DisconnectQueue go" where
  "Run_start d =
     (if dq_rate d \<le> 0 then Panic ''non-positive interval for NewTicker''
      else Ret (d\<lparr>dq_run := RunSelect\<rparr>))"

datatype QueueCase = TakeSession sref | TakeShutdown

definition queue_ready :: "DisconnectQueue \<Rightarrow> QueueCase list" where
  "queue_ready d = map TakeSession (take 1 (dq_disconnect d)) @
     (if 0 < dq_shutdown d then [TakeShutdown] else [])"

definition Run_select :: "nat \<Rightarrow> DisconnectQueue \<Rightarrow> DisconnectQueue go" where
  "Run_select c d =
     (if dq_run d \<noteq> RunSelect then Block
      else gbind (select c (queue_ready d)) (\<lambda>k. case k of
          TakeSession s \<Rightarrow> Ret (d\<lparr>dq_disconnect := tl (dq_disconnect d), dq_run := RunThrottle s\<rparr>)
        | TakeShutdown \<Rightarrow> Ret (d\<lparr>dq_shutdown := dq_shutdown d - 1, dq_run := RunReturned\<rparr>)))"

text \<open>The ticker fires: \<^verbatim>\<open>DisconnectNow\<close> is called for the session, its error is ignored.\<close>

definition Run_tick :: "DisconnectQueue \<Rightarrow> (DisconnectQueue \<times> sref) go" where
  "Run_tick d = (case dq_run d of
     RunThrottle s \<Rightarrow> Ret (d\<lparr>dq_run := RunSelect\<rparr>, s)
   | _ \<Rightarrow> Block)"

section \<open>Shutdown\<close>

definition Shutdown_start :: "DisconnectQueue \<Rightarrow> DisconnectQueue go" where
  "Shutdown_start d =
     (if dq_isStopped d then Ret d
      else if dq_shutdown d < 1 then
        (let left = length (dq_disconnect d)
         in Ret (d\<lparr>dq_isStopped := True, dq_shutdown := Suc (dq_shutdown d),
                   dq_drain := (if left = 0 then ShutdownReturned None else ShutdownSelect left)\<rparr>))
      else Block)"

definition had_no_time :: "nat \<Rightarrow> error" where
  "had_no_time n = Err (''Had no time to invoke Disconnect calls: '' @ nat_text n)"

text \<open>
  One turn of the loop: the oldest session is received and \<^verbatim>\<open>DisconnectNow\<close>, whose error is \<open>err\<close>,
  is called for it; or the timeout elapses.
\<close>

definition Shutdown_take :: "error option \<Rightarrow> DisconnectQueue \<Rightarrow> (DisconnectQueue \<times> sref) go" where
  "Shutdown_take err d = (case (dq_drain d, dq_disconnect d) of
     (ShutdownSelect left, s # rest) \<Rightarrow>
       Ret (d\<lparr>dq_disconnect := rest,
              dq_drain := (if err \<noteq> None then ShutdownReturned err
                           else if left - 1 = 0 then ShutdownReturned None
                           else ShutdownSelect (left - 1))\<rparr>, s)
   | _ \<Rightarrow> Block)"

definition Shutdown_timeout :: "DisconnectQueue \<Rightarrow> DisconnectQueue go" where
  "Shutdown_timeout d = (case dq_drain d of
     ShutdownSelect left \<Rightarrow>
       Ret (d\<lparr>dq_drain := ShutdownReturned (Some (had_no_time (length (dq_disconnect d))))\<rparr>)
   | _ \<Rightarrow> Block)"

section \<open>The interface\<close>

datatype Disconnector = NoopDisconnectQueue | AnyDisconnectQueue DisconnectQueue

definition NewNoopDisconnector :: Disconnector where
  "NewNoopDisconnector = NoopDisconnectQueue"

fun Disconnector_Enqueue :: "sref \<Rightarrow> Disconnector \<Rightarrow> (Disconnector \<times> error option) go" where
  "Disconnector_Enqueue s NoopDisconnectQueue = Ret (NoopDisconnectQueue, None)"
| "Disconnector_Enqueue s (AnyDisconnectQueue d) =
     gbind (Enqueue s d) (\<lambda>(d, e). Ret (AnyDisconnectQueue d, e))"

fun Disconnector_Size :: "Disconnector \<Rightarrow> nat" where
  "Disconnector_Size NoopDisconnectQueue = 0"
| "Disconnector_Size (AnyDisconnectQueue d) = DisconnectQueue_Size d"

text \<open>
  What the node relies on: enqueueing a session never fails and never panics, and adds the session
  at the end of the pending ones or drops it; the size is the number of pending sessions.
\<close>

locale disconnector =
  fixes enqueue :: "sref \<Rightarrow> 'q \<Rightarrow> ('q \<times> error option) go"
    and qsize :: "'q \<Rightarrow> nat"
    and waiting :: "'q \<Rightarrow> sref list"
  assumes enqueue_no_panic: "enqueue s q \<noteq> Panic e"
    and enqueue_effect: "enqueue s q = Ret (q', err) \<Longrightarrow>
      err = None \<and> (waiting q' = waiting q \<or> waiting q' = waiting q @ [s])"
    and qsize_waiting: "qsize q = length (waiting q)"
begin

lemma enqueue_order:
  "enqueue s q = Ret (q', err) \<Longrightarrow> \<exists>rest. waiting q' = waiting q @ rest \<and> set rest \<subseteq> {s}"
  using enqueue_effect by fastforce

lemma enqueue_qsize: "enqueue s q = Ret (q', err) \<Longrightarrow> qsize q \<le> qsize q' \<and> qsize q' \<le> Suc (qsize q)"
  using enqueue_effect by (fastforce simp: qsize_waiting)

end

interpretation queue_disconnector: disconnector Enqueue DisconnectQueue_Size dq_disconnect
  by unfold_locales
    (auto simp: Enqueue_def chan_send_def DisconnectQueue_Size_def split: if_splits)

fun pending_sessions :: "Disconnector \<Rightarrow> sref list" where
  "pending_sessions NoopDisconnectQueue = []"
| "pending_sessions (AnyDisconnectQueue d) = dq_disconnect d"

lemma Disconnector_Enqueue_cases:
  "Disconnector_Enqueue s q = Ret (q', err) \<Longrightarrow>
    err = None \<and> (pending_sessions q' = pending_sessions q \<or> pending_sessions q' = pending_sessions q @ [s])"
  by (cases q) (auto simp: go_simps dest: queue_disconnector.enqueue_effect)

interpretation node_disconnector: disconnector Disconnector_Enqueue Disconnector_Size pending_sessions
proof
  show "Disconnector_Enqueue s q \<noteq> Panic e" for s q e
    using queue_disconnector.enqueue_no_panic [of s]
    by (cases q; cases "Enqueue s (case q of AnyDisconnectQueue d \<Rightarrow> d)") auto
  show "Disconnector_Size q = length (pending_sessions q)" for q
    by (cases q) (simp_all add: DisconnectQueue_Size_def)
qed (rule Disconnector_Enqueue_cases)

section \<open>Runs of the queue\<close>

text \<open>
  A queue with the history of its run: the sessions accepted by \<^verbatim>\<open>Enqueue\<close>, those received from the
  channel by either goroutine, and those \<^verbatim>\<open>DisconnectNow\<close> was called for, in order.
\<close>

record QueueRun =
  queue :: DisconnectQueue
  enqueued :: "sref list"
  received :: "sref list"
  called :: "sref list"

definition throttled :: "DisconnectQueue \<Rightarrow> sref list" where
  "throttled d = (case dq_run d of RunThrottle s \<Rightarrow> [s] | _ \<Rightarrow> [])"

inductive queue_step :: "QueueRun \<Rightarrow> QueueRun \<Rightarrow> bool" where
  enqueue: "Enqueue s (queue r) = Ret (d, e) \<Longrightarrow>
    queue_step r (r\<lparr>queue := d, enqueued := enqueued r @ (if dq_isStopped (queue r) then [] else [s])\<rparr>)"
| start: "dq_run (queue r) = RunNotStarted \<Longrightarrow> Run_start (queue r) = Ret d \<Longrightarrow>
    queue_step r (r\<lparr>queue := d\<rparr>)"
| select: "Run_select c (queue r) = Ret d \<Longrightarrow>
    queue_step r (r\<lparr>queue := d, received := received r @ throttled d\<rparr>)"
| tick: "Run_tick (queue r) = Ret (d, s) \<Longrightarrow>
    queue_step r (r\<lparr>queue := d, called := called r @ [s]\<rparr>)"
| shutdown: "Shutdown_start (queue r) = Ret d \<Longrightarrow> queue_step r (r\<lparr>queue := d\<rparr>)"
| drain: "Shutdown_take err (queue r) = Ret (d, s) \<Longrightarrow>
    queue_step r (r\<lparr>queue := d, received := received r @ [s], called := called r @ [s]\<rparr>)"
| timeout: "Shutdown_timeout (queue r) = Ret d \<Longrightarrow> queue_step r (r\<lparr>queue := d\<rparr>)"

definition queue_created :: "QueueRun \<Rightarrow> bool" where
  "queue_created r \<longleftrightarrow> (\<exists>config. NewDisconnectQueue config = Ret (queue r)) \<and>
     enqueued r = [] \<and> received r = [] \<and> called r = []"

definition drain_ok :: "DisconnectQueue \<Rightarrow> bool" where
  "drain_ok d \<longleftrightarrow> (case dq_drain d of
     ShutdownNotCalled \<Rightarrow> \<not> dq_isStopped d \<and> dq_shutdown d = 0
   | ShutdownSelect left \<Rightarrow> dq_isStopped d \<and> 0 < left \<and> length (dq_disconnect d) \<le> left
   | ShutdownReturned e \<Rightarrow> dq_isStopped d \<and> (e = None \<longrightarrow> dq_disconnect d = []))"

definition queue_inv :: "QueueRun \<Rightarrow> bool" where
  "queue_inv r \<longleftrightarrow> received r @ dq_disconnect (queue r) = enqueued r \<and>
     mset (called r) + mset (throttled (queue r)) = mset (received r) \<and>
     length (dq_disconnect (queue r)) \<le> 4096 \<and> drain_ok (queue r)"

lemma drain_ok_run [simp]: "drain_ok (d\<lparr>dq_run := x\<rparr>) = drain_ok d"
  by (simp add: drain_ok_def split: ShutdownPoint.split)

lemma queue_inv_created: "queue_created r \<Longrightarrow> queue_inv r"
  by (cases r)
    (auto simp: queue_created_def queue_inv_def NewDisconnectQueue_def drain_ok_def throttled_def
      split: if_splits)

lemma Run_select_cases:
  assumes "Run_select c d = Ret d'"
  obtains (session) s rest where "dq_run d = RunSelect" "dq_disconnect d = s # rest"
      "d' = d\<lparr>dq_disconnect := rest, dq_run := RunThrottle s\<rparr>"
  | (shutdown) "dq_run d = RunSelect" "0 < dq_shutdown d"
      "d' = d\<lparr>dq_shutdown := dq_shutdown d - 1, dq_run := RunReturned\<rparr>"
proof -
  from assms obtain k where k: "select c (queue_ready d) = Ret k" and run: "dq_run d = RunSelect"
    by (auto simp: Run_select_def go_simps split: if_splits)
  have r: "k \<in> set (queue_ready d)" by (rule select_ready [OF k])
  show thesis
  proof (cases k)
    case (TakeSession s)
    with r obtain rest where "dq_disconnect d = s # rest"
      by (cases "dq_disconnect d") (auto simp: queue_ready_def split: if_splits)
    with assms k run TakeSession show thesis
      by (intro session) (auto simp: Run_select_def)
  next
    case TakeShutdown
    with r have "0 < dq_shutdown d" by (auto simp: queue_ready_def split: if_splits)
    with assms k run TakeShutdown show thesis
      by (intro shutdown) (auto simp: Run_select_def)
  qed
qed

lemma queue_inv_select:
  assumes "queue_inv r" and "Run_select c (queue r) = Ret d"
  shows "queue_inv (r\<lparr>queue := d, received := received r @ throttled d\<rparr>)"
  using assms(2)
proof (cases rule: Run_select_cases)
  case (session s rest)
  with assms(1) show ?thesis
    by (auto simp: queue_inv_def throttled_def drain_ok_def split: ShutdownPoint.splits)
next
  case shutdown
  with assms(1) show ?thesis
    by (auto simp: queue_inv_def throttled_def drain_ok_def split: ShutdownPoint.splits)
qed

lemma queue_inv_drain:
  assumes "queue_inv r" and "Shutdown_take err (queue r) = Ret (d, s)"
  shows "queue_inv (r\<lparr>queue := d, received := received r @ [s], called := called r @ [s]\<rparr>)"
proof -
  from assms(2) obtain left rest where *: "dq_drain (queue r) = ShutdownSelect left"
    "dq_disconnect (queue r) = s # rest"
    "d = (queue r)\<lparr>dq_disconnect := rest, dq_drain := (if err \<noteq> None then ShutdownReturned err
        else if left - 1 = 0 then ShutdownReturned None else ShutdownSelect (left - 1))\<rparr>"
    by (auto simp: Shutdown_take_def split: ShutdownPoint.splits list.splits)
  moreover from assms(1) * have "left - 1 = 0 \<Longrightarrow> rest = []" by (cases rest) (auto simp: queue_inv_def drain_ok_def)
  ultimately show ?thesis
    using assms(1) by (cases err) (auto simp: queue_inv_def throttled_def drain_ok_def)
qed

lemma queue_inv_step:
  assumes inv: "queue_inv r" and "queue_step r r'"
  shows "queue_inv r'"
  using assms(2)
proof cases
  case (enqueue s d e)
  with inv show ?thesis
    by (auto simp: queue_inv_def Enqueue_def go_simps throttled_def drain_ok_def
        split: if_splits ShutdownPoint.splits)
next
  case (select c d)
  with inv show ?thesis by (simp add: queue_inv_select)
next
  case (drain err d s)
  with inv show ?thesis by (simp add: queue_inv_drain)
next
  case (start d)
  with inv show ?thesis
    by (auto simp: queue_inv_def Run_start_def throttled_def split: if_splits)
next
  case (tick d s)
  with inv show ?thesis
    by (auto simp: queue_inv_def Run_tick_def throttled_def split: RunPoint.splits)
next
  case (shutdown d)
  with inv show ?thesis
    by (auto simp: queue_inv_def Shutdown_start_def throttled_def drain_ok_def Let_def
        split: if_splits)
next
  case (timeout d)
  with inv show ?thesis
    by (auto simp: queue_inv_def Shutdown_timeout_def throttled_def drain_ok_def
        split: ShutdownPoint.splits)
qed

interpretation queue_machine: invariant_of queue_created queue_step queue_inv
  by unfold_locales (fact queue_inv_created, fact queue_inv_step)

abbreviation queue_reached :: "QueueRun \<Rightarrow> bool" where
  "queue_reached \<equiv> reachable queue_created queue_step"

section \<open>The rate\<close>

lemma sdiv_pos: "0 < r \<Longrightarrow> 1000 sdiv r = (1000 div r :: int)"
  by (simp add: signed_divide_int_def)

lemma sdiv_1000_nonpos: "r \<noteq> 0 \<Longrightarrow> 1000 sdiv r \<le> 0 \<longleftrightarrow> r < 0 \<or> (1000 :: int) < r"
proof (cases "0 < r")
  case True
  then show ?thesis using pos_imp_zdiv_pos_iff [of r 1000] by (auto simp: sdiv_pos)
next
  case False
  moreover assume "r \<noteq> 0"
  ultimately show ?thesis by (simp add: signed_divide_int_def div_int_pos_iff)
qed

lemma ticks_per_second:
  fixes r :: int
  assumes "0 < r" "r \<le> 1000"
  shows "r \<le> 1000 div (1000 div r)"
proof -
  have q: "0 < 1000 div r" using assms by (simp add: pos_imp_zdiv_pos_iff)
  have "r * (1000 div r) \<le> 1000" using assms by (simp add: minus_mod_eq_mult_div [symmetric])
  then have "r * (1000 div r) div (1000 div r) \<le> 1000 div (1000 div r)"
    using q by (rule zdiv_mono1)
  with q show ?thesis by simp
qed

section \<open>Properties\<close>

text \<open>
  C21. Sessions leave the disconnect queue in the order they were accepted: what the two goroutines
  have received, followed by what is still queued, is the sequence of accepted sessions. Each
  received session has been passed to \<^verbatim>\<open>DisconnectNow\<close> once, except the one \<^verbatim>\<open>Run\<close> may hold until
  its ticker fires.
\<close>

theorem queue_fifo_once:
  assumes "queue_reached r"
  shows "received r @ dq_disconnect (queue r) = enqueued r \<and>
    mset (called r) + mset (throttled (queue r)) = mset (received r)"
  using queue_machine.inv_reachable [OF assms] by (simp add: queue_inv_def)

definition fresh_queue :: DisconnectQueue where
  "fresh_queue = \<lparr>dq_rate = 10, dq_timeout = 5000, dq_disconnect = [], dq_shutdown = 0,
     dq_isStopped = False, dq_run = RunNotStarted, dq_drain = ShutdownNotCalled\<rparr>"

text \<open>One session is enqueued, \<^verbatim>\<open>Shutdown\<close> is called, and \<^verbatim>\<open>Run\<close> receives the session first.\<close>

definition stolen_run :: QueueRun where
  "stolen_run = \<lparr>queue = fresh_queue\<lparr>dq_isStopped := True, dq_shutdown := 1, dq_run := RunSelect,
       dq_drain := ShutdownSelect 1\<rparr>,
     enqueued = [7], received = [7], called = [7]\<rparr>"

lemma fresh_run_reached:
  "queue_reached \<lparr>queue = fresh_queue, enqueued = [], received = [], called = []\<rparr>"
  by (rule reach_init)
    (auto simp: queue_created_def NewDisconnectQueue_def fresh_queue_def signed_divide_int_def
      intro: exI [of _ NewDisconnectQueueConfig] simp: NewDisconnectQueueConfig_def)

lemma one_session_reached:
  "queue_reached \<lparr>queue = fresh_queue\<lparr>dq_disconnect := [7], dq_isStopped := True, dq_shutdown := 1,
       dq_run := RunSelect, dq_drain := ShutdownSelect 1\<rparr>,
     enqueued = [7], received = [], called = []\<rparr>" (is "queue_reached ?r")
proof -
  let ?r1 = "\<lparr>queue = fresh_queue\<lparr>dq_disconnect := [7]\<rparr>, enqueued = [7], received = [], called = []\<rparr>"
  let ?r2 = "?r1\<lparr>queue := fresh_queue\<lparr>dq_disconnect := [7], dq_run := RunSelect\<rparr>\<rparr>"
  have "queue_step \<lparr>queue = fresh_queue, enqueued = [], received = [], called = []\<rparr> ?r1"
    using queue_step.enqueue [of 7 "\<lparr>queue = fresh_queue, enqueued = [], received = [], called = []\<rparr>"
        "fresh_queue\<lparr>dq_disconnect := [7]\<rparr>" None]
    by (simp add: Enqueue_def chan_send_def fresh_queue_def)
  with fresh_run_reached have r1: "queue_reached ?r1" by (rule reach_step)
  have "queue_step ?r1 ?r2"
    using queue_step.start [of ?r1 "fresh_queue\<lparr>dq_disconnect := [7], dq_run := RunSelect\<rparr>"]
    by (simp add: Run_start_def fresh_queue_def)
  with r1 have r2: "queue_reached ?r2" by (rule reach_step)
  have "queue_step ?r2 ?r"
    using queue_step.shutdown [of ?r2 "queue ?r"] by (simp add: Shutdown_start_def fresh_queue_def)
  with r2 show ?thesis by (rule reach_step)
qed

lemma stolen_run_reached: "queue_reached stolen_run"
proof -
  let ?r = "\<lparr>queue = fresh_queue\<lparr>dq_disconnect := [7], dq_isStopped := True, dq_shutdown := 1,
       dq_run := RunSelect, dq_drain := ShutdownSelect 1\<rparr>,
     enqueued = [7], received = [], called = []\<rparr>"
  let ?s = "\<lparr>queue = fresh_queue\<lparr>dq_isStopped := True, dq_shutdown := 1,
       dq_run := RunThrottle 7, dq_drain := ShutdownSelect 1\<rparr>,
     enqueued = [7], received = [7], called = []\<rparr>"
  have "queue_step ?r ?s"
    using queue_step.select [of 0 ?r "queue ?s"]
    by (simp add: Run_select_def select_def queue_ready_def throttled_def fresh_queue_def)
  with one_session_reached have s: "queue_reached ?s" by (rule reach_step)
  have "queue_step ?s stolen_run"
    using queue_step.tick [of ?s "queue stolen_run" 7]
    by (simp add: Run_tick_def fresh_queue_def stolen_run_def)
  with s show ?thesis by (rule reach_step)
qed

theorem queue_fifo_once_witness: "received stolen_run @ [] = enqueued stolen_run \<and> called stolen_run = [7]"
  using queue_fifo_once [OF stolen_run_reached] by (simp add: stolen_run_def fresh_queue_def)

text \<open>
  C22. When \<^verbatim>\<open>Shutdown\<close> has returned without an error, the queue is empty, nothing can be added to it
  any more, and every session that was ever accepted has been passed to \<^verbatim>\<open>DisconnectNow\<close> once, except
  the one \<^verbatim>\<open>Run\<close> may still hold.
\<close>

theorem shutdown_drains:
  assumes "queue_reached r" and "dq_drain (queue r) = ShutdownReturned None"
  shows "dq_disconnect (queue r) = [] \<and> Enqueue s (queue r) = Ret (queue r, None) \<and>
    mset (called r) + mset (throttled (queue r)) = mset (enqueued r)"
  using queue_machine.inv_reachable [OF assms(1)] assms(2)
  by (auto simp: queue_inv_def drain_ok_def Enqueue_def)

theorem shutdown_drains_witness:
  "\<exists>r. queue_reached r \<and> dq_drain (queue r) = ShutdownReturned None \<and> mset (called r) = {#7#} \<and>
     mset (called r) + mset (throttled (queue r)) = mset (enqueued r)"
proof -
  let ?r = "\<lparr>queue = fresh_queue\<lparr>dq_isStopped := True, dq_shutdown := 1, dq_run := RunSelect,
       dq_drain := ShutdownReturned None\<rparr>,
     enqueued = [7], received = [7], called = [7]\<rparr>"
  have "queue_step \<lparr>queue = fresh_queue\<lparr>dq_disconnect := [7], dq_isStopped := True, dq_shutdown := 1,
       dq_run := RunSelect, dq_drain := ShutdownSelect 1\<rparr>,
     enqueued = [7], received = [], called = []\<rparr> ?r"
    using queue_step.drain [of None "\<lparr>queue = fresh_queue\<lparr>dq_disconnect := [7], dq_isStopped := True,
        dq_shutdown := 1, dq_run := RunSelect, dq_drain := ShutdownSelect 1\<rparr>,
        enqueued = [7], received = [], called = []\<rparr>" "queue ?r" 7]
    by (simp add: Shutdown_take_def fresh_queue_def)
  with one_session_reached have r: "queue_reached ?r" by (rule reach_step)
  have "dq_drain (queue ?r) = ShutdownReturned None" "mset (called ?r) = {#7#}" by simp_all
  with r shutdown_drains [OF r] show ?thesis by blast
qed

text \<open>
  \<^verbatim>\<open>Shutdown\<close> can report that it had no time although every call was made. When \<^verbatim>\<open>Run\<close> receives a
  session that \<^verbatim>\<open>Shutdown\<close> has counted, \<^verbatim>\<open>Shutdown\<close> waits for a session that never comes: in this
  reachable state all accepted sessions have been called, receiving blocks, and the only way out is
  the timeout with its error.
\<close>

theorem shutdown_false_timeout:
  "queue_reached stolen_run \<and> called stolen_run = enqueued stolen_run \<and>
   (\<forall>err. Shutdown_take err (queue stolen_run) = Block) \<and>
   (\<exists>d. Shutdown_timeout (queue stolen_run) = Ret d \<and>
      dq_drain d = ShutdownReturned (Some (had_no_time 0)))"
  using stolen_run_reached
  by (simp add: stolen_run_def Shutdown_take_def Shutdown_timeout_def fresh_queue_def)

text \<open>
  What the configured rate does. A rate of zero makes the constructor panic; a negative rate or
  one above 1000 makes \<^verbatim>\<open>Run\<close> panic; for the others the interval is 1000 divided by the rate,
  rounded down to a millisecond, so that the number of calls the ticker allows in a second is at
  least the configured rate and may exceed it.
\<close>

theorem disconnect_rate:
  "(cfg_Rate config = 0 \<longrightarrow> NewDisconnectQueue config = Panic ''integer divide by zero'') \<and>
   (NewDisconnectQueue config = Ret d \<longrightarrow>
     (Run_start d = Panic ''non-positive interval for NewTicker'' \<longleftrightarrow>
        cfg_Rate config < 0 \<or> 1000 < cfg_Rate config) \<and>
     (0 < cfg_Rate config \<and> cfg_Rate config \<le> 1000 \<longrightarrow>
        dq_rate d = 1000 div cfg_Rate config \<and> cfg_Rate config \<le> 1000 div dq_rate d))"
proof (cases "cfg_Rate config = 0")
  case False
  let ?R = "cfg_Rate config"
  have "1000 sdiv ?R \<le> 0 \<longleftrightarrow> ?R < 0 \<or> 1000 < ?R"
    by (simp add: sdiv_1000_nonpos False)
  with False ticks_per_second [of ?R] show ?thesis
    by (auto simp: NewDisconnectQueue_def Run_start_def sdiv_pos)
qed (simp add: NewDisconnectQueue_def)

theorem disconnect_rate_witness:
  "\<exists>d. NewDisconnectQueue \<lparr>cfg_Rate = 600, cfg_ShutdownTimeout = 5\<rparr> = Ret d \<and> dq_rate d = 1 \<and>
     1000 div dq_rate d = 1000 \<and> Run_start d \<noteq> Panic ''non-positive interval for NewTicker''"
proof -
  let ?c = "\<lparr>cfg_Rate = 600, cfg_ShutdownTimeout = 5\<rparr>"
  obtain d where d: "NewDisconnectQueue ?c = Ret d" by (simp add: NewDisconnectQueue_def)
  with disconnect_rate [of ?c d] show ?thesis by auto
qed

end
