(* ===== verification/Metrics.thy ===== *)
theory Metrics
  imports Common Encoding "HOL-Library.Word"
begin

text \<open>
  Counters, gauges and their registry, from \<^verbatim>\<open>metrics/counter.go\<close>, \<^verbatim>\<open>metrics/gauge.go\<close>,
  \<^verbatim>\<open>metrics/metrics.go\<close> and \<^verbatim>\<open>metrics/prometheus.go\<close>. Values are \<^verbatim>\<open>uint64\<close> and wrap
  around; the atomic operations are single steps.
\<close>

section \<open>Counters\<close>

record Counter =
  c_name :: string
  c_desc :: string
  c_value :: "64 word"
  lastIntervalValue :: "64 word"
  lastIntervalDelta :: "64 word"

definition NewCounter :: "string \<Rightarrow> string \<Rightarrow> Counter" where
  "NewCounter name desc = \<lparr>c_name = name, c_desc = desc, c_value = 0,
     lastIntervalValue = 0, lastIntervalDelta = 0\<rparr>"

definition Counter_Value :: "Counter \<Rightarrow> 64 word" where
  "Counter_Value c = c_value c"

definition Counter_IntervalValue :: "Counter \<Rightarrow> 64 word" where
  "Counter_IntervalValue c =
     (if lastIntervalValue c = 0 then Counter_Value c else lastIntervalDelta c)"

definition Counter_Add :: "64 word \<Rightarrow> Counter \<Rightarrow> Counter" where
  "Counter_Add n c = c\<lparr>c_value := c_value c + n\<rparr>"

definition Counter_Inc :: "Counter \<Rightarrow> Counter" where
  "Counter_Inc c = Counter_Add 1 c"

definition Counter_UpdateDelta :: "Counter \<Rightarrow> Counter" where
  "Counter_UpdateDelta c =
     (let now = c_value c in
      c\<lparr>lastIntervalDelta := now - lastIntervalValue c, lastIntervalValue := now\<rparr>)"

section \<open>Gauges\<close>

record Gauge =
  g_value :: "64 word"
  g_name :: string
  g_desc :: string

definition NewGauge :: "string \<Rightarrow> string \<Rightarrow> Gauge" where
  "NewGauge name desc = \<lparr>g_value = 0, g_name = name, g_desc = desc\<rparr>"

definition Gauge_Set :: "int \<Rightarrow> Gauge \<Rightarrow> Gauge" where
  "Gauge_Set v g = g\<lparr>g_value := word_of_int v\<rparr>"

definition Gauge_Inc :: "Gauge \<Rightarrow> Gauge" where
  "Gauge_Inc g = g\<lparr>g_value := g_value g + 1\<rparr>"

definition Gauge_Dec :: "Gauge \<Rightarrow> Gauge" where
  "Gauge_Dec g = g\<lparr>g_value := g_value g + (- 1)\<rparr>"

definition Gauge_Set64 :: "64 word \<Rightarrow> Gauge \<Rightarrow> Gauge" where
  "Gauge_Set64 v g = g\<lparr>g_value := v\<rparr>"

section \<open>The registry\<close>

record Metrics =
  counters :: "(string, Counter) gomap"
  gauges :: "(string, Gauge) gomap"

definition RegisterCounter :: "string \<Rightarrow> string \<Rightarrow> Metrics \<Rightarrow> Metrics" where
  "RegisterCounter name desc m = m\<lparr>counters := mput name (NewCounter name desc) (counters m)\<rparr>"

definition RegisterGauge :: "string \<Rightarrow> string \<Rightarrow> Metrics \<Rightarrow> Metrics" where
  "RegisterGauge name desc m = m\<lparr>gauges := mput name (NewGauge name desc) (gauges m)\<rparr>"

text \<open>
  \<^verbatim>\<open>m.Counter(name).Add(n)\<close>: the lookup gives a nil pointer for a name that was never
  registered, and the method call on it panics.
\<close>

definition counter_add :: "string \<Rightarrow> 64 word \<Rightarrow> Metrics \<Rightarrow> Metrics go" where
  "counter_add name n m = (case map_of (counters m) name of
     None \<Rightarrow> Panic nil_deref
   | Some c \<Rightarrow> Ret (m\<lparr>counters := mput name (Counter_Add n c) (counters m)\<rparr>))"

abbreviation counter_inc :: "string \<Rightarrow> Metrics \<Rightarrow> Metrics go" where
  "counter_inc name \<equiv> counter_add name 1"

definition with_gauge :: "string \<Rightarrow> (Gauge \<Rightarrow> Gauge) \<Rightarrow> Metrics \<Rightarrow> Metrics go" where
  "with_gauge name f m = (case map_of (gauges m) name of
     None \<Rightarrow> Panic nil_deref
   | Some g \<Rightarrow> Ret (m\<lparr>gauges := mput name (f g) (gauges m)\<rparr>))"

definition IntervalSnapshot :: "Metrics \<Rightarrow> (string, 64 word) gomap" where
  "IntervalSnapshot m =
     fold (\<lambda>(name, g) s. mput name (g_value g) s) (gauges m)
       (fold (\<lambda>(name, c) s. mput name (Counter_IntervalValue c) s) (counters m) [])"

definition rotate_metrics :: "Metrics \<Rightarrow> Metrics" where
  "rotate_metrics m = m\<lparr>counters := map (\<lambda>(name, c). (name, Counter_UpdateDelta c)) (counters m)\<rparr>"

section \<open>Prometheus output\<close>

definition prometheusNamespace :: string where
  "prometheusNamespace = ''anycable_go''"

definition prometheus_entry :: "string \<Rightarrow> string \<Rightarrow> string \<Rightarrow> 64 word \<Rightarrow> string" where
  "prometheus_entry kind metric desc v =
     (let name = prometheusNamespace @ ''_'' @ metric; nl = [CHR 0x0A] in
      nl @ ''# HELP '' @ name @ '' '' @ desc @ nl @
      ''# TYPE '' @ name @ '' '' @ kind @ nl @
      name @ '' '' @ nat_text (unat v) @ nl)"

definition Prometheus :: "Metrics \<Rightarrow> string" where
  "Prometheus m =
     concat (map (\<lambda>(_, c). prometheus_entry ''counter'' (c_name c) (c_desc c) (c_value c)) (counters m)) @
     concat (map (\<lambda>(_, g). prometheus_entry ''gauge'' (g_name g) (g_desc g) (g_value g)) (gauges m))"

section \<open>Registered metrics\<close>

definition has_counter :: "Metrics \<Rightarrow> string \<Rightarrow> bool" where
  "has_counter m name \<longleftrightarrow> mhas (counters m) name"

lemma counter_add_returns:
  "returns (counter_add name n m) \<longleftrightarrow> has_counter m name"
  by (auto simp: counter_add_def has_counter_def mhas_def split: option.splits)

lemma counter_add_Ret_iff:
  "counter_add name n m = Ret m' \<longleftrightarrow>
   (\<exists>c. map_of (counters m) name = Some c \<and>
        m' = m\<lparr>counters := mput name (Counter_Add n c) (counters m)\<rparr>)"
  by (auto simp: counter_add_def split: option.splits)

lemma counter_add_no_block [simp]: "counter_add name n m \<noteq> Block"
  by (simp add: counter_add_def split: option.splits)

lemma counter_add_keeps:
  "counter_add name n m = Ret m' \<Longrightarrow> has_counter m' x \<longleftrightarrow> has_counter m x"
  by (auto simp: counter_add_Ret_iff has_counter_def gomap_simps mhas_SomeI)

end
