(* ===== verification/Session.thy ===== *)
theory Session
  imports Disconnect_Queue Metrics
begin

text \<open>
  A client session (\<^verbatim>\<open>node/session.go\<close>) and the node it belongs to (the struct of
  \<^verbatim>\<open>node/node.go\<close>). Sessions live in a heap of the node, since the hub, the disconnect queue and the
  goroutines of a session share them by pointer.

  The channel \<^verbatim>\<open>sendCh\<close> is three fields: whether the session's pointer to it is set, the frames in
  its buffer and whether it was closed. The goroutine of \<^verbatim>\<open>SendMessages\<close> keeps its own pointer and
  goes on reading after the session's pointer is nil. A send on a closed channel and a second close
  are panics, as in Go. What reaches the client is the list of calls on its connection; whether a
  write succeeds is an argument.
\<close>

section \<open>State\<close>

datatype ConnCall = ConnWrite string | ConnWriteBinary string | ConnClose int string

text \<open>Who handles the commands of a session: the node, or another object, by its number.\<close>

datatype Executor = NodeExecutor | CustomExecutor nat

record Session =
  encoder :: Encoder
  executor :: Executor
  env :: SessionEnv
  subscriptions :: "(string, bool) gomap"
  closed :: bool
  sendCh :: bool
  sendBuf :: "SentFrame list"
  sendClosed :: bool
  sender_running :: bool
  pingTimer :: bool
  pingInterval :: int
  pingTimestampPrecision :: string
  UID :: string
  Identifiers :: string
  Connected :: bool
  conn :: "ConnCall list"

record Config =
  PingInterval :: int
  StatsRefreshInterval :: int
  HubGopoolSize :: int
  PingTimestampPrecision :: string

definition NewConfig :: Config where
  "NewConfig = \<lparr>PingInterval = 3, StatsRefreshInterval = 5, HubGopoolSize = 16,
     PingTimestampPrecision = ''s''\<rparr>"

record Node =
  node_Metrics :: Metrics
  config :: Config
  hub :: Hub
  disconnector :: "Disconnector option"
  shutdownCh :: bool
  heap :: "sref \<Rightarrow> Session"
  next_session :: sref

definition on_session :: "sref \<Rightarrow> (Session \<Rightarrow> Session) \<Rightarrow> Node \<Rightarrow> Node" where
  "on_session s f n = n\<lparr>heap := (heap n)(s := f (heap n s))\<rparr>"

section \<open>Counters and gauges\<close>

definition metricsFailedAuths :: string where "metricsFailedAuths = ''failed_auths_total''"

definition metricsReceivedMsg :: string where "metricsReceivedMsg = ''client_msg_total''"

definition metricsFailedCommandReceived :: string where
  "metricsFailedCommandReceived = ''failed_client_msg_total''"

definition metricsBroadcastMsg :: string where "metricsBroadcastMsg = ''broadcast_msg_total''"

definition metricsUnknownBroadcast :: string where
  "metricsUnknownBroadcast = ''failed_broadcast_msg_total''"

definition metricsSentMsg :: string where "metricsSentMsg = ''server_msg_total''"

definition metricsFailedSent :: string where "metricsFailedSent = ''failed_server_msg_total''"

definition metricsDataSent :: string where "metricsDataSent = ''data_sent_total''"

definition metricsDataReceived :: string where "metricsDataReceived = ''data_rcvd_total''"

lemmas counter_names =
  metricsFailedAuths_def metricsReceivedMsg_def metricsFailedCommandReceived_def
  metricsBroadcastMsg_def metricsUnknownBroadcast_def metricsSentMsg_def metricsFailedSent_def
  metricsDataSent_def metricsDataReceived_def

definition metricsGoroutines :: string where "metricsGoroutines = ''goroutines_num''"

definition metricsMemSys :: string where "metricsMemSys = ''mem_sys_bytes''"

definition metricsClientsNum :: string where "metricsClientsNum = ''clients_num''"

definition metricsUniqClientsNum :: string where "metricsUniqClientsNum = ''clients_uniq_num''"

definition metricsStreamsNum :: string where "metricsStreamsNum = ''broadcast_streams_num''"

definition metricsDisconnectQueue :: string where "metricsDisconnectQueue = ''disconnect_queue_size''"

lemmas gauge_names = metricsGoroutines_def metricsMemSys_def metricsClientsNum_def
  metricsUniqClientsNum_def metricsStreamsNum_def metricsDisconnectQueue_def

definition add_counter :: "string \<Rightarrow> 64 word \<Rightarrow> Node \<Rightarrow> Node go" where
  "add_counter name k n = gbind (counter_add name k (node_Metrics n)) (\<lambda>m. Ret (n\<lparr>node_Metrics := m\<rparr>))"

section \<open>Creation\<close>

definition addPing :: "sref \<Rightarrow> Node \<Rightarrow> Node" where
  "addPing s = on_session s (\<lambda>x. x\<lparr>pingTimer := True\<rparr>)"

text \<open>\<^verbatim>\<open>NewSession\<close>, whose default encoder is the argument; it starts the sender and the ping timer.\<close>

definition NewSession ::
  "Encoder \<Rightarrow> string \<Rightarrow> (string, string) gomap option \<Rightarrow> string \<Rightarrow> Node \<Rightarrow> sref \<times> Node" where
  "NewSession enc url headers uid n =
     (let s = next_session n;
          x = \<lparr>encoder = enc, executor = NodeExecutor, env = NewSessionEnv url headers,
               subscriptions = [], closed = False, sendCh = True, sendBuf = [], sendClosed = False, sender_running = True,
               pingTimer = False, pingInterval = PingInterval (config n),
               pingTimestampPrecision = PingTimestampPrecision (config n),
               UID = uid, Identifiers = [], Connected = False, conn = []\<rparr>
      in (s, addPing s (n\<lparr>heap := (heap n)(s := x), next_session := Suc s\<rparr>)))"

definition SetEncoder :: "Encoder \<Rightarrow> sref \<Rightarrow> Node \<Rightarrow> Node" where
  "SetEncoder enc s = on_session s (\<lambda>x. x\<lparr>encoder := enc\<rparr>)"

definition SetExecutor :: "Executor \<Rightarrow> sref \<Rightarrow> Node \<Rightarrow> Node" where
  "SetExecutor ex s = on_session s (\<lambda>x. x\<lparr>executor := ex\<rparr>)"

definition GetEnv :: "sref \<Rightarrow> Node \<Rightarrow> SessionEnv" where
  "GetEnv s n = env (heap n s)"

definition SetEnv :: "SessionEnv \<Rightarrow> sref \<Rightarrow> Node \<Rightarrow> Node" where
  "SetEnv e s = on_session s (\<lambda>x. x\<lparr>env := e\<rparr>)"

definition MergeEnv :: "SessionEnv \<Rightarrow> sref \<Rightarrow> Node \<Rightarrow> Node go" where
  "MergeEnv other s n =
     gbind (case ConnectionState other of
              None \<Rightarrow> Ret (env (heap n s))
            | Some cs \<Rightarrow> MergeConnectionState (env (heap n s)) cs)
       (\<lambda>e. gbind (case ChannelStates other of
              None \<Rightarrow> Ret e
            | Some states \<Rightarrow> gfor states (\<lambda>(ident, state) e. MergeChannelState e ident state) e)
       (\<lambda>e. Ret (SetEnv e s n)))"

section \<open>Disconnecting\<close>

definition Node_Disconnect :: "sref \<Rightarrow> Node \<Rightarrow> (Node \<times> error option) go" where
  "Node_Disconnect s n = gbind (RemoveSession s (hub n)) (\<lambda>h.
     case disconnector n of
       None \<Rightarrow> Panic nil_deref
     | Some d \<Rightarrow> gbind (Disconnector_Enqueue s d) (\<lambda>(d, err).
         Ret (n\<lparr>hub := h, disconnector := Some d\<rparr>, err)))"

text \<open>The deferred call runs after \<^verbatim>\<open>Connected\<close> was cleared.\<close>

definition disconnectFromNode :: "sref \<Rightarrow> Node \<Rightarrow> Node go" where
  "disconnectFromNode s n =
     (if Connected (heap n s)
      then gbind (Node_Disconnect s (on_session s (\<lambda>x. x\<lparr>Connected := False\<rparr>) n)) (\<lambda>(n, _). Ret n)
      else Ret (on_session s (\<lambda>x. x\<lparr>Connected := False\<rparr>) n))"

definition close_session :: "sref \<Rightarrow> Node \<Rightarrow> Node" where
  "close_session s n =
     (if closed (heap n s) then n
      else on_session s (\<lambda>x. x\<lparr>closed := True, pingTimer := False\<rparr>) n)"

definition close_frame :: "string \<Rightarrow> int \<Rightarrow> SentFrame" where
  "close_frame reason code =
     \<lparr>FrameType = CloseFrame, Payload = [], CloseCode = code, CloseReason = reason\<rparr>"

text \<open>\<^verbatim>\<open>close(s.sendCh); s.sendCh = nil\<close> where the pointer is set.\<close>

definition drop_channel :: "sref \<Rightarrow> Node \<Rightarrow> Node go" where
  "drop_channel s n =
     (if sendClosed (heap n s) then Panic ''close of closed channel''
      else Ret (on_session s (\<lambda>x. x\<lparr>sendClosed := True, sendCh := False\<rparr>) n))"

lemma heap_on_session [simp]: "heap (on_session s f n) = (heap n)(s := f (heap n s))"
  by (simp add: on_session_def)

lemma disconnectFromNode_session:
  "disconnectFromNode s n = Ret n' \<Longrightarrow> heap n' = (heap n)(s := (heap n s)\<lparr>Connected := False\<rparr>)"
  by (auto simp: disconnectFromNode_def Node_Disconnect_def go_simps split: if_splits option.splits)

lemma gbind_cong [fundef_cong]:
  "m = m' \<Longrightarrow> (\<And>x. m' = Ret x \<Longrightarrow> f x = g x) \<Longrightarrow> gbind m f = gbind m' g"
  by (cases m') auto

text \<open>
  \<^verbatim>\<open>sendFrame\<close> disconnects the session when the buffer is full, and \<^verbatim>\<open>Disconnect\<close> sends a close
  frame; by then the pointer is nil and the inner send returns at once.
\<close>

function sendFrame :: "SentFrame \<Rightarrow> sref \<Rightarrow> Node \<Rightarrow> Node go"
  and Disconnect :: "string \<Rightarrow> int \<Rightarrow> sref \<Rightarrow> Node \<Rightarrow> Node go" where
  "sendFrame f s n =
     (if \<not> sendCh (heap n s) then Ret n
      else if sendClosed (heap n s) then Panic ''send on closed channel''
      else if length (sendBuf (heap n s)) < 256
      then Ret (on_session s (\<lambda>x. x\<lparr>sendBuf := sendBuf x @ [f]\<rparr>) n)
      else gbind (drop_channel s n) (Disconnect ''Write failed'' CloseAbnormalClosure s))"
| "Disconnect reason code s n =
     gbind (disconnectFromNode s n) (\<lambda>n.
     gbind (sendFrame (close_frame reason code) s n) (\<lambda>n.
     Ret (close_session s n)))"
  by pat_completeness auto

termination
  by (relation "measure (case_sum (\<lambda>(f, s, n). if sendCh (heap n s) then 2 else 0)
      (\<lambda>(reason, code, s, n). if sendCh (heap n s) then 3 else 1))")
    (auto simp: drop_channel_def dest: disconnectFromNode_session split: if_splits)

declare sendFrame.simps [simp del] Disconnect.simps [simp del]

definition sendClose :: "string \<Rightarrow> int \<Rightarrow> sref \<Rightarrow> Node \<Rightarrow> Node go" where
  "sendClose reason code = sendFrame (close_frame reason code)"

section \<open>Writing\<close>

text \<open>\<open>werr\<close> is the error of the connection's write.\<close>

definition writeFrameWithDeadline ::
  "error option \<Rightarrow> SentFrame \<Rightarrow> sref \<Rightarrow> Node \<Rightarrow> (Node \<times> error option) go" where
  "writeFrameWithDeadline werr f s n =
     gbind (add_counter metricsDataSent (of_nat (length (Payload f))) n) (\<lambda>n.
     case FrameType f of
       TextFrame \<Rightarrow> Ret (on_session s (\<lambda>x. x\<lparr>conn := conn x @ [ConnWrite (Payload f)]\<rparr>) n, werr)
     | BinaryFrame \<Rightarrow>
         Ret (on_session s (\<lambda>x. x\<lparr>conn := conn x @ [ConnWriteBinary (Payload f)]\<rparr>) n, werr)
     | CloseFrame \<Rightarrow>
         Ret (on_session s (\<lambda>x. x\<lparr>conn := conn x @ [ConnClose (CloseCode f) (CloseReason f)]\<rparr>) n,
              Some (Err ''Closed''))
     | OtherFrame _ \<Rightarrow> Ret (n, Some (Err ''Unknown frame type'')))"

definition writeFrame ::
  "error option \<Rightarrow> SentFrame \<Rightarrow> sref \<Rightarrow> Node \<Rightarrow> (Node \<times> error option) go" where
  "writeFrame = writeFrameWithDeadline"

definition disconnectNow :: "string \<Rightarrow> int \<Rightarrow> sref \<Rightarrow> Node \<Rightarrow> Node go" where
  "disconnectNow reason code s n =
     gbind (disconnectFromNode s n) (\<lambda>n.
     gbind (writeFrame None (close_frame reason code) s n) (\<lambda>(n, _).
     gbind (if sendCh (heap n s) then drop_channel s n else Ret n) (\<lambda>n.
     Ret (close_session s n))))"

text \<open>
  One turn of the loop of \<^verbatim>\<open>SendMessages\<close>, which waits for a frame. It ends when a write fails or
  the channel is closed and empty; the deferred \<^verbatim>\<open>disconnectNow\<close> then runs.
\<close>

definition SendMessages_turn :: "error option \<Rightarrow> sref \<Rightarrow> Node \<Rightarrow> Node go" where
  "SendMessages_turn werr s n =
     (let finish = (\<lambda>n. disconnectNow ''Write Failed'' CloseAbnormalClosure s
                          (on_session s (\<lambda>x. x\<lparr>sender_running := False\<rparr>) n))
      in if \<not> sender_running (heap n s) then Block
      else case sendBuf (heap n s) of
        [] \<Rightarrow> if sendClosed (heap n s) then finish n else Block
      | f # fs \<Rightarrow>
          gbind (writeFrame werr f s (on_session s (\<lambda>x. x\<lparr>sendBuf := fs\<rparr>) n)) (\<lambda>(n, err).
          if err \<noteq> None then gbind (add_counter metricsFailedSent 1 n) finish
          else add_counter metricsSentMsg 1 n))"

section \<open>Sending messages\<close>

text \<open>What \<^verbatim>\<open>Send\<close> is given: a message, or one that carries a cache of its encodings.\<close>

datatype OutMessage = Plain EncodedMessage | Cached CachedEncodedMessage

fun encodeMessage :: "Encoder \<Rightarrow> OutMessage \<Rightarrow> (SentFrame result \<times> OutMessage) go" where
  "encodeMessage e (Plain m) = gbind (enc_Encode e m) (\<lambda>r. Ret (r, Plain m))"
| "encodeMessage e (Cached cm) =
     gbind (CachedEncodedMessage_Fetch cm (enc_ID e) (enc_Encode e)) (\<lambda>(r, cm). Ret (r, Cached cm))"

text \<open>A frame is sent when encoding gave one; an encoding error is only logged.\<close>

definition send_result :: "SentFrame result \<Rightarrow> sref \<Rightarrow> Node \<Rightarrow> Node go" where
  "send_result r s n = (case r of (Some b, None) \<Rightarrow> sendFrame b s n | _ \<Rightarrow> Ret n)"

definition Send :: "OutMessage \<Rightarrow> sref \<Rightarrow> Node \<Rightarrow> (Node \<times> OutMessage) go" where
  "Send msg s n =
     gbind (encodeMessage (encoder (heap n s)) msg) (\<lambda>(r, msg).
     gbind (send_result r s n) (\<lambda>n. Ret (n, msg)))"

definition SendJSONTransmission :: "string \<Rightarrow> sref \<Rightarrow> Node \<Rightarrow> Node go" where
  "SendJSONTransmission msg s n =
     send_result (enc_EncodeTransmission (encoder (heap n s)) msg) s n"

section \<open>Ping\<close>

text \<open>\<open>now\<close> is the time in nanoseconds since the epoch.\<close>

definition newPingMessage :: "int \<Rightarrow> string \<Rightarrow> PingMessage" where
  "newPingMessage now fmt =
     (let ts = (if fmt = ''ns'' then now
                else if fmt = ''ms'' then now div 1000000
                else now div 1000000000)
      in \<lparr>ping_Type = ''ping'', ping_Message = ts\<rparr>)"

definition sendPing :: "int \<Rightarrow> error option \<Rightarrow> sref \<Rightarrow> Node \<Rightarrow> Node go" where
  "sendPing now werr s n =
     (if closed (heap n s) then Ret n
      else gbind (encodeMessage (encoder (heap n s))
                    (Plain (MPing (newPingMessage now (pingTimestampPrecision (heap n s)))))) (\<lambda>((b, err), _).
           gbind (if err \<noteq> None then Ret (n, err)
                  else case b of None \<Rightarrow> Ret (n, None) | Some f \<Rightarrow> writeFrameWithDeadline werr f s n)
                 (\<lambda>(n, err).
           if err \<noteq> None then Disconnect ''Ping failed'' CloseAbnormalClosure s n
           else Ret (addPing s n))))"

section \<open>Well-formed nodes\<close>

text \<open>
  A session's pointer to its channel is nil once the channel is closed, the buffer is within its
  capacity, its encoder keeps the contract of encoders and its environment has both state maps. The
  node's counters and gauges are registered and it has a disconnector.
\<close>

definition env_ok :: "SessionEnv \<Rightarrow> bool" where
  "env_ok e \<longleftrightarrow> ConnectionState e \<noteq> None \<and> ChannelStates e \<noteq> None"

definition session_ok :: "Session \<Rightarrow> bool" where
  "session_ok x \<longleftrightarrow> (sendCh x \<longrightarrow> \<not> sendClosed x) \<and> length (sendBuf x) \<le> 256 \<and>
     frame_encoder (encoder x) \<and> env_ok (env x)"

definition counters_ok :: "Metrics \<Rightarrow> bool" where
  "counters_ok m \<longleftrightarrow> (\<forall>name \<in> {metricsFailedAuths, metricsReceivedMsg, metricsFailedCommandReceived,
     metricsBroadcastMsg, metricsUnknownBroadcast, metricsSentMsg, metricsFailedSent,
     metricsDataSent, metricsDataReceived}. has_counter m name)"

definition gauges_ok :: "Metrics \<Rightarrow> bool" where
  "gauges_ok m \<longleftrightarrow> (\<forall>name \<in> {metricsGoroutines, metricsMemSys, metricsClientsNum, metricsUniqClientsNum,
     metricsStreamsNum, metricsDisconnectQueue}. mhas (gauges m) name)"

definition node_ok :: "Node \<Rightarrow> bool" where
  "node_ok n \<longleftrightarrow> counters_ok (node_Metrics n) \<and> gauges_ok (node_Metrics n) \<and> disconnector n \<noteq> None \<and>
     hub_ok (hub n) \<and> (\<forall>s. session_ok (heap n s))"

named_theorems node_safe

lemma node_ok_session: "node_ok n \<Longrightarrow> session_ok (heap n s)"
  by (simp add: node_ok_def)

lemma node_ok_on_session:
  "node_ok n \<Longrightarrow> session_ok (f (heap n s)) \<Longrightarrow> node_ok (on_session s f n)"
  by (simp add: node_ok_def on_session_def)

text \<open>Updates that the well-formedness of a session does not see.\<close>

lemma session_ok_updates [simp]:
  "session_ok (x\<lparr>Connected := b\<rparr>) = session_ok x"
  "session_ok (x\<lparr>closed := b\<rparr>) = session_ok x"
  "session_ok (x\<lparr>executor := ex\<rparr>) = session_ok x"
  "session_ok (x\<lparr>pingTimer := b\<rparr>) = session_ok x"
  "session_ok (x\<lparr>sender_running := b\<rparr>) = session_ok x"
  "session_ok (x\<lparr>subscriptions := subs'\<rparr>) = session_ok x"
  "session_ok (x\<lparr>Identifiers := i\<rparr>) = session_ok x"
  "session_ok (x\<lparr>conn := cs\<rparr>) = session_ok x"
  by (simp_all add: session_ok_def)

lemma add_counter_safe [node_safe]:
  assumes "node_ok n" and "name \<in> {metricsFailedAuths, metricsReceivedMsg, metricsFailedCommandReceived,
     metricsBroadcastMsg, metricsUnknownBroadcast, metricsSentMsg, metricsFailedSent,
     metricsDataSent, metricsDataReceived}"
  shows "safely node_ok (add_counter name k n)"
proof -
  from assms have "returns (counter_add name k (node_Metrics n))"
    by (auto simp: counter_add_returns node_ok_def counters_ok_def)
  then obtain m where m: "counter_add name k (node_Metrics n) = Ret m" by (auto simp: returns_def)
  then have "gauges_ok m = gauges_ok (node_Metrics n)" by (auto simp: counter_add_Ret_iff gauges_ok_def)
  with assms(1) m counter_add_keeps [OF m] show ?thesis
    by (simp add: add_counter_def node_ok_def counters_ok_def)
qed

lemma RemoveSession_safe: "hub_ok h \<Longrightarrow> safely hub_ok (RemoveSession s h)"
  using hub_ok_step [OF _ request_register, of h s]
  by (auto simp: safely_iff RemoveSession_def chan_send_def)

lemma Node_Disconnect_safe [node_safe]:
  assumes "node_ok n"
  shows "safely (\<lambda>(n, err). node_ok n \<and> err = None) (Node_Disconnect s n)"
proof -
  from assms obtain d where d: "disconnector n = Some d" by (auto simp: node_ok_def)
  have "safely (\<lambda>(d, err). err = None) (Disconnector_Enqueue s d)"
    using node_disconnector.enqueue_no_panic node_disconnector.enqueue_effect
    by (fastforce simp: safely_iff)
  moreover have "safely hub_ok (RemoveSession s (hub n))"
    using assms by (simp add: RemoveSession_safe node_ok_def)
  ultimately show ?thesis
    unfolding Node_Disconnect_def d
    using assms by (auto simp: node_ok_def split: prod.splits intro!: safely_gbindI)
qed

lemma disconnectFromNode_safe [node_safe]:
  "node_ok n \<Longrightarrow> safely node_ok (disconnectFromNode s n)"
  unfolding disconnectFromNode_def
  by (auto intro!: safely_gbindI [OF Node_Disconnect_safe] node_ok_on_session intro: node_ok_session)

lemma close_session_ok: "node_ok n \<Longrightarrow> node_ok (close_session s n)"
  by (simp add: close_session_def node_ok_on_session node_ok_session)

lemma drop_channel_safe:
  assumes "node_ok n" and "sendCh (heap n s)"
  shows "safely (\<lambda>n. node_ok n \<and> \<not> sendCh (heap n s)) (drop_channel s n)"
  using assms node_ok_session [OF assms(1), of s]
  by (auto simp: drop_channel_def session_ok_def intro!: node_ok_on_session)

lemma sendFrame_nil [simp]: "\<not> sendCh (heap n s) \<Longrightarrow> sendFrame f s n = Ret n"
  by (simp add: sendFrame.simps)

lemma sendFrame_room:
  "sendCh (heap n s) \<Longrightarrow> \<not> sendClosed (heap n s) \<Longrightarrow> length (sendBuf (heap n s)) < 256 \<Longrightarrow>
   sendFrame f s n = Ret (on_session s (\<lambda>x. x\<lparr>sendBuf := sendBuf x @ [f]\<rparr>) n)"
  by (simp add: sendFrame.simps)

lemma Disconnect_nil:
  "\<not> sendCh (heap n s) \<Longrightarrow>
   Disconnect reason code s n = gbind (disconnectFromNode s n) (\<lambda>n. Ret (close_session s n))"
  by (subst Disconnect.simps, rule gbind_cong [OF refl]) (auto dest: disconnectFromNode_session)

lemma sendFrame_full:
  "sendCh (heap n s) \<Longrightarrow> \<not> sendClosed (heap n s) \<Longrightarrow> 256 \<le> length (sendBuf (heap n s)) \<Longrightarrow>
   sendFrame f s n =
     gbind (disconnectFromNode s (on_session s (\<lambda>x. x\<lparr>sendClosed := True, sendCh := False\<rparr>) n))
       (\<lambda>n. Ret (close_session s n))"
  by (simp add: sendFrame.simps drop_channel_def Disconnect_nil)

lemma sendFrame_safe [node_safe]:
  assumes ok: "node_ok n"
  shows "safely node_ok (sendFrame f s n)"
proof (cases "sendCh (heap n s)")
  case True
  with node_ok_session [OF ok, of s] have open_ch: "\<not> sendClosed (heap n s)"
    and x: "session_ok (heap n s)" by (simp_all add: session_ok_def)
  show ?thesis
  proof (cases "length (sendBuf (heap n s)) < 256")
    case True
    with \<open>sendCh (heap n s)\<close> open_ch x ok show ?thesis
      by (simp add: sendFrame_room node_ok_on_session session_ok_def)
  next
    case False
    have "node_ok (on_session s (\<lambda>x. x\<lparr>sendClosed := True, sendCh := False\<rparr>) n)"
      using ok x by (intro node_ok_on_session) (simp_all add: session_ok_def)
    then have d: "safely node_ok (disconnectFromNode s
        (on_session s (\<lambda>x. x\<lparr>sendClosed := True, sendCh := False\<rparr>) n))"
      by (rule disconnectFromNode_safe)
    have "safely node_ok (gbind (disconnectFromNode s
        (on_session s (\<lambda>x. x\<lparr>sendClosed := True, sendCh := False\<rparr>) n)) (\<lambda>n. Ret (close_session s n)))"
      by (rule safely_gbindI [OF d]) (simp add: close_session_ok)
    with False \<open>sendCh (heap n s)\<close> open_ch show ?thesis by (simp add: sendFrame_full)
  qed
qed (simp add: ok)

lemma Disconnect_safe [node_safe]: "node_ok n \<Longrightarrow> safely node_ok (Disconnect reason code s n)"
  by (subst Disconnect.simps)
    (auto intro!: safely_gbindI [OF disconnectFromNode_safe] safely_gbindI [OF sendFrame_safe]
      close_session_ok)

lemma writeFrame_safe [node_safe]:
  "node_ok n \<Longrightarrow> safely (\<lambda>(n, err). node_ok n) (writeFrame werr f s n)"
  unfolding writeFrame_def writeFrameWithDeadline_def
  by (rule safely_gbindI [OF add_counter_safe])
    (auto split: FrameType.split intro!: node_ok_on_session intro: node_ok_session)

lemma disconnectNow_safe [node_safe]:
  assumes "node_ok n"
  shows "safely node_ok (disconnectNow reason code s n)"
proof -
  have "safely node_ok (if sendCh (heap n s) then drop_channel s n else Ret n)" if "node_ok n" for n
    using drop_channel_safe [OF that, of s] that by (auto intro: safely_mono)
  then show ?thesis
    unfolding disconnectNow_def
    by (auto intro!: safely_gbindI [OF disconnectFromNode_safe [OF assms]] safely_gbindI [OF writeFrame_safe]
        safely_gbindI [of node_ok] close_session_ok)
qed

lemma SendMessages_turn_safe [node_safe]:
  assumes ok: "node_ok n"
  shows "safely node_ok (SendMessages_turn werr s n)"
proof -
  have finish: "safely node_ok (disconnectNow ''Write Failed'' CloseAbnormalClosure s
      (on_session s (\<lambda>x. x\<lparr>sender_running := False\<rparr>) n))" if "node_ok n" for n
    using that by (simp add: disconnectNow_safe node_ok_on_session node_ok_session)
  show ?thesis
  proof (cases "sendBuf (heap n s)")
    case Nil
    then show ?thesis using ok finish by (simp add: SendMessages_turn_def)
  next
    case (Cons f fs)
    have "node_ok (on_session s (\<lambda>x. x\<lparr>sendBuf := fs\<rparr>) n)"
      using ok node_ok_session [OF ok, of s] Cons
      by (intro node_ok_on_session) (auto simp: session_ok_def)
    with Cons finish show ?thesis
      by (auto simp: SendMessages_turn_def intro!: safely_gbindI [OF writeFrame_safe] add_counter_safe
          safely_gbindI [OF add_counter_safe])
  qed
qed

lemma session_ok_env: "session_ok x \<Longrightarrow> env_ok e \<Longrightarrow> session_ok (x\<lparr>env := e\<rparr>)"
  by (simp add: session_ok_def)

lemma encodeMessage_safe:
  assumes "frame_encoder e"
  shows "safely (\<lambda>_. True) (encodeMessage e msg)"
proof (cases msg)
  case (Plain m)
  then show ?thesis using frame_encoder.encode_cases [OF assms, of m] by auto
next
  case (Cached cm)
  have "safely (\<lambda>_. True) (enc_Encode e m)" for m
    using frame_encoder.encode_cases [OF assms, of m] by auto
  then have "safely (\<lambda>_. True) (CachedEncodedMessage_Fetch cm (enc_ID e) (enc_Encode e))"
    by (auto simp: CachedEncodedMessage_Fetch_def Fetch_def safely_gbind split: prod.splits
        intro: safely_mono)
  with Cached show ?thesis by (auto simp: safely_gbind intro: safely_mono)
qed

lemma send_result_safe [node_safe]: "node_ok n \<Longrightarrow> safely node_ok (send_result r s n)"
  by (auto simp: send_result_def sendFrame_safe split: prod.split option.split)

lemma Send_safe [node_safe]:
  assumes "node_ok n"
  shows "safely (\<lambda>(n, _). node_ok n) (Send msg s n)"
proof -
  have "frame_encoder (encoder (heap n s))"
    using node_ok_session [OF assms, of s] by (simp add: session_ok_def)
  then show ?thesis
    unfolding Send_def
    by (intro safely_gbindI [OF encodeMessage_safe])
      (auto intro!: safely_gbindI [OF send_result_safe [OF assms]])
qed

lemma SendJSONTransmission_safe [node_safe]:
  "node_ok n \<Longrightarrow> safely node_ok (SendJSONTransmission msg s n)"
  by (simp add: SendJSONTransmission_def send_result_safe)

lemma addPing_ok: "node_ok n \<Longrightarrow> node_ok (addPing s n)"
  by (simp add: addPing_def node_ok_on_session node_ok_session)

lemma sendPing_safe [node_safe]:
  assumes ok: "node_ok n"
  shows "safely node_ok (sendPing now werr s n)"
proof (cases "closed (heap n s)")
  case False
  have "frame_encoder (encoder (heap n s))"
    using node_ok_session [OF ok, of s] by (simp add: session_ok_def)
  note enc = encodeMessage_safe [OF this]
  have w: "safely (\<lambda>(n, err). node_ok n)
      (if err \<noteq> None then Ret (n, err)
       else case b of None \<Rightarrow> Ret (n, None) | Some f \<Rightarrow> writeFrameWithDeadline werr f s n)" for err b
    using ok writeFrame_safe [OF ok, of werr _ s] by (auto simp: writeFrame_def split: option.split)
  have rest: "safely node_ok ((\<lambda>((b, err), _).
      gbind (if err \<noteq> None then Ret (n, err)
             else case b of None \<Rightarrow> Ret (n, None) | Some f \<Rightarrow> writeFrameWithDeadline werr f s n)
        (\<lambda>(n, err). if err \<noteq> None then Disconnect ''Ping failed'' CloseAbnormalClosure s n
           else Ret (addPing s n))) x)" for x :: "SentFrame result \<times> OutMessage"
  proof -
    obtain b err m where x: "x = ((b, err), m)" by (metis prod.exhaust)
    show ?thesis
      unfolding x by (simp only: prod.case, rule safely_gbindI [OF w], auto intro: Disconnect_safe addPing_ok)
  qed
  show ?thesis
    unfolding sendPing_def by (simp only: False if_False, rule safely_gbindI [OF enc]) (rule rest)
qed (simp add: sendPing_def ok)

lemma NewSession_ok:
  assumes "node_ok n" "frame_encoder enc"
  shows "node_ok (snd (NewSession enc url headers uid n))"
  using assms
  by (auto simp: NewSession_def Let_def node_ok_def addPing_def on_session_def session_ok_def env_ok_def
      NewSessionEnv_def)

section \<open>What the operations of a session leave alone\<close>

text \<open>
  \<open>touches s\<close>: the maps, the pool and the other channels of the hub are as before, removals of \<open>s\<close>
  may have been requested, and no other session has changed. The session itself keeps its id, its
  identifiers, its subscriptions, its environment and its encoder.
\<close>

definition hub_requests_only :: "sref set \<Rightarrow> Hub \<Rightarrow> Hub \<Rightarrow> bool" where
  "hub_requests_only S h h' \<longleftrightarrow> (\<exists>rs. h' = h\<lparr>register_ch := register_ch h @ rs\<rparr> \<and>
     (\<forall>r \<in> set rs. hr_event r = ''remove'' \<and> hr_session r \<in> S))"

definition same_session :: "Session \<Rightarrow> Session \<Rightarrow> bool" where
  "same_session x y \<longleftrightarrow> UID y = UID x \<and> Identifiers y = Identifiers x \<and>
     subscriptions y = subscriptions x \<and> env y = env x \<and> encoder y = encoder x"

definition touches :: "sref set \<Rightarrow> Node \<Rightarrow> Node \<Rightarrow> bool" where
  "touches S n n' \<longleftrightarrow> hub_requests_only S (hub n) (hub n') \<and> (\<forall>t. t \<notin> S \<longrightarrow> heap n' t = heap n t) \<and>
     (\<forall>t. same_session (heap n t) (heap n' t)) \<and> next_session n' = next_session n \<and>
     config n' = config n \<and> shutdownCh n' = shutdownCh n"

lemma hub_requests_only_refl: "hub_requests_only S h h"
  by (auto simp: hub_requests_only_def intro!: exI [of _ "[]"])

lemma hub_requests_only_trans:
  "hub_requests_only S h h' \<Longrightarrow> hub_requests_only S h' h'' \<Longrightarrow> hub_requests_only S h h''"
  by (auto simp: hub_requests_only_def) (metis append_assoc set_append Un_iff)

lemma touches_refl: "reflp (touches S)"
  by (auto intro!: reflpI simp: touches_def same_session_def hub_requests_only_refl)

lemma touches_trans: "transp (touches S)"
  by (rule transpI) (auto simp: touches_def same_session_def intro: hub_requests_only_trans)

lemmas touches_gbind = moves_gbind [OF touches_trans]

lemmas touches_gfor = moves_gfor [OF touches_refl touches_trans]

lemma touches_after: "touches S n n1 \<Longrightarrow> moves (touches S) n1 m \<Longrightarrow> moves (touches S) n m"
  by (auto simp: moves_def dest: transpD [OF touches_trans])

lemma touches_mono: "touches S n n' \<Longrightarrow> S \<subseteq> T \<Longrightarrow> touches T n n'"
  by (auto simp: touches_def hub_requests_only_def)

lemma moves_touches_mono: "moves (touches S) n m \<Longrightarrow> S \<subseteq> T \<Longrightarrow> moves (touches T) n m"
  by (auto simp: moves_def intro: touches_mono)

lemma touches_on_session:
  "s \<in> S \<Longrightarrow> same_session (heap n s) (f (heap n s)) \<Longrightarrow> touches S n (on_session s f n)"
  by (auto simp: touches_def on_session_def same_session_def hub_requests_only_refl)

lemma add_counter_touches: "moves (touches S) n (add_counter name k n)"
  by (auto simp: moves_def add_counter_def go_simps touches_def same_session_def hub_requests_only_refl)

lemma Node_Disconnect_touches:
  "moves (touches {s}) n (gbind (Node_Disconnect s n) (\<lambda>(n, _). Ret n))"
  by (auto simp: moves_def Node_Disconnect_def RemoveSession_def go_simps touches_def same_session_def
      hub_requests_only_def split: option.splits)

lemma disconnectFromNode_touches: "moves (touches {s}) n (disconnectFromNode s n)"
proof -
  let ?n = "on_session s (\<lambda>x. x\<lparr>Connected := False\<rparr>) n"
  have "touches {s} n ?n" by (rule touches_on_session) (simp_all add: same_session_def)
  with Node_Disconnect_touches [of s ?n] show ?thesis
    by (auto simp: disconnectFromNode_def moves_def dest: transpD [OF touches_trans])
qed

lemma close_session_touches: "touches {s} n (close_session s n)"
  using reflpD [OF touches_refl]
  by (auto simp: close_session_def same_session_def intro!: touches_on_session)

lemma sendFrame_touches: "moves (touches {s}) n (sendFrame f s n)"
proof -
  let ?n = "on_session s (\<lambda>x. x\<lparr>sendClosed := True, sendCh := False\<rparr>) n"
  have 1: "touches {s} n ?n" by (rule touches_on_session) (simp_all add: same_session_def)
  have "moves (touches {s}) ?n (gbind (disconnectFromNode s ?n) (\<lambda>n. Ret (close_session s n)))"
    by (rule touches_gbind [OF disconnectFromNode_touches]) (simp add: close_session_touches)
  with 1 have "moves (touches {s}) n (gbind (disconnectFromNode s ?n) (\<lambda>n. Ret (close_session s n)))"
    by (rule touches_after)
  then have full: "moves (touches {s}) n (gbind (drop_channel s n) (Disconnect ''Write failed'' CloseAbnormalClosure s))"
    by (simp add: drop_channel_def Disconnect_nil)
  have "touches {s} n (on_session s (\<lambda>x. x\<lparr>sendBuf := sendBuf x @ [f]\<rparr>) n)"
    by (rule touches_on_session) (simp_all add: same_session_def)
  with full show ?thesis
    by (subst sendFrame.simps) (auto intro!: moves_if reflpD [OF touches_refl])
qed

lemma Disconnect_touches: "moves (touches {s}) n (Disconnect reason code s n)"
  by (subst Disconnect.simps)
    (intro touches_gbind disconnectFromNode_touches sendFrame_touches, simp add: close_session_touches)

lemma send_result_touches: "moves (touches {s}) n (send_result r s n)"
  using reflpD [OF touches_refl]
  by (auto simp: send_result_def sendFrame_touches split: prod.split option.split)

lemma SendJSONTransmission_touches: "moves (touches {s}) n (SendJSONTransmission msg s n)"
  by (simp add: SendJSONTransmission_def send_result_touches)

lemma Send_touches: "moves (touches {s}) n (gbind (Send msg s n) (\<lambda>(n, _). Ret n))"
proof (cases "encodeMessage (encoder (heap n s)) msg")
  case (Ret x)
  then show ?thesis
    using send_result_touches [of s n "fst x"]
    by (cases x) (auto simp: Send_def moves_def go_simps)
qed (simp_all add: Send_def)

lemmas touches_gbind_pair = moves_gbind_pair [OF touches_trans]

lemma writeFrame_touches: "moves (touches {s}) n (gbind (writeFrame werr f s n) (\<lambda>(n, _). Ret n))"
proof (cases "add_counter metricsDataSent (of_nat (length (Payload f))) n")
  case (Ret n1)
  then have 1: "touches {s} n n1" using add_counter_touches by (rule movesD [rotated])
  have "touches {s} n1 (on_session s (\<lambda>x. x\<lparr>conn := conn x @ [c]\<rparr>) n1)" for c
    by (rule touches_on_session) (simp_all add: same_session_def)
  with 1 have "touches {s} n (on_session s (\<lambda>x. x\<lparr>conn := conn x @ [c]\<rparr>) n1)" for c
    by (rule transpD [OF touches_trans])
  with Ret 1 show ?thesis
    by (simp add: writeFrame_def writeFrameWithDeadline_def split: FrameType.split)
qed (simp_all add: writeFrame_def writeFrameWithDeadline_def)

lemma drop_channel_touches: "moves (touches {s}) n (drop_channel s n)"
  by (auto simp: drop_channel_def same_session_def intro!: touches_on_session)

lemma disconnectNow_touches: "moves (touches {s}) n (disconnectNow reason code s n)"
  unfolding disconnectNow_def
  by (rule touches_gbind [OF disconnectFromNode_touches], rule touches_gbind_pair [OF writeFrame_touches])
    (auto intro!: touches_gbind moves_if drop_channel_touches close_session_touches
      reflpD [OF touches_refl])

lemma SendMessages_turn_touches: "moves (touches {s}) n (SendMessages_turn werr s n)"
proof -
  have finish: "moves (touches {s}) n (disconnectNow r c s (on_session s (\<lambda>x. x\<lparr>sender_running := False\<rparr>) n))"
    for n r c
  proof -
    have "touches {s} n (on_session s (\<lambda>x. x\<lparr>sender_running := False\<rparr>) n)"
      by (rule touches_on_session) (simp_all add: same_session_def)
    then show ?thesis by (rule touches_after [OF _ disconnectNow_touches])
  qed
  show ?thesis
  proof (cases "sendBuf (heap n s)")
    case Nil
    then show ?thesis using finish by (simp add: SendMessages_turn_def)
  next
    case (Cons f fs)
    let ?n = "on_session s (\<lambda>x. x\<lparr>sendBuf := fs\<rparr>) n"
    have 1: "touches {s} n ?n" by (rule touches_on_session) (simp_all add: same_session_def)
    have "moves (touches {s}) ?n (gbind (writeFrame werr f s ?n) (\<lambda>(n, err).
        if err \<noteq> None then gbind (add_counter metricsFailedSent 1 n)
          (\<lambda>n. disconnectNow ''Write Failed'' CloseAbnormalClosure s
             (on_session s (\<lambda>x. x\<lparr>sender_running := False\<rparr>) n))
        else add_counter metricsSentMsg 1 n))"
      by (rule touches_gbind_pair [OF writeFrame_touches])
        (auto intro!: touches_gbind [OF add_counter_touches] finish add_counter_touches)
    with 1 have "moves (touches {s}) n (gbind (writeFrame werr f s ?n) (\<lambda>(n, err).
        if err \<noteq> None then gbind (add_counter metricsFailedSent 1 n)
          (\<lambda>n. disconnectNow ''Write Failed'' CloseAbnormalClosure s
             (on_session s (\<lambda>x. x\<lparr>sender_running := False\<rparr>) n))
        else add_counter metricsSentMsg 1 n))"
      by (rule touches_after)
    with Cons show ?thesis by (simp add: SendMessages_turn_def)
  qed
qed

lemma addPing_touches: "touches {s} n (addPing s n)"
  unfolding addPing_def by (rule touches_on_session) (simp_all add: same_session_def)

lemma sendPing_touches: "moves (touches {s}) n (sendPing now werr s n)"
proof (cases "closed (heap n s)")
  case False
  have w: "moves (touches {s}) n (gbind
      (if err \<noteq> None then Ret (n, err)
       else case b of None \<Rightarrow> Ret (n, None) | Some f \<Rightarrow> writeFrameWithDeadline werr f s n)
      (\<lambda>(n, _). Ret n))" for err b
    using writeFrame_touches [of s n werr] reflpD [OF touches_refl, of "{s}" n]
    by (auto simp: writeFrame_def split: option.split)
  have rest: "moves (touches {s}) n (gbind
      (if err \<noteq> None then Ret (n, err)
       else case b of None \<Rightarrow> Ret (n, None) | Some f \<Rightarrow> writeFrameWithDeadline werr f s n)
      (\<lambda>(n, err). if err \<noteq> None then Disconnect ''Ping failed'' CloseAbnormalClosure s n
         else Ret (addPing s n)))" for err b
    by (rule touches_gbind_pair [OF w]) (auto intro: Disconnect_touches addPing_touches)
  show ?thesis
  proof (cases "encodeMessage (encoder (heap n s))
      (Plain (MPing (newPingMessage now (pingTimestampPrecision (heap n s)))))")
    case (Ret x)
    obtain b err m where "x = ((b, err), m)" by (metis prod.exhaust)
    with Ret False rest [of err b] show ?thesis
      by (simp add: sendPing_def del: encodeMessage.simps)
  qed (use False in \<open>simp_all add: sendPing_def del: encodeMessage.simps\<close>)
qed (use reflpD [OF touches_refl] in \<open>simp add: sendPing_def\<close>)

end
