(* ===== verification/Go_Fmt.thy ===== *)
theory Go_Fmt
  imports Encoding
begin

text \<open>
  The verb \<^verbatim>\<open>%v\<close> of Go's \<^verbatim>\<open>fmt\<close> on a decoded JSON value, for the one error text of the server that
  shows such a value. A number is a float64: its JSON text has the shortest digits that identify it,
  and \<^verbatim>\<open>%v\<close> arranges the same digits in another way, with an exponent from a million on and below
  one in ten thousand.
\<close>

section \<open>Numbers\<close>

text \<open>The digits of a number without leading and trailing zeros, and where the decimal point stands.\<close>

definition split_exponent :: "string \<Rightarrow> string \<times> int" where
  "split_exponent t =
     (let m = takeWhile (\<lambda>c. c \<noteq> CHR ''e'' \<and> c \<noteq> CHR ''E'') t;
          x = drop (Suc (length m)) t;
          ds = (if take 1 x = ''-'' \<or> take 1 x = ''+'' then drop 1 x else x);
          v = int (foldl (\<lambda>n c. 10 * n + (byte c - 48)) 0 ds)
      in (m, if take 1 x = ''-'' then - v else v))"

definition decimal :: "string \<Rightarrow> string \<times> int" where
  "decimal t =
     (let (m, x) = split_exponent t;
          i = takeWhile (\<lambda>c. c \<noteq> CHR ''.'') m;
          ds = i @ drop (Suc (length i)) m;
          lead = takeWhile (\<lambda>c. c = CHR ''0'') ds;
          sig = rev (dropWhile (\<lambda>c. c = CHR ''0'') (rev (drop (length lead) ds)))
      in (sig, if sig = [] then 0 else int (length i) + x - int (length lead)))"

text \<open>\<open>fmt_e\<close> and \<open>fmt_f\<close> write all the digits, with and without an exponent of at least two digits.\<close>

definition fmt_e :: "string \<Rightarrow> int \<Rightarrow> string" where
  "fmt_e sig dp =
     (let x = dp - 1
      in take 1 sig @ (if length sig \<le> 1 then [] else CHR ''.'' # drop 1 sig) @
         (if x < 0 then ''e-'' else ''e+'') @ (if \<bar>x\<bar> < 10 then ''0'' else []) @ nat_text (nat \<bar>x\<bar>))"

definition fmt_f :: "string \<Rightarrow> int \<Rightarrow> string" where
  "fmt_f sig dp =
     (let k = nat dp;
          whole = (if dp \<le> 0 then ''0'' else take k sig @ replicate (k - length sig) (CHR ''0''))
      in if int (length sig) \<le> dp then whole
         else whole @ CHR ''.'' # replicate (nat (- dp)) (CHR ''0'') @ drop k sig)"

definition fmt_float :: "string \<Rightarrow> string" where
  "fmt_float t =
     (let neg = (take 1 t = ''-'');
          (sig, dp) = decimal (if neg then drop 1 t else t)
      in (if neg then ''-'' else []) @
         (if dp - 1 < - 4 \<or> 6 \<le> dp - 1 then fmt_e sig dp else fmt_f sig dp))"

section \<open>Values\<close>

text \<open>A map is printed in the order of its keys, a slice in its own order.\<close>

primrec fmt_v :: "jvalue \<Rightarrow> string" where
  "fmt_v JNull = ''<nil>''"
| "fmt_v (JBool b) = (if b then ''true'' else ''false'')"
| "fmt_v (JNum t) = fmt_float t"
| "fmt_v (JStr s) = s"
| "fmt_v (JArr vs) = ''['' @ join '' '' (map fmt_v vs) @ '']''"
| "fmt_v (JObj ms) =
     ''map['' @ join '' '' (map (\<lambda>(k, t). k @ '':'' @ t) (sort_key fst (map (map_prod id fmt_v) ms))) @ '']''"

lemma fmt_v_examples:
  "fmt_v (JObj [(''b'', JArr [JNum ''1000000'', JNull]), (''a'', JNum ''-0.00001'')]) =
     ''map[a:-1e-05 b:[1e+06 <nil>]]''"
  "map fmt_float [''0'', ''12.50'', ''100000'', ''1234567.5'', ''0.0001'', ''1e21'', ''1.5e-7'', ''-0''] =
     [''0'', ''12.5'', ''100000'', ''1.2345675e+06'', ''0.0001'', ''1e+21'', ''1.5e-07'', ''-0'']"
  by code_simp+

end
