(* ===== verification/Node.thy ===== *)
theory Node
  imports Session Go_Fmt
begin

text \<open>
  The node (\<^verbatim>\<open>node/node.go\<close>): handlers of client commands and pub/sub messages, replies of the
  controller applied to hub and session, shutdown and statistics; the read loop of a session
  (\<^verbatim>\<open>node/session.go\<close>), and the tasks the hub gives to its pool (\<^verbatim>\<open>node/hub.go\<close>).

  The controller is the interface of \<^verbatim>\<open>node/controller.go\<close>, as a record of functions: each handler
  takes the controller whose answers it sees, so that two calls may get different answers.
\<close>

section \<open>The controller interface\<close>

record Controller =
  ctl_Authenticate :: "string \<Rightarrow> SessionEnv \<Rightarrow> ConnectResult result"
  ctl_Subscribe :: "string \<Rightarrow> SessionEnv \<Rightarrow> string \<Rightarrow> string \<Rightarrow> CommandResult result"
  ctl_Unsubscribe :: "string \<Rightarrow> SessionEnv \<Rightarrow> string \<Rightarrow> string \<Rightarrow> CommandResult result"
  ctl_Perform :: "string \<Rightarrow> SessionEnv \<Rightarrow> string \<Rightarrow> string \<Rightarrow> string \<Rightarrow> CommandResult result"
  ctl_Disconnect :: "string \<Rightarrow> SessionEnv \<Rightarrow> string \<Rightarrow> string list \<Rightarrow> error option"

text \<open>What the node relies on: a call that reports no error has a result.\<close>

locale controller =
  fixes ctl :: Controller
  assumes authenticate_result: "ctl_Authenticate ctl sid e = (r, None) \<Longrightarrow> r \<noteq> None"
    and subscribe_result: "ctl_Subscribe ctl sid e i ch = (r', None) \<Longrightarrow> r' \<noteq> None"
    and unsubscribe_result: "ctl_Unsubscribe ctl sid e i ch = (r', None) \<Longrightarrow> r' \<noteq> None"
    and perform_result: "ctl_Perform ctl sid e i ch d = (r', None) \<Longrightarrow> r' \<noteq> None"

section \<open>Replies\<close>

definition Broadcast :: "StreamMessage \<Rightarrow> Node \<Rightarrow> Node go" where
  "Broadcast msg n =
     gbind (add_counter metricsBroadcastMsg 1 n) (\<lambda>n.
     gbind (BroadcastMessage msg (hub n)) (\<lambda>h. Ret (n\<lparr>hub := h\<rparr>)))"

definition RemoteDisconnect :: "RemoteDisconnectMessage \<Rightarrow> Node \<Rightarrow> Node go" where
  "RemoteDisconnect msg n =
     gbind (add_counter metricsBroadcastMsg 1 n) (\<lambda>n.
     gbind (Hub_RemoteDisconnect msg (hub n)) (\<lambda>h. Ret (n\<lparr>hub := h\<rparr>)))"

definition transmit :: "sref \<Rightarrow> string list \<Rightarrow> Node \<Rightarrow> Node go" where
  "transmit s transmissions = gfor transmissions (\<lambda>msg. SendJSONTransmission msg s)"

definition merge_connection_state :: "sref \<Rightarrow> (string, string) gomap option \<Rightarrow> Node \<Rightarrow> Node go" where
  "merge_connection_state s cstate n = (case cstate of
     None \<Rightarrow> Ret n
   | Some cs \<Rightarrow> gbind (MergeConnectionState (env (heap n s)) cs) (\<lambda>e. Ret (SetEnv e s n)))"

definition merge_channel_state ::
  "sref \<Rightarrow> string \<Rightarrow> (string, string) gomap option \<Rightarrow> Node \<Rightarrow> Node go" where
  "merge_channel_state s ident istate n = (case istate of
     None \<Rightarrow> Ret n
   | Some st \<Rightarrow> gbind (MergeChannelState (env (heap n s)) ident st) (\<lambda>e. Ret (SetEnv e s n)))"

definition handleCallReply :: "sref \<Rightarrow> CallResult \<Rightarrow> Node \<Rightarrow> Node go" where
  "handleCallReply s reply n =
     gbind (merge_connection_state s (call_CState reply) n) (\<lambda>n.
     gbind (gfor (call_Broadcasts reply) Broadcast n) (\<lambda>n.
     transmit s (call_Transmissions reply) n))"

definition stop_streams :: "sref \<Rightarrow> string \<Rightarrow> CommandResult \<Rightarrow> Node \<Rightarrow> Node go" where
  "stop_streams s ident reply n =
     (if StopAllStreams reply
      then gbind (RemoveAllSubscriptions (UID (heap n s)) ident (hub n)) (\<lambda>h. Ret (n\<lparr>hub := h\<rparr>))
      else gfor (StoppedStreams reply) (\<lambda>stream n.
             gbind (RemoveSubscription (UID (heap n s)) ident stream (hub n)) (\<lambda>h. Ret (n\<lparr>hub := h\<rparr>))) n)"

definition start_streams :: "sref \<Rightarrow> string \<Rightarrow> CommandResult \<Rightarrow> Node \<Rightarrow> Node" where
  "start_streams s ident reply n =
     fold (\<lambda>stream n. n\<lparr>hub := subscribeSession (UID (heap n s)) stream ident (hub n)\<rparr>)
       (Streams reply) n"

definition handleCommandReply :: "sref \<Rightarrow> Message \<Rightarrow> CommandResult \<Rightarrow> Node \<Rightarrow> Node go" where
  "handleCommandReply s msg reply n =
     gbind (stop_streams s (Identifier msg) reply n) (\<lambda>n.
     gbind (merge_channel_state s (Identifier msg) (cmd_IState reply)
              (start_streams s (Identifier msg) reply n)) (\<lambda>n.
     gbind (handleCallReply s (CommandResult_ToCallResult reply) n) (\<lambda>n.
     if cmd_Disconnect reply then Disconnect ''Command Failed'' CloseAbnormalClosure s n
     else Ret n)))"

section \<open>Commands\<close>

definition register_session :: "string \<Rightarrow> sref \<Rightarrow> Node \<Rightarrow> Node" where
  "register_session idents s n =
     (let n = on_session s (\<lambda>x. x\<lparr>Identifiers := idents, Connected := True\<rparr>) n
      in n\<lparr>hub := addSession s (UID (heap n s)) (Identifiers (heap n s)) (hub n)\<rparr>)"

definition Authenticate :: "Controller \<Rightarrow> sref \<Rightarrow> Node \<Rightarrow> (Node \<times> ConnectResult result) go" where
  "Authenticate ctl s n =
     (let (res, err) = ctl_Authenticate ctl (UID (heap n s)) (env (heap n s)) in
      if err \<noteq> None then
        gbind (Disconnect ''Auth Error'' CloseInternalServerErr s n) (\<lambda>n. Ret (n, (res, err)))
      else case res of
        None \<Rightarrow> Panic nil_deref
      | Some c \<Rightarrow>
          if conn_Status c = SUCCESS then
            gbind (handleCallReply s (ConnectResult_ToCallResult c)
                     (register_session (conn_Identifier c) s n)) (\<lambda>n.
            Ret (n, (res, err)))
          else
            gbind (if conn_Status c = FAILURE then add_counter metricsFailedAuths 1 n else Ret n) (\<lambda>n.
            gbind (handleCallReply s (ConnectResult_ToCallResult c) n) (\<lambda>n.
            gbind (Disconnect ''Auth Failed'' CloseNormalClosure s n) (\<lambda>n.
            Ret (n, (res, err))))))"

text \<open>The reply of the controller is applied whenever there is one, with or without an error.\<close>

definition with_reply ::
  "sref \<Rightarrow> Message \<Rightarrow> CommandResult result \<Rightarrow> Node \<Rightarrow> (Node \<times> CommandResult result) go" where
  "with_reply s msg r n = (case fst r of
     None \<Rightarrow> Ret (n, r)
   | Some res \<Rightarrow> gbind (handleCommandReply s msg res n) (\<lambda>n. Ret (n, r)))"

definition Subscribe ::
  "Controller \<Rightarrow> sref \<Rightarrow> Message \<Rightarrow> Node \<Rightarrow> (Node \<times> CommandResult result) go" where
  "Subscribe ctl s msg n =
     (let x = heap n s in
      if mhas (subscriptions x) (Identifier msg)
      then Ret (n, (None, Some (Err (''Already subscribed to '' @ Identifier msg))))
      else
       (let r = ctl_Subscribe ctl (UID x) (env x) (Identifiers x) (Identifier msg);
            n = (if snd r = None
                 then on_session s (\<lambda>x. x\<lparr>subscriptions := mput (Identifier msg) True (subscriptions x)\<rparr>) n
                 else n)
        in with_reply s msg r n))"

definition Unsubscribe ::
  "Controller \<Rightarrow> sref \<Rightarrow> Message \<Rightarrow> Node \<Rightarrow> (Node \<times> CommandResult result) go" where
  "Unsubscribe ctl s msg n =
     (let x = heap n s in
      if \<not> mhas (subscriptions x) (Identifier msg)
      then Ret (n, (None, Some (Err (''Unknown subscription '' @ Identifier msg))))
      else
       (let (res, err) = ctl_Unsubscribe ctl (UID x) (env x) (Identifiers x) (Identifier msg) in
        if err \<noteq> None then with_reply s msg (res, err) n
        else case res of
          None \<Rightarrow> Panic nil_deref
        | Some c \<Rightarrow>
            with_reply s msg (Some (c\<lparr>StopAllStreams := True\<rparr>), None)
              (on_session s (\<lambda>x. x\<lparr>subscriptions := mdel (Identifier msg) (subscriptions x)\<rparr>) n)))"

definition Perform ::
  "Controller \<Rightarrow> sref \<Rightarrow> Message \<Rightarrow> Node \<Rightarrow> (Node \<times> CommandResult result) go" where
  "Perform ctl s msg n =
     (let x = heap n s in
      if \<not> mhas (subscriptions x) (Identifier msg)
      then Ret (n, (None, Some (Err (''Unknown subscription '' @ Identifier msg))))
      else case Data msg of
        JStr data \<Rightarrow>
          with_reply s msg (ctl_Perform ctl (UID x) (env x) (Identifiers x) (Identifier msg) data) n
      | _ \<Rightarrow> Ret (n, (None, Some (Err (''Perform data must be a string, got '' @ fmt_v (Data msg))))))"

definition HandleCommand :: "Controller \<Rightarrow> sref \<Rightarrow> Message \<Rightarrow> Node \<Rightarrow> (Node \<times> error option) go" where
  "HandleCommand ctl s msg n =
     (if Command msg = ''subscribe'' then gbind (Subscribe ctl s msg n) (\<lambda>(n, r). Ret (n, snd r))
      else if Command msg = ''unsubscribe'' then gbind (Unsubscribe ctl s msg n) (\<lambda>(n, r). Ret (n, snd r))
      else if Command msg = ''message'' then gbind (Perform ctl s msg n) (\<lambda>(n, r). Ret (n, snd r))
      else Ret (n, Some (Err (''Unknown command: '' @ Command msg))))"

definition HandlePubSub :: "string \<Rightarrow> Node \<Rightarrow> Node go" where
  "HandlePubSub raw n = (case PubSubMessageFromJSON raw of
     Inl err \<Rightarrow> add_counter metricsUnknownBroadcast 1 n
   | Inr (PStream v) \<Rightarrow> Broadcast v n
   | Inr (PDisconnect v) \<Rightarrow> RemoteDisconnect v n)"

definition LookupSession :: "string \<Rightarrow> Node \<Rightarrow> sref option" where
  "LookupSession ident n = findByIdentifier ident (hub n)"

section \<open>Reading\<close>

text \<open>
  The call through the interface \<^verbatim>\<open>Executor\<close>. The node is the one executor of the program;
  \<open>custom\<close> says what other objects do that a session was given with \<open>SetExecutor\<close>.
\<close>

type_synonym Executors = "nat \<Rightarrow> sref \<Rightarrow> Message \<Rightarrow> Node \<Rightarrow> (Node \<times> error option) go"

fun Executor_HandleCommand ::
  "Executors \<Rightarrow> Controller \<Rightarrow> Executor \<Rightarrow> sref \<Rightarrow> Message \<Rightarrow> Node \<Rightarrow> (Node \<times> error option) go" where
  "Executor_HandleCommand custom ctl NodeExecutor = HandleCommand ctl"
| "Executor_HandleCommand custom ctl (CustomExecutor k) = custom k"

definition ReadMessage ::
  "Executors \<Rightarrow> Controller \<Rightarrow> sref \<Rightarrow> string \<Rightarrow> Node \<Rightarrow> (Node \<times> error option) go" where
  "ReadMessage custom ctl s message n =
     gbind (add_counter metricsDataReceived (of_nat (length message)) n) (\<lambda>n.
     let (command, err) = enc_Decode (encoder (heap n s)) message in
     if err \<noteq> None then gbind (add_counter metricsFailedCommandReceived 1 n) (\<lambda>n. Ret (n, err))
     else case command of
       None \<Rightarrow> Ret (n, None)
     | Some cmd \<Rightarrow>
         gbind (add_counter metricsReceivedMsg 1 n) (\<lambda>n.
         gbind (Executor_HandleCommand custom ctl (executor (heap n s)) s cmd n) (\<lambda>(n, err).
         if err \<noteq> None then gbind (add_counter metricsFailedCommandReceived 1 n) (\<lambda>n. Ret (n, None))
         else Ret (n, None))))"

text \<open>
  One turn of the loop of \<^verbatim>\<open>Serve\<close> with the outcome of the read; the flag says whether it goes on.
\<close>

definition Serve_turn ::
  "Executors \<Rightarrow> Controller \<Rightarrow> sref \<Rightarrow> ReadError + string \<Rightarrow> Node \<Rightarrow> (Node \<times> bool) go" where
  "Serve_turn custom ctl s input n = (case input of
     Inl err \<Rightarrow>
       gbind (if IsCloseError err then disconnectNow ''Read closed'' CloseNormalClosure s n
              else disconnectNow ''Read failed'' CloseAbnormalClosure s n) (\<lambda>n. Ret (n, False))
   | Inr message \<Rightarrow> gbind (ReadMessage custom ctl s message n) (\<lambda>(n, err). Ret (n, err = None)))"

section \<open>Disconnects, statistics and start\<close>

definition subscriptionsList :: "(string, bool) gomap \<Rightarrow> string list" where
  "subscriptionsList m = mkeys m"

definition DisconnectNow :: "Controller \<Rightarrow> sref \<Rightarrow> Node \<Rightarrow> error option" where
  "DisconnectNow ctl s n =
     (let x = heap n s in
      ctl_Disconnect ctl (UID x) (env x) (Identifiers x) (subscriptionsList (subscriptions x)))"

definition SetDisconnector :: "Disconnector \<Rightarrow> Node \<Rightarrow> Node" where
  "SetDisconnector d n = n\<lparr>disconnector := Some d\<rparr>"

definition registerMetrics :: "Metrics \<Rightarrow> Metrics" where
  "registerMetrics m =
    (let m = RegisterGauge metricsGoroutines ''The number of Go routines'' m;
         m = RegisterGauge metricsMemSys ''The total bytes of memory obtained from the OS'' m;
         m = RegisterGauge metricsClientsNum ''The number of active clients'' m;
         m = RegisterGauge metricsUniqClientsNum ''The number of unique clients (with respect to connection identifiers)'' m;
         m = RegisterGauge metricsStreamsNum ''The number of active broadcasting streams'' m;
         m = RegisterGauge metricsDisconnectQueue ''The size of delayed disconnect'' m;
         m = RegisterCounter metricsFailedAuths ''The total number of failed authentication attempts'' m;
         m = RegisterCounter metricsReceivedMsg ''The total number of received messages from clients'' m;
         m = RegisterCounter metricsFailedCommandReceived ''The total number of unrecognized messages received from clients'' m;
         m = RegisterCounter metricsBroadcastMsg ''The total number of messages received through PubSub (for broadcast)'' m;
         m = RegisterCounter metricsUnknownBroadcast ''The total number of unrecognized messages received through PubSub'' m;
         m = RegisterCounter metricsSentMsg ''The total number of messages sent to clients'' m;
         m = RegisterCounter metricsFailedSent ''The total number of messages failed to send to clients'' m;
         m = RegisterCounter metricsDataSent ''The total amount of bytes sent to clients'' m
     in RegisterCounter metricsDataReceived ''The total amount of bytes received from clients'' m)"

text \<open>A new node has no session; \<open>blank\<close> fills the unused addresses of its heap.\<close>

definition NewNode :: "Session \<Rightarrow> Metrics \<Rightarrow> Config \<Rightarrow> Node go" where
  "NewNode blank m cfg = gbind (NewHub (HubGopoolSize cfg)) (\<lambda>h.
     Ret \<lparr>node_Metrics = registerMetrics m, config = cfg, hub = h, disconnector = None,
          shutdownCh = True, heap = (\<lambda>_. blank), next_session = 0\<rparr>)"

definition set_gauge :: "string \<Rightarrow> (Gauge \<Rightarrow> Gauge) \<Rightarrow> Node \<Rightarrow> Node go" where
  "set_gauge name f n = gbind (with_gauge name f (node_Metrics n)) (\<lambda>m. Ret (n\<lparr>node_Metrics := m\<rparr>))"

text \<open>The arguments are what the runtime reports: the number of goroutines and the memory in use.\<close>

definition collectStatsOnce :: "int \<Rightarrow> 64 word \<Rightarrow> Node \<Rightarrow> Node go" where
  "collectStatsOnce goroutines mem n =
     gbind (set_gauge metricsGoroutines (Gauge_Set goroutines) n) (\<lambda>n.
     gbind (set_gauge metricsMemSys (Gauge_Set64 mem) n) (\<lambda>n.
     gbind (set_gauge metricsClientsNum (Gauge_Set (int (Size (hub n)))) n) (\<lambda>n.
     gbind (set_gauge metricsUniqClientsNum (Gauge_Set (int (UniqSize (hub n)))) n) (\<lambda>n.
     gbind (set_gauge metricsStreamsNum (Gauge_Set (int (StreamsSize (hub n)))) n) (\<lambda>n.
     case disconnector n of
       None \<Rightarrow> Panic nil_deref
     | Some d \<Rightarrow> set_gauge metricsDisconnectQueue (Gauge_Set (int (Disconnector_Size d))) n)))))"

text \<open>
  The loop of \<^verbatim>\<open>collectStats\<close>. Its \<^verbatim>\<open>select\<close> evaluates the field \<^verbatim>\<open>shutdownCh\<close> anew in every turn:
  \<open>StatsSelect w\<close> waits with a channel when \<open>w\<close>, with a nil one otherwise. The channel it waits with
  is closed once the field is nil, since \<^verbatim>\<open>Shutdown\<close> does both.
\<close>

datatype StatsPoint = StatsSelect bool | StatsReturned

datatype StatsCase = StatsShutdown | StatsTimer int "64 word"

definition collectStats :: "Node \<Rightarrow> StatsPoint" where
  "collectStats n = StatsSelect (shutdownCh n)"

fun collectStats_turn :: "StatsCase \<Rightarrow> StatsPoint \<Rightarrow> Node \<Rightarrow> (StatsPoint \<times> Node) go" where
  "collectStats_turn StatsShutdown (StatsSelect w) n =
     (if w \<and> \<not> shutdownCh n then Ret (StatsReturned, n) else Block)"
| "collectStats_turn (StatsTimer goroutines mem) (StatsSelect w) n =
     gbind (collectStatsOnce goroutines mem n) (\<lambda>n. Ret (collectStats n, n))"
| "collectStats_turn c StatsReturned n = Block"

section \<open>Tasks of the hub\<close>

text \<open>
  A message for a stream: data that is JSON is sent as that value. A text that is not JSON leaves
  the value nil.
\<close>

definition buildMessage :: "(string \<Rightarrow> string option) \<Rightarrow> string \<Rightarrow> string \<Rightarrow> CachedEncodedMessage" where
  "buildMessage f64 data ident = NewCachedEncodedMessage
     (MReply \<lparr>reply_Type = [], reply_Identifier = ident, reply_Message = unmarshal_any f64 data\<rparr>)"

definition streamSessionsSnapshot ::
  "(string, (string, bool) gomap) gomap \<Rightarrow> (string, string list) gomap" where
  "streamSessionsSnapshot src = map (\<lambda>(k, v). (k, mkeys v)) src"

text \<open>The buffer holds the message built for each identifier, with the encodings made so far.\<close>

definition broadcast_to ::
  "(string \<Rightarrow> string option) \<Rightarrow> string \<Rightarrow> sref \<Rightarrow> string
   \<Rightarrow> Node \<times> (string, OutMessage) gomap \<Rightarrow> (Node \<times> (string, OutMessage) gomap) go" where
  "broadcast_to f64 data s ident = (\<lambda>(n, buf).
     let bdata = (case map_of buf ident of Some m \<Rightarrow> m | None \<Rightarrow> Cached (buildMessage f64 data ident))
     in gbind (Send bdata s n) (\<lambda>(n, m). Ret (n, mput ident m buf)))"

definition broadcast_session ::
  "(string \<Rightarrow> string option) \<Rightarrow> string \<Rightarrow> string \<times> string list
   \<Rightarrow> Node \<times> (string, OutMessage) gomap \<Rightarrow> (Node \<times> (string, OutMessage) gomap) go" where
  "broadcast_session f64 data = (\<lambda>(sid, ids) (n, buf).
     case map_of (sessions (hub n)) sid of
       None \<Rightarrow> Ret (n, buf)
     | Some s \<Rightarrow> gfor ids (broadcast_to f64 data s) (n, buf))"

definition broadcast_task :: "(string \<Rightarrow> string option) \<Rightarrow> string \<Rightarrow> string \<Rightarrow> Node \<Rightarrow> Node go" where
  "broadcast_task f64 stream data n =
     gbind (gfor (streamSessionsSnapshot (mfind (streams (hub n)) stream)) (broadcast_session f64 data)
              (n, []))
       (\<lambda>(n, _). Ret n)"

text \<open>Sending a message to a session and disconnecting it, for remote disconnects and shutdown.\<close>

definition notify_and_disconnect ::
  "DisconnectMessage \<Rightarrow> string \<Rightarrow> int \<Rightarrow> sref \<Rightarrow> Node \<Rightarrow> Node go" where
  "notify_and_disconnect msg reason code s n =
     gbind (Send (Plain (MDisconnect msg)) s n) (\<lambda>(n, _). Disconnect reason code s n)"

text \<open>The ids captured by the task: the map it was given, which is empty once it is not installed.\<close>

definition captured_ids :: "string \<Rightarrow> nat \<Rightarrow> Hub \<Rightarrow> string list" where
  "captured_ids ident a h = (case map_of (identifiers h) ident of
     Some (b, ids) \<Rightarrow> if b = a then mkeys ids else []
   | None \<Rightarrow> [])"

definition disconnect_task :: "string \<Rightarrow> nat \<Rightarrow> DisconnectMessage \<Rightarrow> Node \<Rightarrow> Node go" where
  "disconnect_task ident a msg n =
     gfor (captured_ids ident a (hub n)) (\<lambda>sid n.
       case map_of (sessions (hub n)) sid of
         None \<Rightarrow> Ret n
       | Some s \<Rightarrow> notify_and_disconnect msg ''Closed remotely'' CloseNormalClosure s n) n"

fun run_task :: "(string \<Rightarrow> string option) \<Rightarrow> HubTask \<Rightarrow> Node \<Rightarrow> Node go" where
  "run_task f64 (BroadcastTask stream data) n = broadcast_task f64 stream data n"
| "run_task f64 (DisconnectTask ident a msg) n = disconnect_task ident a msg n"

section \<open>Shutdown\<close>

definition serverRestartReason :: string where
  "serverRestartReason = ''server_restart''"

definition close_one :: "sref \<Rightarrow> Node \<Rightarrow> Node go" where
  "close_one =
     notify_and_disconnect (newDisconnectMessage serverRestartReason True) ''Shutdown'' CloseGoingAway"

definition close_all :: "Node \<Rightarrow> Node go" where
  "close_all n = gfor (map snd (sessions (hub n))) close_one n"

text \<open>The first part, up to the closing of the sessions.\<close>

definition shutdown_begin :: "Node \<Rightarrow> Node go" where
  "shutdown_begin n =
     (let n = n\<lparr>shutdownCh := False\<rparr>
      in gbind (Hub_Shutdown (hub n)) (\<lambda>h. Ret (n\<lparr>hub := h\<rparr>)))"

text \<open>
  The arguments are the shutdown of the disconnector and of the controller, whose errors are only
  logged.
\<close>

definition Node_Shutdown ::
  "(Disconnector \<Rightarrow> Disconnector go) \<Rightarrow> (unit go) \<Rightarrow> Node \<Rightarrow> (Node \<times> error option) go" where
  "Node_Shutdown dshut cshut n =
     (if \<not> shutdownCh n then Ret (n, Some (Err ''Already shut down''))
      else
        gbind (shutdown_begin n) (\<lambda>n.
        gbind (if 0 < Size (hub n) then close_all n else Ret n) (\<lambda>n.
        gbind (case disconnector n of
                 None \<Rightarrow> Ret n
               | Some d \<Rightarrow> gbind (dshut d) (\<lambda>d. Ret (n\<lparr>disconnector := Some d\<rparr>))) (\<lambda>n.
        gbind cshut (\<lambda>_. Ret (n, None))))))"

end
