(* ===== verification/Session_Spec.thy ===== *)
theory Session_Spec
  imports Session
begin

text \<open>
  What a session promises: a connection is unregistered once however often it is disconnected,
  what an overflow of its buffer does, what its sender writes and counts, and that its sender ends.
\<close>

section \<open>Counters\<close>

definition counter_value :: "string \<Rightarrow> Node \<Rightarrow> 64 word" where
  "counter_value name n =
     (case map_of (counters (node_Metrics n)) name of Some c \<Rightarrow> Counter_Value c | None \<Rightarrow> 0)"

lemma counter_value_add:
  "add_counter name k n = Ret n' \<Longrightarrow>
   counter_value x n' = counter_value x n + (if x = name then k else 0)"
  by (auto simp: add_counter_def counter_add_Ret_iff go_simps counter_value_def gomap_simps
      Counter_Value_def Counter_Add_def)

lemma add_counter_node:
  "add_counter name k n = Ret n' \<Longrightarrow> hub n' = hub n \<and> heap n' = heap n \<and> disconnector n' = disconnector n"
  by (auto simp: add_counter_def go_simps)

lemma add_counter_returns:
  assumes "node_ok n" and "name \<in> {metricsFailedAuths, metricsReceivedMsg, metricsFailedCommandReceived,
     metricsBroadcastMsg, metricsUnknownBroadcast, metricsSentMsg, metricsFailedSent,
     metricsDataSent, metricsDataReceived}"
  obtains n' where "add_counter name k n = Ret n'" "node_ok n'"
proof -
  have "add_counter name k n \<noteq> Block" by (cases "counter_add name k (node_Metrics n)") (auto simp: add_counter_def)
  with add_counter_safe [OF assms, of k] show thesis
    by (cases "add_counter name k n") (auto intro: that)
qed

lemma counter_value_simps [simp]:
  "counter_value x (n\<lparr>heap := hp\<rparr>) = counter_value x n"
  "counter_value x (n\<lparr>hub := h\<rparr>) = counter_value x n"
  "counter_value x (on_session s f n) = counter_value x n"
  "counter_value x (close_session s n) = counter_value x n"
  by (simp_all add: counter_value_def on_session_def close_session_def)

section \<open>Disconnecting once\<close>

lemma on_session_frame [simp]:
  "hub (on_session s f n) = hub n" "disconnector (on_session s f n) = disconnector n"
  "node_Metrics (on_session s f n) = node_Metrics n"
  by (simp_all add: on_session_def)

lemma close_session_frame [simp]:
  "hub (close_session s n) = hub n" "disconnector (close_session s n) = disconnector n"
  "Connected (heap (close_session s n) t) = Connected (heap n t)"
  "closed (heap (close_session s n) s)"
  "sendCh (heap (close_session s n) t) = sendCh (heap n t)"
  "sendClosed (heap (close_session s n) t) = sendClosed (heap n t)"
  "sendBuf (heap (close_session s n) t) = sendBuf (heap n t)"
  "conn (heap (close_session s n) t) = conn (heap n t)"
  "sender_running (heap (close_session s n) t) = sender_running (heap n t)"
  by (simp_all add: close_session_def)

lemma disconnectFromNode_idle [simp]:
  "\<not> Connected (heap n s) \<Longrightarrow>
   disconnectFromNode s n = Ret (on_session s (\<lambda>x. x\<lparr>Connected := False\<rparr>) n)"
  by (simp add: disconnectFromNode_def)

lemma Connected_update_idle [simp]: "\<not> Connected x \<Longrightarrow> x\<lparr>Connected := False\<rparr> = x"
  by (cases x) simp

lemma sendFrame_idle:
  assumes "\<not> Connected (heap n s)" and "sendFrame f s n = Ret n'"
  shows "hub n' = hub n \<and> disconnector n' = disconnector n \<and> \<not> Connected (heap n' s)"
proof (cases "sendCh (heap n s)")
  case True
  with assms show ?thesis
    by (subst (asm) sendFrame.simps)
      (auto simp: drop_channel_def Disconnect_nil split: if_splits)
qed (use assms in simp)

lemma Disconnect_idle:
  assumes "\<not> Connected (heap n s)" and "Disconnect reason code s n = Ret n'"
  shows "hub n' = hub n \<and> disconnector n' = disconnector n \<and> \<not> Connected (heap n' s)"
proof -
  from assms obtain n1 where
    "sendFrame (close_frame reason code) s (on_session s (\<lambda>x. x\<lparr>Connected := False\<rparr>) n) = Ret n1"
    and "n' = close_session s n1"
    by (subst (asm) Disconnect.simps) (auto simp: go_simps)
  with sendFrame_idle [OF _ this(1)] show ?thesis by simp
qed

text \<open>The calls a frame makes on the connection, and the error writing it reports.\<close>

definition frame_calls :: "SentFrame \<Rightarrow> ConnCall list" where
  "frame_calls f = (case FrameType f of
     TextFrame \<Rightarrow> [ConnWrite (Payload f)]
   | BinaryFrame \<Rightarrow> [ConnWriteBinary (Payload f)]
   | CloseFrame \<Rightarrow> [ConnClose (CloseCode f) (CloseReason f)]
   | OtherFrame _ \<Rightarrow> [])"

definition frame_error :: "error option \<Rightarrow> SentFrame \<Rightarrow> error option" where
  "frame_error werr f = (case FrameType f of
     CloseFrame \<Rightarrow> Some (Err ''Closed'')
   | OtherFrame _ \<Rightarrow> Some (Err ''Unknown frame type'')
   | _ \<Rightarrow> werr)"

lemma writeFrame_outcome:
  assumes "node_ok n"
  obtains n1 where "writeFrame werr f s n = Ret (n1, frame_error werr f)" "node_ok n1"
    "heap n1 = (heap n)(s := (heap n s)\<lparr>conn := conn (heap n s) @ frame_calls f\<rparr>)"
    "hub n1 = hub n" "disconnector n1 = disconnector n"
    "\<forall>x. counter_value x n1 =
       counter_value x n + (if x = metricsDataSent then of_nat (length (Payload f)) else 0)"
proof -
  obtain n2 where n2: "add_counter metricsDataSent (of_nat (length (Payload f))) n = Ret n2" "node_ok n2"
    by (rule add_counter_returns [OF assms, of metricsDataSent]) auto
  have fr: "hub n2 = hub n" "heap n2 = heap n" "disconnector n2 = disconnector n"
    using add_counter_node [OF n2(1)] by auto
  let ?n1 = "on_session s (\<lambda>x. x\<lparr>conn := conn x @ frame_calls f\<rparr>) n2"
  have "on_session s (\<lambda>x. x\<lparr>conn := conn x\<rparr>) n2 = n2" by (simp add: on_session_def)
  with n2 have w: "writeFrame werr f s n = Ret (?n1, frame_error werr f)"
    by (simp add: writeFrame_def writeFrameWithDeadline_def frame_calls_def frame_error_def
        split: FrameType.split)
  have ok: "node_ok ?n1" using n2(2) by (simp add: node_ok_on_session node_ok_session)
  show thesis
    by (rule that [OF w ok]) (simp_all add: fr counter_value_add [OF n2(1)])
qed

lemma disconnectNow_idle:
  assumes "node_ok n" "\<not> Connected (heap n s)"
  obtains n1 where "disconnectNow reason code s n = Ret n1" "node_ok n1"
    "hub n1 = hub n" "disconnector n1 = disconnector n"
    "conn (heap n1 s) = conn (heap n s) @ [ConnClose code reason]"
    "\<not> Connected (heap n1 s)" "\<not> sendCh (heap n1 s)" "closed (heap n1 s)"
    "sender_running (heap n1 s) = sender_running (heap n s)"
    "\<forall>x. counter_value x n1 = counter_value x n"
proof -
  let ?n = "on_session s (\<lambda>x. x\<lparr>Connected := False\<rparr>) n"
  have ok: "node_ok ?n" using assms(1) by (simp add: node_ok_on_session node_ok_session)
  obtain n2 where n2: "writeFrame None (close_frame reason code) s ?n = Ret (n2, Some (Err ''Closed''))"
    "node_ok n2" "heap n2 = (heap ?n)(s := (heap ?n s)\<lparr>conn := conn (heap ?n s) @ [ConnClose code reason]\<rparr>)"
    "hub n2 = hub n" "disconnector n2 = disconnector n" "\<forall>x. counter_value x n2 = counter_value x n"
    by (rule writeFrame_outcome [OF ok, of None "close_frame reason code" s])
      (auto simp: frame_error_def frame_calls_def close_frame_def intro: that)
  define n3 where "n3 = (if sendCh (heap n2 s)
    then on_session s (\<lambda>x. x\<lparr>sendClosed := True, sendCh := False\<rparr>) n2 else n2)"
  have d: "(if sendCh (heap n2 s) then drop_channel s n2 else Ret n2) = Ret n3"
    using node_ok_session [OF n2(2), of s] by (auto simp: n3_def drop_channel_def session_ok_def)
  have r: "disconnectNow reason code s n = Ret (close_session s n3)"
    using assms(2) n2(1) d by (simp add: disconnectNow_def)
  have "safely node_ok (disconnectNow reason code s n)"
    by (rule disconnectNow_safe [OF assms(1)])
  then have "node_ok (close_session s n3)" by (simp add: r)
  then show thesis
    by (rule that [OF r]) (auto simp: n3_def n2)
qed

definition remove_request :: "sref \<Rightarrow> Session \<Rightarrow> Hub \<Rightarrow> Hub" where
  "remove_request s x h =
     (if Connected x then h\<lparr>register_ch := register_ch h @ [\<lparr>hr_event = ''remove'', hr_session = s\<rparr>]\<rparr>
      else h)"

lemma disconnectFromNode_hub:
  "disconnectFromNode s n = Ret n' \<Longrightarrow>
   hub n' = remove_request s (heap n s) (hub n) \<and> \<not> Connected (heap n' s)"
  using disconnectFromNode_session [of s n n']
  by (auto simp: disconnectFromNode_def Node_Disconnect_def RemoveSession_def remove_request_def go_simps
      split: if_splits option.splits)

lemma Disconnect_hub:
  assumes "Disconnect reason code s n = Ret n'"
  shows "hub n' = remove_request s (heap n s) (hub n) \<and> \<not> Connected (heap n' s)"
proof -
  from assms obtain n1 n2 where n1: "disconnectFromNode s n = Ret n1"
    and n2: "sendFrame (close_frame reason code) s n1 = Ret n2" and "n' = close_session s n2"
    by (subst (asm) Disconnect.simps) (auto simp: go_simps)
  with sendFrame_idle [OF _ n2] disconnectFromNode_hub [OF n1] show ?thesis by simp
qed

lemma disconnectNow_hub:
  assumes ok: "node_ok n" and "disconnectNow reason code s n = Ret n'"
  shows "hub n' = remove_request s (heap n s) (hub n) \<and> \<not> Connected (heap n' s)"
proof -
  from assms(2) obtain n1 where n1: "disconnectFromNode s n = Ret n1"
    by (auto simp: disconnectNow_def go_simps)
  have "node_ok n1" using disconnectFromNode_safe [OF ok, of s] n1 by simp
  moreover have idle: "\<not> Connected (heap n1 s)" using disconnectFromNode_hub [OF n1] by simp
  moreover have "disconnectNow reason code s n1 = Ret n'"
  proof -
    have "on_session s (\<lambda>x. x\<lparr>Connected := False\<rparr>) n1 = n1"
      using idle by (simp add: on_session_def)
    with assms(2) n1 idle show ?thesis by (simp add: disconnectNow_def)
  qed
  ultimately have "hub n' = hub n1 \<and> \<not> Connected (heap n' s)"
    by (metis disconnectNow_idle go.inject(1))
  with disconnectFromNode_hub [OF n1] show ?thesis by simp
qed

text \<open>
  C5. However a session is disconnected (by the server with \<^verbatim>\<open>Disconnect\<close>, or by its reader or writer
  with \<^verbatim>\<open>disconnectNow\<close>), a connected session is unregistered and queued for the application once:
  the first call requests its removal from the hub, a later one of either kind leaves the hub and
  the disconnect queue as they are.
\<close>

theorem disconnect_once:
  assumes "node_ok n"
    and "Disconnect r1 c1 s n = Ret n1 \<or> disconnectNow r1 c1 s n = Ret n1"
    and "Disconnect r2 c2 s n1 = Ret n2 \<or> disconnectNow r2 c2 s n1 = Ret n2"
  shows "hub n1 = (if Connected (heap n s)
      then (hub n)\<lparr>register_ch := register_ch (hub n) @ [\<lparr>hr_event = ''remove'', hr_session = s\<rparr>]\<rparr>
      else hub n) \<and>
    hub n2 = hub n1 \<and> disconnector n2 = disconnector n1"
proof -
  have 1: "hub n1 = remove_request s (heap n s) (hub n) \<and> \<not> Connected (heap n1 s)"
    using assms(2) Disconnect_hub disconnectNow_hub [OF assms(1)] by blast
  have "node_ok n1"
    using assms(2) Disconnect_safe [OF assms(1)] disconnectNow_safe [OF assms(1)]
    by (metis safely_simps(1))
  then have "hub n2 = hub n1 \<and> disconnector n2 = disconnector n1"
    using assms(3) Disconnect_idle [of n1 s] 1 by (metis disconnectNow_idle go.inject(1))
  with 1 show ?thesis by (simp add: remove_request_def)
qed

section \<open>A small node\<close>

definition small_session :: Session where
  "small_session = \<lparr>encoder = JSON (\<lambda>_. None), executor = NodeExecutor, env = NewSessionEnv [] None, subscriptions = [],
     closed = False, sendCh = True, sendBuf = [], sendClosed = False, sender_running = True,
     pingTimer = True, pingInterval = 3, pingTimestampPrecision = ''s'',
     UID = ''u'', Identifiers = ''i'', Connected = True, conn = []\<rparr>"

definition small_metrics :: Metrics where
  "small_metrics = \<lparr>counters = map (\<lambda>name. (name, NewCounter name []))
      [metricsFailedAuths, metricsReceivedMsg, metricsFailedCommandReceived,
       metricsBroadcastMsg, metricsUnknownBroadcast, metricsSentMsg, metricsFailedSent,
       metricsDataSent, metricsDataReceived],
     gauges = map (\<lambda>name. (name, NewGauge name []))
      [metricsGoroutines, metricsMemSys, metricsClientsNum, metricsUniqClientsNum, metricsStreamsNum,
       metricsDisconnectQueue]\<rparr>"

definition small_hub :: Hub where
  "small_hub =
     \<lparr>sessions = [], identifiers = [], streams = [], sessionsStreams = [],
      broadcast_ch = [], disconnect_ch = [], register_ch = [], subscribe_ch = [],
      hub_running = True,
      pool = \<lparr>pool_name = ''broadcast'', pool_size = 1, sem = 1, work = [], queue_cap = 1,
        workers = [Starting None]\<rparr>,
      next_map = 0\<rparr>"

definition small_node :: Node where
  "small_node = \<lparr>node_Metrics = small_metrics, config = NewConfig, hub = small_hub,
     disconnector = Some NoopDisconnectQueue, shutdownCh = True, heap = (\<lambda>_. small_session),
     next_session = 1\<rparr>"

lemma small_hub_ok: "hub_ok small_hub"
proof -
  have "NewHub 1 = Ret small_hub"
    by (simp add: NewHub_def NewGoPool_positive spawn_count_def queue_count_def small_hub_def)
  then show ?thesis by (intro hub_ok_created) (auto simp: hub_created_def)
qed

lemma small_session_ok: "session_ok small_session"
  by (simp add: session_ok_def small_session_def env_ok_def NewSessionEnv_def json_enc.frame_encoder_axioms)

lemma small_node_ok: "node_ok small_node"
  by (simp add: node_ok_def small_node_def small_hub_ok small_session_ok counters_ok_def gauges_ok_def
      has_counter_def small_metrics_def mhas_Cons)

theorem disconnect_once_witness:
  "\<exists>n1 n2. Disconnect ''a'' 1000 0 small_node = Ret n1 \<and> disconnectNow ''b'' 1006 0 n1 = Ret n2 \<and>
     register_ch (hub n2) = [\<lparr>hr_event = ''remove'', hr_session = 0\<rparr>]"
proof -
  obtain n1 where n1: "Disconnect ''a'' 1000 0 small_node = Ret n1"
    by (simp add: Disconnect.simps disconnectFromNode_def Node_Disconnect_def RemoveSession_def
        chan_send_def sendFrame.simps small_node_def small_hub_def small_session_def on_session_def)
  have "node_ok n1" using Disconnect_safe [OF small_node_ok, of "''a''" 1000 0] n1 by simp
  moreover have "\<not> Connected (heap n1 0)" using Disconnect_hub [OF n1] by simp
  ultimately obtain n2 where n2: "disconnectNow ''b'' 1006 0 n1 = Ret n2" by (rule disconnectNow_idle)
  have "register_ch (hub n2) = [\<lparr>hr_event = ''remove'', hr_session = 0\<rparr>]"
    using disconnect_once [OF small_node_ok disjI1 [OF n1] disjI2 [OF n2]]
    by (simp add: small_node_def small_session_def small_hub_def)
  with n1 n2 show ?thesis by blast
qed

section \<open>Overflow\<close>

text \<open>
  Sending to a session whose buffer holds 256 frames drops the frame and gives the session up:
  its channel is closed and detached, the session is marked closed and not connected, its ping timer
  is stopped, and its removal is requested if it was connected. The 256 frames stay for the sender.
\<close>

theorem sendFrame_overflow:
  assumes "node_ok n" and "sendCh (heap n s)" and "length (sendBuf (heap n s)) = 256"
    and "sendFrame f s n = Ret n'"
  shows "sendBuf (heap n' s) = sendBuf (heap n s) \<and> \<not> sendCh (heap n' s) \<and> sendClosed (heap n' s) \<and>
    closed (heap n' s) \<and> \<not> Connected (heap n' s) \<and> (\<not> closed (heap n s) \<longrightarrow> \<not> pingTimer (heap n' s)) \<and>
    hub n' = remove_request s (heap n s) (hub n)"
proof -
  let ?n = "on_session s (\<lambda>x. x\<lparr>sendClosed := True, sendCh := False\<rparr>) n"
  have "\<not> sendClosed (heap n s)"
    using node_ok_session [OF assms(1), of s] assms(2) by (simp add: session_ok_def)
  with assms obtain n1 where n1: "disconnectFromNode s ?n = Ret n1" and n': "n' = close_session s n1"
    by (auto simp: sendFrame_full go_simps)
  have "heap n1 s = (heap n s)\<lparr>sendClosed := True, sendCh := False, Connected := False\<rparr>"
    using disconnectFromNode_session [OF n1] by simp
  moreover have "hub n1 = remove_request s (heap n s) (hub n)"
    using disconnectFromNode_hub [OF n1] by (simp add: remove_request_def)
  ultimately show ?thesis by (simp add: n' close_session_def)
qed

definition full_node :: Node where
  "full_node = on_session 0 (\<lambda>x. x\<lparr>sendBuf := replicate 256 (text_frame [])\<rparr>) small_node"

lemma full_node_ok: "node_ok full_node"
  unfolding full_node_def
  by (rule node_ok_on_session [OF small_node_ok])
    (simp add: session_ok_def small_node_def small_session_def env_ok_def NewSessionEnv_def
      json_enc.frame_encoder_axioms)

theorem sendFrame_overflow_witness:
  "\<exists>n'. sendFrame (text_frame ''x'') 0 full_node = Ret n' \<and> length (sendBuf (heap n' 0)) = 256 \<and>
     \<not> sendCh (heap n' 0) \<and> \<not> Connected (heap n' 0)"
proof -
  have x: "sendCh (heap full_node 0)" "\<not> sendClosed (heap full_node 0)"
    "length (sendBuf (heap full_node 0)) = 256"
    by (simp_all add: full_node_def small_node_def small_session_def)
  then obtain n' where n': "sendFrame (text_frame ''x'') 0 full_node = Ret n'"
    by (simp add: sendFrame_full)
      (simp add: disconnectFromNode_def Node_Disconnect_def RemoveSession_def chan_send_def
        full_node_def small_node_def small_hub_def small_session_def on_session_def)
  with sendFrame_overflow [OF full_node_ok x(1) x(3) n'] x(3) show ?thesis by auto
qed

section \<open>The sender\<close>

text \<open>A data frame whose write succeeds is handed to the connection and counted.\<close>

lemma sender_turn_writes:
  assumes "node_ok n" and "sender_running (heap n s)" and "sendBuf (heap n s) = f # fs" and "data_frame f"
  shows "\<exists>n'. SendMessages_turn None s n = Ret n' \<and> node_ok n' \<and>
    heap n' = (heap n)(s := (heap n s)\<lparr>sendBuf := fs, conn := conn (heap n s) @ frame_calls f\<rparr>) \<and>
    hub n' = hub n \<and>
    (\<forall>x. counter_value x n' = counter_value x n +
       (if x = metricsSentMsg then 1 else if x = metricsDataSent then of_nat (length (Payload f)) else 0))"
proof -
  let ?n = "on_session s (\<lambda>x. x\<lparr>sendBuf := fs\<rparr>) n"
  have ok: "node_ok ?n"
    using assms(1,3) node_ok_session [OF assms(1), of s]
    by (intro node_ok_on_session) (auto simp: session_ok_def)
  obtain n1 where n1: "writeFrame None f s ?n = Ret (n1, frame_error None f)" "node_ok n1"
    "heap n1 = (heap ?n)(s := (heap ?n s)\<lparr>conn := conn (heap ?n s) @ frame_calls f\<rparr>)"
    "hub n1 = hub ?n" "disconnector n1 = disconnector ?n"
    "\<forall>x. counter_value x n1 =
       counter_value x ?n + (if x = metricsDataSent then of_nat (length (Payload f)) else 0)"
    by (rule writeFrame_outcome [OF ok, of None f s])
  obtain n2 where n2: "add_counter metricsSentMsg 1 n1 = Ret n2" "node_ok n2"
    by (rule add_counter_returns [OF n1(2), of metricsSentMsg]) auto
  have "frame_error None f = None"
    using assms(4) by (auto simp: frame_error_def data_frame_def)
  with assms(2,3) n1(1) n2(1) have "SendMessages_turn None s n = Ret n2"
    by (simp add: SendMessages_turn_def)
  moreover have "metricsSentMsg \<noteq> metricsDataSent" by (simp add: counter_names)
  ultimately show ?thesis
    using n2 n1 add_counter_node [OF n2(1)] counter_value_add [OF n2(1)] by auto
qed

lemma sender_drains:
  assumes "node_ok n" "sender_running (heap n s)" "sendBuf (heap n s) = fs @ rest"
    and "\<forall>f \<in> set fs. data_frame f"
  shows "\<exists>n'. gfor fs (\<lambda>_. SendMessages_turn None s) n = Ret n' \<and> node_ok n' \<and> hub n' = hub n \<and>
    heap n' = (heap n)(s := (heap n s)\<lparr>sendBuf := rest,
      conn := conn (heap n s) @ concat (map frame_calls fs)\<rparr>) \<and>
    (\<forall>x. counter_value x n' = counter_value x n +
       (if x = metricsSentMsg then of_nat (length fs)
        else if x = metricsDataSent then of_nat (\<Sum>f \<leftarrow> fs. length (Payload f)) else 0))"
  using assms
proof (induction fs arbitrary: n)
  case Nil
  then have "(heap n s)\<lparr>sendBuf := rest, conn := conn (heap n s)\<rparr> = heap n s" by simp
  with Nil show ?case by (simp add: fun_upd_idem)
next
  case (Cons f fs)
  from sender_turn_writes [of n s f "fs @ rest"] Cons.prems obtain n1 where
    n1: "SendMessages_turn None s n = Ret n1" "node_ok n1" "hub n1 = hub n"
      "heap n1 = (heap n)(s := (heap n s)\<lparr>sendBuf := fs @ rest, conn := conn (heap n s) @ frame_calls f\<rparr>)"
      "\<forall>x. counter_value x n1 = counter_value x n +
        (if x = metricsSentMsg then 1 else if x = metricsDataSent then of_nat (length (Payload f)) else 0)"
    by auto
  have "sender_running (heap n1 s)" "sendBuf (heap n1 s) = fs @ rest" "\<forall>f \<in> set fs. data_frame f"
    using n1(4) Cons.prems(2,4) by auto
  from Cons.IH [OF n1(2) this] obtain n2 where
    n2: "gfor fs (\<lambda>_. SendMessages_turn None s) n1 = Ret n2" "node_ok n2" "hub n2 = hub n1"
      "heap n2 = (heap n1)(s := (heap n1 s)\<lparr>sendBuf := rest, conn := conn (heap n1 s) @ concat (map frame_calls fs)\<rparr>)"
      "\<forall>x. counter_value x n2 = counter_value x n1 + (if x = metricsSentMsg then of_nat (length fs)
        else if x = metricsDataSent then of_nat (\<Sum>f \<leftarrow> fs. length (Payload f)) else 0)"
    by blast
  have "heap n2 = (heap n)(s := (heap n s)\<lparr>sendBuf := rest,
      conn := conn (heap n s) @ concat (map frame_calls (f # fs))\<rparr>)"
    unfolding n2(4) n1(4) by simp
  moreover have "counter_value x n2 = counter_value x n + (if x = metricsSentMsg then of_nat (length (f # fs))
      else if x = metricsDataSent then of_nat (\<Sum>f \<leftarrow> f # fs. length (Payload f)) else 0)" for x
    using n1(5) n2(5) by (simp add: ac_simps)
  moreover have "gfor (f # fs) (\<lambda>_. SendMessages_turn None s) n = Ret n2" "hub n2 = hub n"
    using n1(1,3) n2(1,3) by simp_all
  ultimately show ?case using n2(2) by blast
qed

text \<open>
  C23. The sender writes the frames of the buffer in order. As many turns of the sender as there are
  data frames at the front of the buffer, with writes that succeed, hand exactly these frames to the
  connection, unchanged and in their order, leave the rest in the buffer and every other session and
  the hub as they were, and count one message for each frame and the bytes of them all.
\<close>

theorem sender_writes:
  assumes "node_ok n" and "sender_running (heap n s)" and "sendBuf (heap n s) = fs @ rest"
    and "\<forall>f \<in> set fs. data_frame f"
  shows "\<exists>n'. gfor fs (\<lambda>_. SendMessages_turn None s) n = Ret n' \<and> node_ok n' \<and> hub n' = hub n \<and>
    heap n' = (heap n)(s := (heap n s)\<lparr>sendBuf := rest,
      conn := conn (heap n s) @ concat (map frame_calls fs)\<rparr>) \<and>
    (\<forall>x. counter_value x n' = counter_value x n +
       (if x = metricsSentMsg then of_nat (length fs)
        else if x = metricsDataSent then of_nat (\<Sum>f \<leftarrow> fs. length (Payload f)) else 0))"
  using assms by (rule sender_drains)

definition queued_node :: "SentFrame \<Rightarrow> Node" where
  "queued_node f = on_session 0 (\<lambda>x. x\<lparr>sendBuf := [f], Connected := False\<rparr>) small_node"

lemma queued_node_ok: "node_ok (queued_node f)"
  unfolding queued_node_def
  by (rule node_ok_on_session [OF small_node_ok])
    (simp add: session_ok_def small_node_def small_session_def env_ok_def NewSessionEnv_def
      json_enc.frame_encoder_axioms)

theorem sender_writes_witness:
  "\<exists>n'. gfor [text_frame ''hi''] (\<lambda>_. SendMessages_turn None 0) (queued_node (text_frame ''hi'')) = Ret n' \<and>
     conn (heap n' 0) = [ConnWrite ''hi''] \<and> sendBuf (heap n' 0) = []"
proof -
  let ?f = "text_frame ''hi''"
  have "sender_running (heap (queued_node ?f) 0)" "sendBuf (heap (queued_node ?f) 0) = [?f] @ []"
    "conn (heap (queued_node ?f) 0) = []" "\<forall>f \<in> set [?f]. data_frame f" "frame_calls ?f = [ConnWrite ''hi'']"
    by (simp_all add: queued_node_def small_node_def small_session_def data_frame_def text_frame_def frame_calls_def)
  with sender_writes [OF queued_node_ok this(1,2,4)] show ?thesis by fastforce
qed

text \<open>
  A close frame that the server queued is counted as a message that failed to be sent: the
  connection is closed with the frame's code and reason, the counter of failed messages goes up and
  that of sent messages does not, the connection is closed a second time as a failed write, and the
  sender ends.
\<close>

theorem close_frame_counts_as_failed:
  assumes "node_ok n" and "sender_running (heap n s)" and "\<not> Connected (heap n s)"
    and "sendBuf (heap n s) = close_frame reason code # fs"
  shows "\<exists>n'. SendMessages_turn werr s n = Ret n' \<and>
    conn (heap n' s) = conn (heap n s) @ [ConnClose code reason, ConnClose CloseAbnormalClosure ''Write Failed''] \<and>
    counter_value metricsFailedSent n' = counter_value metricsFailedSent n + 1 \<and>
    counter_value metricsSentMsg n' = counter_value metricsSentMsg n \<and>
    \<not> sender_running (heap n' s)"
proof -
  let ?f = "close_frame reason code" and ?n = "on_session s (\<lambda>x. x\<lparr>sendBuf := fs\<rparr>) n"
  have ok: "node_ok ?n"
    using assms(1,4) node_ok_session [OF assms(1), of s]
    by (intro node_ok_on_session) (auto simp: session_ok_def)
  obtain n1 where n1: "writeFrame werr ?f s ?n = Ret (n1, frame_error werr ?f)" "node_ok n1"
    "heap n1 = (heap ?n)(s := (heap ?n s)\<lparr>conn := conn (heap ?n s) @ frame_calls ?f\<rparr>)"
    "hub n1 = hub ?n" "disconnector n1 = disconnector ?n"
    "\<forall>x. counter_value x n1 =
       counter_value x ?n + (if x = metricsDataSent then of_nat (length (Payload ?f)) else 0)"
    by (rule writeFrame_outcome [OF ok, of werr ?f s])
  obtain n2 where n2: "add_counter metricsFailedSent 1 n1 = Ret n2" "node_ok n2"
    by (rule add_counter_returns [OF n1(2), of metricsFailedSent]) auto
  let ?n3 = "on_session s (\<lambda>x. x\<lparr>sender_running := False\<rparr>) n2"
  have heap: "heap n2 = heap n1" using add_counter_node [OF n2(1)] by simp
  have "node_ok ?n3" using n2(2) by (simp add: node_ok_on_session node_ok_session)
  moreover have "\<not> Connected (heap ?n3 s)" using assms(3) heap n1(3) by simp
  ultimately obtain n4 where n4: "disconnectNow ''Write Failed'' CloseAbnormalClosure s ?n3 = Ret n4"
    "conn (heap n4 s) = conn (heap ?n3 s) @ [ConnClose CloseAbnormalClosure ''Write Failed'']"
    "sender_running (heap n4 s) = sender_running (heap ?n3 s)"
    "\<forall>x. counter_value x n4 = counter_value x ?n3"
    by (rule disconnectNow_idle)
  have "frame_error werr ?f = Some (Err ''Closed'')" by (simp add: frame_error_def close_frame_def)
  with assms(2,4) n1(1) n2(1) n4(1) have "SendMessages_turn werr s n = Ret n4"
    by (simp add: SendMessages_turn_def)
  with n4 n1 heap counter_value_add [OF n2(1)] show ?thesis
    by (simp add: frame_calls_def close_frame_def counter_names)
qed

theorem close_frame_counts_as_failed_witness:
  "\<exists>n'. SendMessages_turn None 0 (queued_node (close_frame ''bye'' 1000)) = Ret n' \<and>
     counter_value metricsFailedSent n' = 1"
  using close_frame_counts_as_failed [of "queued_node (close_frame ''bye'' 1000)" 0 "''bye''" 1000 "[]" None,
      OF queued_node_ok]
  by (auto simp: queued_node_def small_node_def small_session_def counter_value_def small_metrics_def
      NewCounter_def Counter_Value_def counter_names)

lemma sender_finish:
  assumes "node_ok n" "\<not> Connected (heap n s)"
  obtains n' where "disconnectNow ''Write Failed'' CloseAbnormalClosure s
      (on_session s (\<lambda>x. x\<lparr>sender_running := False\<rparr>) n) = Ret n'" "node_ok n'" "\<not> sender_running (heap n' s)"
proof -
  let ?n = "on_session s (\<lambda>x. x\<lparr>sender_running := False\<rparr>) n"
  have "node_ok ?n" "\<not> Connected (heap ?n s)"
    using assms by (simp_all add: node_ok_on_session node_ok_session)
  then show thesis by (rule disconnectNow_idle [of ?n s]) (rule that, simp_all)
qed

lemma sender_turn_closed:
  assumes "node_ok n" "sender_running (heap n s)" "\<not> Connected (heap n s)" "sendClosed (heap n s)"
  obtains n' where "SendMessages_turn werr s n = Ret n'" "node_ok n'"
    "\<not> sender_running (heap n' s) \<or> \<not> Connected (heap n' s) \<and> sendClosed (heap n' s) \<and>
       Suc (length (sendBuf (heap n' s))) = length (sendBuf (heap n s))"
proof (cases "sendBuf (heap n s)")
  case Nil
  show thesis
    by (rule sender_finish [OF assms(1,3)]) (rule that, use assms Nil in \<open>simp_all add: SendMessages_turn_def\<close>)
next
  case (Cons f fs)
  let ?n = "on_session s (\<lambda>x. x\<lparr>sendBuf := fs\<rparr>) n"
  have ok: "node_ok ?n"
    using assms(1) Cons node_ok_session [OF assms(1), of s]
    by (intro node_ok_on_session) (auto simp: session_ok_def)
  obtain n1 where n1: "writeFrame werr f s ?n = Ret (n1, frame_error werr f)" "node_ok n1"
    "heap n1 = (heap ?n)(s := (heap ?n s)\<lparr>conn := conn (heap ?n s) @ frame_calls f\<rparr>)"
    "hub n1 = hub ?n" "disconnector n1 = disconnector ?n"
    "\<forall>x. counter_value x n1 =
       counter_value x ?n + (if x = metricsDataSent then of_nat (length (Payload f)) else 0)"
    by (rule writeFrame_outcome [OF ok, of werr f s])
  show thesis
  proof (cases "frame_error werr f")
    case None
    obtain n2 where n2: "add_counter metricsSentMsg 1 n1 = Ret n2" "node_ok n2"
      by (rule add_counter_returns [OF n1(2), of metricsSentMsg]) auto
    show thesis
      by (rule that [of n2])
        (use assms Cons n1 n2 None add_counter_node [OF n2(1)] in \<open>simp_all add: SendMessages_turn_def\<close>)
  next
    case (Some e)
    obtain n2 where n2: "add_counter metricsFailedSent 1 n1 = Ret n2" "node_ok n2"
      by (rule add_counter_returns [OF n1(2), of metricsFailedSent]) auto
    have "\<not> Connected (heap n2 s)" using assms(3) n1(3) add_counter_node [OF n2(1)] by simp
    then show thesis
      by (rule sender_finish [OF n2(2)])
        (rule that, use assms Cons n1(1) n2(1) Some in \<open>auto simp: SendMessages_turn_def\<close>)
  qed
qed

text \<open>The sender's loop, given the outcomes of its writes.\<close>

definition SendMessages :: "error option list \<Rightarrow> sref \<Rightarrow> Node \<Rightarrow> Node go" where
  "SendMessages werrs s = gfor werrs (\<lambda>werr n.
     if sender_running (heap n s) then SendMessages_turn werr s n else Ret n)"

lemma SendMessages_stopped: "\<not> sender_running (heap n s) \<Longrightarrow> SendMessages werrs s n = Ret n"
  by (induction werrs) (simp_all add: SendMessages_def)

text \<open>
  C24. The sender of a session that was given up ends: once the channel is closed and the session is
  not connected, the loop stops after at most one turn more than there are frames in the buffer,
  whichever writes fail.
\<close>

theorem sender_ends:
  assumes "node_ok n" and "\<not> Connected (heap n s)" and "sendClosed (heap n s)"
    and "length (sendBuf (heap n s)) < length werrs"
  shows "\<exists>n'. SendMessages werrs s n = Ret n' \<and> node_ok n' \<and> \<not> sender_running (heap n' s)"
  using assms
proof (induction werrs arbitrary: n)
  case (Cons w ws)
  show ?case
  proof (cases "sender_running (heap n s)")
    case True
    obtain n' where n': "SendMessages_turn w s n = Ret n'" "node_ok n'"
      "\<not> sender_running (heap n' s) \<or> \<not> Connected (heap n' s) \<and> sendClosed (heap n' s) \<and>
         Suc (length (sendBuf (heap n' s))) = length (sendBuf (heap n s))"
      by (rule sender_turn_closed [OF Cons.prems(1) True Cons.prems(2,3)])
    have step: "SendMessages (w # ws) s n = SendMessages ws s n'"
      using True n'(1) by (simp add: SendMessages_def)
    show ?thesis
    proof (cases "sender_running (heap n' s)")
      case True
      with n'(3) Cons.prems(4) show ?thesis unfolding step by (intro Cons.IH n'(2)) auto
    qed (simp add: step SendMessages_stopped n'(2))
  next
    case False
    then show ?thesis using Cons.prems(1) by (simp add: SendMessages_stopped)
  qed
qed simp

theorem sender_ends_witness:
  "\<exists>n'. SendMessages [None, None] 0
      (on_session 0 (\<lambda>x. x\<lparr>sendCh := False, sendClosed := True\<rparr>) (queued_node (text_frame ''hi''))) = Ret n' \<and>
     \<not> sender_running (heap n' 0)"
proof -
  let ?n = "on_session 0 (\<lambda>x. x\<lparr>sendCh := False, sendClosed := True\<rparr>) (queued_node (text_frame ''hi''))"
  have "node_ok ?n"
    by (rule node_ok_on_session [OF queued_node_ok])
      (simp add: session_ok_def queued_node_def small_node_def small_session_def env_ok_def
        NewSessionEnv_def json_enc.frame_encoder_axioms)
  from sender_ends [OF this, of 0 "[None, None]"] show ?thesis
    by (auto simp: queued_node_def small_node_def small_session_def)
qed

end
