(* ===== verification/Node_Safety.thy ===== *)
theory Node_Safety
  imports Node Session_Spec
begin

text \<open>
  No handler of the node panics: the counters it increments are registered, the pointers it follows
  are set, no channel is closed twice or sent to after it was closed. This holds for every handler
  on a well-formed node, from the contracts of the controller and the encoders; and as every handler
  keeps the node well-formed, it holds in every state a node can reach, whatever the order of the
  events of its goroutines.
\<close>

section \<open>Replies\<close>

lemma node_ok_hub: "node_ok n \<Longrightarrow> hub_ok h \<Longrightarrow> node_ok (n\<lparr>hub := h\<rparr>)"
  by (simp add: node_ok_def)

lemma hub_ok_of_node: "node_ok n \<Longrightarrow> hub_ok (hub n)"
  by (simp add: node_ok_def)

lemma request_safe:
  assumes "node_ok n" and "\<And>e. m \<noteq> Panic e" and "\<And>h. m = Ret h \<Longrightarrow> hub_step (hub n) h"
  shows "safely node_ok (gbind m (\<lambda>h. Ret (n\<lparr>hub := h\<rparr>)))"
  using assms hub_ok_step [OF hub_ok_of_node [OF assms(1)]]
  by (cases m) (auto intro: node_ok_hub)

lemma Broadcast_safe [node_safe]:
  assumes "node_ok n"
  shows "safely node_ok (Broadcast msg n)"
proof -
  have "safely node_ok (gbind (BroadcastMessage msg (hub n)) (\<lambda>h. Ret (n\<lparr>hub := h\<rparr>)))" if "node_ok n" for n
    using that
    by (rule request_safe) (auto simp: BroadcastMessage_def chan_send_def intro: hub_step.request_broadcast)
  then show ?thesis
    unfolding Broadcast_def by (intro safely_gbindI [OF add_counter_safe [OF assms]]) auto
qed

lemma RemoteDisconnect_safe [node_safe]:
  assumes "node_ok n"
  shows "safely node_ok (RemoteDisconnect msg n)"
proof -
  have "safely node_ok (gbind (Hub_RemoteDisconnect msg (hub n)) (\<lambda>h. Ret (n\<lparr>hub := h\<rparr>)))" if "node_ok n" for n
    using that
    by (rule request_safe) (auto simp: Hub_RemoteDisconnect_def chan_send_def intro: hub_step.request_disconnect)
  then show ?thesis
    unfolding RemoteDisconnect_def by (intro safely_gbindI [OF add_counter_safe [OF assms]]) auto
qed

lemma transmit_safe [node_safe]: "node_ok n \<Longrightarrow> safely node_ok (transmit s ts n)"
  unfolding transmit_def by (rule safely_gfor) (auto intro: SendJSONTransmission_safe)

lemma MergeConnectionState_ok: "env_ok e \<Longrightarrow> \<exists>e'. MergeConnectionState e cs = Ret e' \<and> env_ok e'"
  by (auto simp: env_ok_def MergeConnectionState_Some)

lemma MergeChannelState_ok: "env_ok e \<Longrightarrow> \<exists>e'. MergeChannelState e ident st = Ret e' \<and> env_ok e'"
  by (auto simp: env_ok_def MergeChannelState_def Let_def)

lemma SetEnv_ok: "node_ok n \<Longrightarrow> env_ok e \<Longrightarrow> node_ok (SetEnv e s n)"
  unfolding SetEnv_def by (rule node_ok_on_session) (auto intro: session_ok_env node_ok_session)

lemma node_ok_env: "node_ok n \<Longrightarrow> env_ok (env (heap n s))"
  using node_ok_session [of n s] by (simp add: session_ok_def)

lemma merge_connection_state_safe [node_safe]:
  "node_ok n \<Longrightarrow> safely node_ok (merge_connection_state s cstate n)"
proof (cases cstate)
  case (Some cs)
  assume ok: "node_ok n"
  then obtain e where "MergeConnectionState (env (heap n s)) cs = Ret e" "env_ok e"
    using MergeConnectionState_ok [OF node_ok_env] by blast
  with ok Some show ?thesis by (simp add: merge_connection_state_def SetEnv_ok)
qed (simp add: merge_connection_state_def)

lemma merge_channel_state_safe [node_safe]:
  "node_ok n \<Longrightarrow> safely node_ok (merge_channel_state s ident istate n)"
proof (cases istate)
  case (Some st)
  assume ok: "node_ok n"
  then obtain e where "MergeChannelState (env (heap n s)) ident st = Ret e" "env_ok e"
    using MergeChannelState_ok [OF node_ok_env] by blast
  with ok Some show ?thesis by (simp add: merge_channel_state_def SetEnv_ok)
qed (simp add: merge_channel_state_def)

lemma handleCallReply_safe [node_safe]: "node_ok n \<Longrightarrow> safely node_ok (handleCallReply s reply n)"
  unfolding handleCallReply_def
  by (intro safely_gbindI [OF merge_connection_state_safe] safely_gbindI [OF safely_gfor [of node_ok]]
      Broadcast_safe transmit_safe)

lemma send_subscription_step: "send_subscription r h = Ret h' \<Longrightarrow> hub_step h h'"
  by (rule hub_step.request_subscription)

lemma stop_streams_safe [node_safe]:
  assumes "node_ok n"
  shows "safely node_ok (stop_streams s ident reply n)"
proof -
  have r: "safely node_ok (gbind (send_subscription r (hub n)) (\<lambda>h. Ret (n\<lparr>hub := h\<rparr>)))"
    if "node_ok n" for n r
    using that
    by (rule request_safe) (auto simp: send_subscription_def chan_send_def intro: send_subscription_step)
  then show ?thesis
    using assms unfolding stop_streams_def
    by (auto simp: RemoveAllSubscriptions_def RemoveSubscription_def intro!: safely_gfor)
qed

lemma start_streams_ok: "node_ok n \<Longrightarrow> node_ok (start_streams s ident reply n)"
  unfolding start_streams_def
proof (induction "Streams reply" arbitrary: reply n)
  case (Cons st sts)
  have "node_ok (n\<lparr>hub := subscribeSession (UID (heap n s)) st ident (hub n)\<rparr>)"
    using hub_ok_hub_op [OF hub_ok_of_node [OF Cons.prems], of "OpSubscribe (UID (heap n s)) st ident"]
    by (intro node_ok_hub [OF Cons.prems]) simp
  with Cons.hyps(1) [of "reply\<lparr>Streams := sts\<rparr>"] Cons.hyps(2) [symmetric] show ?case by simp
qed simp

lemma handleCommandReply_safe [node_safe]:
  "node_ok n \<Longrightarrow> safely node_ok (handleCommandReply s msg reply n)"
  unfolding handleCommandReply_def
  by (rule safely_gbindI [OF stop_streams_safe], assumption,
      rule safely_gbindI [OF merge_channel_state_safe [OF start_streams_ok]], assumption,
      rule safely_gbindI [OF handleCallReply_safe], assumption)
    (simp add: Disconnect_safe)

lemma with_reply_safe [node_safe]:
  "node_ok n \<Longrightarrow> safely (\<lambda>(n, _). node_ok n) (with_reply s msg r n)"
  unfolding with_reply_def
  by (auto split: option.split intro!: safely_gbindI [OF handleCommandReply_safe])

section \<open>Commands\<close>

lemma register_session_ok: "node_ok n \<Longrightarrow> node_ok (register_session idents s n)"
proof -
  assume ok: "node_ok n"
  let ?n = "on_session s (\<lambda>x. x\<lparr>Identifiers := idents, Connected := True\<rparr>) n"
  have "node_ok ?n" using ok by (simp add: node_ok_on_session node_ok_session)
  then show ?thesis
    using hub_ok_hub_op [OF hub_ok_of_node, of ?n "OpAdd s (UID (heap ?n s)) (Identifiers (heap ?n s))"]
    by (simp add: register_session_def Let_def node_ok_hub)
qed

lemma Authenticate_safe [node_safe]:
  assumes ok: "node_ok n" and ctl: "controller ctl"
  shows "safely (\<lambda>(n, _). node_ok n) (Authenticate ctl s n)"
proof -
  obtain res err where r: "ctl_Authenticate ctl (UID (heap n s)) (env (heap n s)) = (res, err)" by fastforce
  have *: "safely (\<lambda>(n, _). node_ok n) (gbind
      (if conn_Status c = FAILURE then add_counter metricsFailedAuths 1 n else Ret n) (\<lambda>n.
      gbind (handleCallReply s (ConnectResult_ToCallResult c) n) (\<lambda>n.
      gbind (Disconnect ''Auth Failed'' CloseNormalClosure s n) (\<lambda>n. Ret (n, (res, err))))))" for c
    by (rule safely_gbindI [of node_ok], simp add: ok add_counter_safe,
        rule safely_gbindI [OF handleCallReply_safe], assumption,
        rule safely_gbindI [OF Disconnect_safe], assumption) simp
  have "safely (\<lambda>(n, _). node_ok n) (gbind (handleCallReply s (ConnectResult_ToCallResult c)
      (register_session (conn_Identifier c) s n)) (\<lambda>n. Ret (n, (res, err))))" for c
    by (rule safely_gbindI [OF handleCallReply_safe [OF register_session_ok [OF ok]]]) simp
  moreover have "err = None \<Longrightarrow> res \<noteq> None" using controller.authenticate_result [OF ctl] r by blast
  ultimately show ?thesis
    using * unfolding Authenticate_def Let_def r
    by (cases err; cases res) (auto intro: safely_gbindI [OF Disconnect_safe [OF ok]])
qed

lemma Subscribe_safe [node_safe]:
  "node_ok n \<Longrightarrow> safely (\<lambda>(n, _). node_ok n) (Subscribe ctl s msg n)"
  by (auto simp: Subscribe_def Let_def intro!: with_reply_safe node_ok_on_session intro: node_ok_session)

lemma Unsubscribe_safe [node_safe]:
  assumes ok: "node_ok n" and ctl: "controller ctl"
  shows "safely (\<lambda>(n, _). node_ok n) (Unsubscribe ctl s msg n)"
proof -
  let ?x = "heap n s"
  obtain res err where r: "ctl_Unsubscribe ctl (UID ?x) (env ?x) (Identifiers ?x) (Identifier msg) = (res, err)"
    by fastforce
  have "node_ok (on_session s (\<lambda>x. x\<lparr>subscriptions := sb\<rparr>) n)" for sb
    using ok by (simp add: node_ok_on_session node_ok_session)
  moreover have "err = None \<Longrightarrow> res \<noteq> None" using controller.unsubscribe_result [OF ctl] r by blast
  ultimately show ?thesis
    using ok unfolding Unsubscribe_def Let_def r
    by (cases err; cases res) (auto intro!: with_reply_safe node_ok_on_session intro: node_ok_session)
qed

lemma Perform_safe [node_safe]:
  "node_ok n \<Longrightarrow> safely (\<lambda>(n, _). node_ok n) (Perform ctl s msg n)"
  by (auto simp: Perform_def Let_def split: jvalue.split intro!: with_reply_safe)

lemma HandleCommand_safe [node_safe]:
  assumes "node_ok n" "controller ctl"
  shows "safely (\<lambda>(n, _). node_ok n) (HandleCommand ctl s msg n)"
  using Subscribe_safe [OF assms(1), of ctl s msg] Unsubscribe_safe [OF assms, of s msg]
    Perform_safe [OF assms(1), of ctl s msg] assms(1)
  unfolding HandleCommand_def by (auto intro: safely_gbindI)

lemma HandlePubSub_safe [node_safe]: "node_ok n \<Longrightarrow> safely node_ok (HandlePubSub raw n)"
  by (auto simp: HandlePubSub_def Broadcast_safe RemoteDisconnect_safe add_counter_safe
      split: sum.split PubSubMessage.split)

text \<open>What a session relies on when it hands a command to its executor.\<close>

locale command_executor =
  fixes handle :: "sref \<Rightarrow> Message \<Rightarrow> Node \<Rightarrow> (Node \<times> error option) go"
  assumes handle_safe: "node_ok n \<Longrightarrow> safely (\<lambda>(n, _). node_ok n) (handle s msg n)"

sublocale controller \<subseteq> node_executor: command_executor "HandleCommand ctl"
  by (unfold_locales, rule HandleCommand_safe) (assumption, unfold_locales)

lemma Executor_HandleCommand_safe [node_safe]:
  assumes "node_ok n" "controller ctl" "\<forall>k. command_executor (custom k)"
  shows "safely (\<lambda>(n, _). node_ok n) (Executor_HandleCommand custom ctl ex s msg n)"
  using assms by (cases ex) (simp_all add: HandleCommand_safe command_executor.handle_safe)

lemma ReadMessage_safe [node_safe]:
  assumes "node_ok n" "controller ctl" "\<forall>k. command_executor (custom k)"
  shows "safely (\<lambda>(n, _). node_ok n) (ReadMessage custom ctl s message n)"
proof -
  have fail: "safely (\<lambda>(n, _). node_ok n) (gbind (add_counter metricsFailedCommandReceived 1 n) (\<lambda>n. Ret (n, err)))"
    if "node_ok n" for n err
    using that by (intro safely_gbindI [OF add_counter_safe]) auto
  have run: "safely (\<lambda>(n, _). node_ok n) (gbind (add_counter metricsReceivedMsg 1 n) (\<lambda>n.
         gbind (Executor_HandleCommand custom ctl (executor (heap n s)) s cmd n) (\<lambda>(n, err).
         if err \<noteq> None then gbind (add_counter metricsFailedCommandReceived 1 n) (\<lambda>n. Ret (n, None))
         else Ret (n, None))))" if "node_ok n" for n cmd
    using that assms(2,3)
    by (intro safely_gbindI [OF add_counter_safe] safely_gbindI [OF Executor_HandleCommand_safe])
      (auto intro: fail)
  show ?thesis
    unfolding ReadMessage_def
    by (rule safely_gbindI [OF add_counter_safe [OF assms(1)]])
      (auto simp: Let_def simp del: not_None_eq split: prod.split option.split intro: fail run)
qed

lemma Serve_turn_safe [node_safe]:
  assumes "node_ok n" "controller ctl" "\<forall>k. command_executor (custom k)"
  shows "safely (\<lambda>(n, _). node_ok n) (Serve_turn custom ctl s input n)"
  by (auto simp: Serve_turn_def split: sum.split intro!: safely_gbindI [OF ReadMessage_safe [OF assms]]
      safely_gbindI [OF disconnectNow_safe [OF assms(1)]])

section \<open>Tasks\<close>

lemma broadcast_to_safe:
  "node_ok (fst x) \<Longrightarrow> safely (\<lambda>x. node_ok (fst x)) (broadcast_to f64 data s ident x)"
  by (cases x) (auto simp: broadcast_to_def Let_def intro!: safely_gbindI [OF Send_safe])

lemma broadcast_session_safe:
  "node_ok (fst x) \<Longrightarrow> safely (\<lambda>x. node_ok (fst x)) (broadcast_session f64 data y x)"
  by (cases x; cases y)
    (auto simp: broadcast_session_def split: option.split intro!: safely_gfor broadcast_to_safe)

lemma broadcast_task_safe [node_safe]:
  assumes "node_ok n"
  shows "safely node_ok (broadcast_task f64 stream data n)"
  unfolding broadcast_task_def
  by (rule safely_gbindI [OF safely_gfor [of "\<lambda>x. node_ok (fst x)"]])
    (auto simp: assms intro: broadcast_session_safe)

lemma notify_and_disconnect_safe [node_safe]:
  "node_ok n \<Longrightarrow> safely node_ok (notify_and_disconnect msg reason code s n)"
  unfolding notify_and_disconnect_def
  by (rule safely_gbindI [OF Send_safe]) (auto intro: Disconnect_safe)

lemma disconnect_task_safe [node_safe]: "node_ok n \<Longrightarrow> safely node_ok (disconnect_task ident a msg n)"
  unfolding disconnect_task_def
  by (rule safely_gfor) (auto split: option.split intro: notify_and_disconnect_safe)

lemma close_one_safe [node_safe]: "node_ok n \<Longrightarrow> safely node_ok (close_one s n)"
  unfolding close_one_def by (rule notify_and_disconnect_safe)

lemma shutdown_begin_safe [node_safe]:
  assumes "node_ok n"
  shows "safely node_ok (shutdown_begin n)"
proof -
  have "node_ok (n\<lparr>shutdownCh := False\<rparr>)" using assms by (simp add: node_ok_def)
  then show ?thesis
    unfolding shutdown_begin_def Let_def
    by (rule request_safe) (auto simp: Hub_Shutdown_def intro: hub_step.stop)
qed

lemma run_task_safe [node_safe]: "node_ok n \<Longrightarrow> safely node_ok (run_task f64 t n)"
  by (cases t) (simp_all add: broadcast_task_safe disconnect_task_safe)

section \<open>Statistics\<close>

lemma set_gauge_safe:
  assumes "gauges_ok (node_Metrics n)"
    and "name \<in> {metricsGoroutines, metricsMemSys, metricsClientsNum, metricsUniqClientsNum,
      metricsStreamsNum, metricsDisconnectQueue}"
  shows "\<exists>m. set_gauge name f n = Ret (n\<lparr>node_Metrics := m\<rparr>) \<and> gauges_ok m \<and>
    counters m = counters (node_Metrics n)"
proof -
  from assms obtain g where g: "map_of (gauges (node_Metrics n)) name = Some g"
    by (fastforce simp: gauges_ok_def mhas_def)
  have "gauges_ok ((node_Metrics n)\<lparr>gauges := mput name (f g) (gauges (node_Metrics n))\<rparr>)"
    using assms(1) by (simp add: gauges_ok_def gomap_simps)
  with g show ?thesis
    by (intro exI [of _ "(node_Metrics n)\<lparr>gauges := mput name (f g) (gauges (node_Metrics n))\<rparr>"])
      (simp add: set_gauge_def with_gauge_def)
qed

text \<open>
  What collecting the statistics comes to: it panics exactly when no disconnector is set, and
  otherwise changes nothing but gauges.
\<close>

lemma collectStatsOnce_outcome:
  assumes "gauges_ok (node_Metrics n)"
  shows "if disconnector n = None then collectStatsOnce g mem n = Panic nil_deref
    else \<exists>m. collectStatsOnce g mem n = Ret (n\<lparr>node_Metrics := m\<rparr>) \<and> gauges_ok m \<and>
      counters m = counters (node_Metrics n)"
proof -
  have step: "\<exists>m'. set_gauge name f (n\<lparr>node_Metrics := m\<rparr>) = Ret (n\<lparr>node_Metrics := m'\<rparr>) \<and>
      gauges_ok m' \<and> counters m' = counters m"
    if "gauges_ok m" "name \<in> {metricsGoroutines, metricsMemSys, metricsClientsNum, metricsUniqClientsNum,
      metricsStreamsNum, metricsDisconnectQueue}" for m name f
    using set_gauge_safe [of "n\<lparr>node_Metrics := m\<rparr>", OF _ that(2)] that(1) by auto
  obtain m1 where m1: "set_gauge metricsGoroutines (Gauge_Set g) n = Ret (n\<lparr>node_Metrics := m1\<rparr>)"
    "gauges_ok m1" "counters m1 = counters (node_Metrics n)"
    using set_gauge_safe [OF assms, of metricsGoroutines] by blast
  obtain m2 where m2: "set_gauge metricsMemSys (Gauge_Set64 mem) (n\<lparr>node_Metrics := m1\<rparr>) =
      Ret (n\<lparr>node_Metrics := m2\<rparr>)" "gauges_ok m2" "counters m2 = counters m1"
    using step [OF m1(2), of metricsMemSys] by blast
  obtain m3 where m3: "set_gauge metricsClientsNum (Gauge_Set (int (Size (hub n)))) (n\<lparr>node_Metrics := m2\<rparr>) =
      Ret (n\<lparr>node_Metrics := m3\<rparr>)" "gauges_ok m3" "counters m3 = counters m2"
    using step [OF m2(2), of metricsClientsNum] by blast
  obtain m4 where m4: "set_gauge metricsUniqClientsNum (Gauge_Set (int (UniqSize (hub n)))) (n\<lparr>node_Metrics := m3\<rparr>) =
      Ret (n\<lparr>node_Metrics := m4\<rparr>)" "gauges_ok m4" "counters m4 = counters m3"
    using step [OF m3(2), of metricsUniqClientsNum] by blast
  obtain m5 where m5: "set_gauge metricsStreamsNum (Gauge_Set (int (StreamsSize (hub n)))) (n\<lparr>node_Metrics := m4\<rparr>) =
      Ret (n\<lparr>node_Metrics := m5\<rparr>)" "gauges_ok m5" "counters m5 = counters m4"
    using step [OF m4(2), of metricsStreamsNum] by blast
  have "collectStatsOnce g mem n = (case disconnector n of None \<Rightarrow> Panic nil_deref
      | Some d \<Rightarrow> set_gauge metricsDisconnectQueue (Gauge_Set (int (Disconnector_Size d))) (n\<lparr>node_Metrics := m5\<rparr>))"
    by (simp add: collectStatsOnce_def m1(1) m2(1) m3(1) m4(1) m5(1))
  with step [OF m5(2), of metricsDisconnectQueue] m1(3) m2(3) m3(3) m4(3) m5(3) show ?thesis
    by (cases "disconnector n") auto
qed

lemma collectStatsOnce_safe [node_safe]:
  assumes "node_ok n"
  shows "safely node_ok (collectStatsOnce g mem n)"
proof -
  from assms have "gauges_ok (node_Metrics n)" "disconnector n \<noteq> None" by (simp_all add: node_ok_def)
  with collectStatsOnce_outcome [of n g mem] obtain m where
    "collectStatsOnce g mem n = Ret (n\<lparr>node_Metrics := m\<rparr>)" "gauges_ok m"
    "counters m = counters (node_Metrics n)" by auto
  with assms show ?thesis by (simp add: node_ok_def counters_ok_def has_counter_def)
qed

section \<open>Runs of a node\<close>

text \<open>
  The events of a node, each one step of one of its goroutines: a connection is accepted or
  authenticated, a session's reader or writer or ping timer moves, a published message arrives, the
  hub's loop takes a turn, a worker of the pool takes or runs a task, the disconnect queue moves, the
  statistics are collected; the shutdown stops the hub, closes a session or drains the disconnect
  queue. The controller of an event answers the calls made in it.
\<close>

datatype NodeEvent =
    Accepted Encoder string "(string, string) gomap option" string
  | Authenticated Controller sref
  | ReadFrom Executors Controller sref "ReadError + string"
  | SenderTurn sref "error option"
  | PingTimer sref int "error option"
  | Published string
  | HubTurn nat nat
  | WorkerTake nat
  | WorkerRun "string \<Rightarrow> string option" nat
  | QueueRunTurn nat
  | QueueTick
  | StatsCollected int "64 word"
  | ShutdownBegun
  | ShutdownCloses sref
  | QueueShutdown
  | QueueDrained "error option"
  | QueueTimeout

definition session_info :: "Node \<Rightarrow> sref \<Rightarrow> string \<times> string" where
  "session_info n s = (UID (heap n s), Identifiers (heap n s))"

text \<open>The worker at position \<open>i\<close> runs its task to the end.\<close>

definition worker_run :: "(string \<Rightarrow> string option) \<Rightarrow> nat \<Rightarrow> Node \<Rightarrow> Node go" where
  "worker_run f64 i n =
     (if i < length (workers (pool (hub n)))
      then gbind (gfor (current_task (workers (pool (hub n)) ! i)) (run_task f64) n) (\<lambda>n.
           gbind (worker_done i (pool (hub n))) (\<lambda>p. Ret (n\<lparr>hub := (hub n)\<lparr>pool := p\<rparr>\<rparr>)))
      else Block)"

definition on_queue :: "(DisconnectQueue \<Rightarrow> DisconnectQueue go) \<Rightarrow> Node \<Rightarrow> Node go" where
  "on_queue f n = (case disconnector n of
     Some (AnyDisconnectQueue d) \<Rightarrow> gbind (f d) (\<lambda>d. Ret (n\<lparr>disconnector := Some (AnyDisconnectQueue d)\<rparr>))
   | _ \<Rightarrow> Block)"

fun node_do :: "NodeEvent \<Rightarrow> Node \<Rightarrow> Node go" where
  "node_do (Accepted enc url headers uid) n = Ret (snd (NewSession enc url headers uid n))"
| "node_do (Authenticated ctl s) n = gbind (Authenticate ctl s n) (\<lambda>(n, _). Ret n)"
| "node_do (ReadFrom custom ctl s input) n = gbind (Serve_turn custom ctl s input n) (\<lambda>(n, _). Ret n)"
| "node_do (SenderTurn s werr) n = SendMessages_turn werr s n"
| "node_do (PingTimer s now werr) n = sendPing now werr s n"
| "node_do (Published raw) n = HandlePubSub raw n"
| "node_do (HubTurn c c') n =
     gbind (hub_turn (session_info n) c c' (hub n)) (\<lambda>h. Ret (n\<lparr>hub := h\<rparr>))"
| "node_do (WorkerTake i) n =
     gbind (worker_take i (pool (hub n))) (\<lambda>p. Ret (n\<lparr>hub := (hub n)\<lparr>pool := p\<rparr>\<rparr>))"
| "node_do (WorkerRun f64 i) n = worker_run f64 i n"
| "node_do (QueueRunTurn c) n = on_queue (Run_select c) n"
| "node_do QueueTick n = on_queue (\<lambda>d. gbind (Run_tick d) (\<lambda>(d, _). Ret d)) n"
| "node_do (StatsCollected goroutines mem) n = collectStatsOnce goroutines mem n"
| "node_do ShutdownBegun n = (if shutdownCh n then shutdown_begin n else Ret n)"
| "node_do (ShutdownCloses s) n = (if shutdownCh n then Block else close_one s n)"
| "node_do QueueShutdown n = on_queue Shutdown_start n"
| "node_do (QueueDrained err) n = on_queue (\<lambda>d. gbind (Shutdown_take err d) (\<lambda>(d, _). Ret d)) n"
| "node_do QueueTimeout n = on_queue Shutdown_timeout n"

fun event_ok :: "NodeEvent \<Rightarrow> bool" where
  "event_ok (Accepted enc url headers uid) \<longleftrightarrow> frame_encoder enc"
| "event_ok (Authenticated ctl s) \<longleftrightarrow> controller ctl"
| "event_ok (ReadFrom custom ctl s input) \<longleftrightarrow> controller ctl \<and> (\<forall>k. command_executor (custom k))"
| "event_ok _ \<longleftrightarrow> True"

inductive node_step :: "Node \<Rightarrow> Node \<Rightarrow> bool" where
  "event_ok e \<Longrightarrow> node_do e n = Ret n' \<Longrightarrow> node_step n n'"

text \<open>A node as the program starts it: created, given a disconnector, its hub running.\<close>

definition node_started :: "Node \<Rightarrow> bool" where
  "node_started n \<longleftrightarrow> (\<exists>blank m cfg n0 d. session_ok blank \<and> NewNode blank m cfg = Ret n0 \<and>
     n = SetDisconnector d n0)"

lemma registerMetrics_counters: "counters_ok (registerMetrics m)"
  by (simp add: counters_ok_def has_counter_def registerMetrics_def Let_def RegisterCounter_def
      RegisterGauge_def gomap_simps)

lemma registerMetrics_gauges: "gauges_ok (registerMetrics m)"
  by (simp add: gauges_ok_def registerMetrics_def Let_def RegisterCounter_def RegisterGauge_def gomap_simps)

lemma node_ok_started: "node_started n \<Longrightarrow> node_ok n"
  using hub_ok_created
  by (fastforce simp: node_started_def NewNode_def SetDisconnector_def go_simps node_ok_def
      registerMetrics_counters registerMetrics_gauges hub_created_def)

lemma Schedule_no_panic: "Schedule c t p \<noteq> Panic e"
  by (cases "select c (ready_cases False p)")
    (auto simp: Schedule_def schedule_def spawn_worker_def split: SelectCase.splits)

lemma hub_turn_no_panic: "hub_turn info c c' h \<noteq> Panic e"
proof -
  have "gbind (Schedule c t p) (\<lambda>p. Ret (h\<lparr>pool := p\<rparr>)) \<noteq> Panic e" for c t p h
    using Schedule_no_panic [of c t p] by (cases "Schedule c t p") auto
  then have "broadcastToStream c' st d h' \<noteq> Panic e" "disconnectSessions c' i r h' \<noteq> Panic e"
    for st d i r h'
    by (auto simp: broadcastToStream_def disconnectSessions_def split: option.split)
  then show ?thesis
    by (cases "select c (hub_ready h)") (auto simp: hub_turn_def split: HubCase.split)
qed

lemma worker_done_no_panic: "worker_done i p \<noteq> Panic e"
  by (auto simp: worker_done_def split: Worker.split)

lemma worker_take_no_panic: "worker_take i p \<noteq> Panic e"
  by (auto simp: worker_take_def split: Worker.split list.split)

lemma worker_done_safe:
  assumes "node_ok n"
  shows "safely node_ok (gbind (worker_done i (pool (hub n))) (\<lambda>p. Ret (n\<lparr>hub := (hub n)\<lparr>pool := p\<rparr>\<rparr>)))"
  using hub_ok_step [OF hub_ok_of_node [OF assms] hub_step.worker [of i]] worker_done_no_panic [of i]
  by (cases "worker_done i (pool (hub n))") (auto intro: node_ok_hub [OF assms])

lemma worker_take_safe:
  assumes "node_ok n"
  shows "safely node_ok (gbind (worker_take i (pool (hub n))) (\<lambda>p. Ret (n\<lparr>hub := (hub n)\<lparr>pool := p\<rparr>\<rparr>)))"
  using hub_ok_step [OF hub_ok_of_node [OF assms] hub_step.worker [of i]] worker_take_no_panic [of i]
  by (cases "worker_take i (pool (hub n))") (auto intro: node_ok_hub [OF assms])

lemma worker_run_safe: "node_ok n \<Longrightarrow> safely node_ok (worker_run f64 i n)"
  unfolding worker_run_def
  by (auto intro!: safely_gbindI [OF safely_gfor [of node_ok]] run_task_safe worker_done_safe)

lemma on_queue_safe:
  assumes "node_ok n" "\<And>d e. f d \<noteq> Panic e"
  shows "safely node_ok (on_queue f n)"
proof -
  have "safely node_ok (gbind (f d) (\<lambda>d. Ret (n\<lparr>disconnector := Some (AnyDisconnectQueue d)\<rparr>)))" for d
    using assms by (cases "f d") (auto simp: node_ok_def)
  then show ?thesis by (simp add: on_queue_def split: option.split Disconnector.split)
qed

lemma node_do_safe:
  assumes "node_ok n" "event_ok e"
  shows "safely node_ok (node_do e n)"
proof (cases e)
  case (Accepted enc url headers uid)
  with assms show ?thesis by (simp add: NewSession_ok)
next
  case (Authenticated ctl s)
  with assms show ?thesis by (auto intro!: safely_gbindI [OF Authenticate_safe])
next
  case (ReadFrom custom ctl s input)
  with assms show ?thesis by (auto intro!: safely_gbindI [OF Serve_turn_safe])
next
  case (HubTurn c c')
  with assms(1) show ?thesis
    using hub_ok_turn [OF hub_ok_of_node [OF assms(1)], of "session_info n" c c'] hub_turn_no_panic
    by (cases "hub_turn (session_info n) c c' (hub n)") (auto intro: node_ok_hub)
next
  case (QueueRunTurn c)
  have "Run_select c d \<noteq> Panic e" for d e
    by (cases "select c (queue_ready d)") (auto simp: Run_select_def split: QueueCase.split)
  with QueueRunTurn assms(1) show ?thesis by (simp add: on_queue_safe)
next
  case QueueTick
  have "gbind (Run_tick d) (\<lambda>(d, _). Ret d) \<noteq> Panic e" for d e
    by (cases "dq_run d") (auto simp: Run_tick_def)
  with QueueTick assms(1) show ?thesis by (simp add: on_queue_safe)
next
  case (QueueDrained err)
  have "gbind (Shutdown_take err d) (\<lambda>(d, _). Ret d) \<noteq> Panic e" for d e
    by (auto simp: Shutdown_take_def split: ShutdownPoint.split list.split)
  with QueueDrained assms(1) show ?thesis by (simp add: on_queue_safe)
qed (use assms(1) in \<open>simp_all add: SendMessages_turn_safe sendPing_safe HandlePubSub_safe
    worker_take_safe worker_run_safe collectStatsOnce_safe close_one_safe shutdown_begin_safe
    on_queue_safe Shutdown_start_def Shutdown_timeout_def Let_def split: ShutdownPoint.split\<close>)

lemma node_ok_step: "node_ok n \<Longrightarrow> node_step n n' \<Longrightarrow> node_ok n'"
  by (erule node_step.cases) (use node_do_safe in \<open>fastforce dest: safely_RetD\<close>)

interpretation node_machine: invariant_of node_started node_step node_ok
  by unfold_locales (fact node_ok_started, fact node_ok_step)

section \<open>Properties\<close>


definition silent_controller :: Controller where
  "silent_controller =
    (let r = \<lparr>StopAllStreams = False, cmd_Disconnect = False, Streams = [], StoppedStreams = [],
         cmd_Transmissions = [], cmd_Broadcasts = [], cmd_CState = None, cmd_IState = None,
         cmd_Status = SUCCESS\<rparr>
     in \<lparr>ctl_Authenticate = (\<lambda>_ _. (Some \<lparr>conn_Identifier = ''i'', conn_Transmissions = [''{}''],
           conn_Broadcasts = [], conn_CState = None, conn_IState = None, conn_Status = SUCCESS\<rparr>, None)),
         ctl_Subscribe = (\<lambda>_ _ _ _. (Some r, None)), ctl_Unsubscribe = (\<lambda>_ _ _ _. (Some r, None)),
         ctl_Perform = (\<lambda>_ _ _ _ _. (Some r, None)), ctl_Disconnect = (\<lambda>_ _ _ _. None)\<rparr>)"

interpretation silent: controller silent_controller
  by unfold_locales (simp_all add: silent_controller_def Let_def)

definition node_executors :: Executors where
  "node_executors = (\<lambda>_. HandleCommand silent_controller)"

lemma small_node_started: "\<exists>n. node_started n"
proof -
  obtain n where "NewNode small_session \<lparr>counters = [], gauges = []\<rparr> NewConfig = Ret n"
    by (simp add: NewNode_def NewHub_def NewConfig_def NewGoPool_positive)
  then have "node_started (SetDisconnector NoopDisconnectQueue n)"
    using small_session_ok unfolding node_started_def by blast
  then show ?thesis ..
qed


end
