(* ===== verification/Broadcast.thy ===== *)
theory Broadcast
  imports Node_Safety
begin

text \<open>
  Broadcasting to a stream, from the task the hub schedules to the buffers of the subscribed
  sessions. The task encodes the message of each channel identifier once and reuses the encoding;
  the result is shown to be the one of encoding it for every recipient. Recipients are the sessions
  registered under the ids the stream's index lists.
\<close>

section \<open>Sending with room in the buffer\<close>

definition push :: "sref \<Rightarrow> SentFrame list \<Rightarrow> Node \<Rightarrow> Node" where
  "push s fs = on_session s (\<lambda>x. x\<lparr>sendBuf := sendBuf x @ fs\<rparr>)"

text \<open>A session whose channel is detached takes nothing.\<close>

definition deliver :: "sref \<Rightarrow> SentFrame list \<Rightarrow> Node \<Rightarrow> Node" where
  "deliver s fs n = (if sendCh (heap n s) then push s fs n else n)"

definition room_for :: "nat \<Rightarrow> Session \<Rightarrow> bool" where
  "room_for k x \<longleftrightarrow> sendCh x \<longrightarrow> \<not> sendClosed x \<and> length (sendBuf x) + k \<le> 256"

definition result_frames :: "SentFrame result \<Rightarrow> SentFrame list" where
  "result_frames r = (case r of (Some f, None) \<Rightarrow> [f] | _ \<Rightarrow> [])"

lemma push_Nil [simp]: "push s [] n = n"
  by (simp add: push_def on_session_def)

lemma deliver_Nil [simp]: "deliver s [] n = n"
  by (simp add: deliver_def)

lemma push_simps [simp]:
  "hub (push s fs n) = hub n" "node_Metrics (push s fs n) = node_Metrics n"
  "heap (push s fs n) t = (if t = s then (heap n s)\<lparr>sendBuf := sendBuf (heap n s) @ fs\<rparr> else heap n t)"
  by (simp_all add: push_def)

lemma deliver_simps [simp]:
  "hub (deliver s fs n) = hub n"
  "UID (heap (deliver s fs n) t) = UID (heap n t)"
  "encoder (heap (deliver s fs n) t) = encoder (heap n t)"
  "sendCh (heap (deliver s fs n) t) = sendCh (heap n t)"
  by (simp_all add: deliver_def)

lemma heap_deliver:
  "heap (deliver s fs n) t =
    (if t = s \<and> sendCh (heap n s) then (heap n s)\<lparr>sendBuf := sendBuf (heap n s) @ fs\<rparr> else heap n t)"
  by (simp add: deliver_def)

lemma deliver_append: "deliver s (fs @ gs) n = deliver s gs (deliver s fs n)"
  by (simp add: deliver_def push_def on_session_def)

lemma sendFrame_deliver: "room_for 1 (heap n s) \<Longrightarrow> sendFrame f s n = Ret (deliver s [f] n)"
  by (cases "sendCh (heap n s)") (simp_all add: room_for_def deliver_def push_def sendFrame_room)

lemma send_result_deliver:
  "room_for (length (result_frames r)) (heap n s) \<Longrightarrow>
   send_result r s n = Ret (deliver s (result_frames r) n)"
  by (auto simp: send_result_def result_frames_def sendFrame_deliver split: prod.splits option.splits)

lemma room_for_deliver:
  "room_for (length fs + k) (heap n s) \<Longrightarrow> room_for k (heap (deliver s fs n) s)"
  by (auto simp: room_for_def deliver_def)

lemma room_for_other: "t \<noteq> s \<Longrightarrow> room_for k (heap (deliver s fs n) t) = room_for k (heap n t)"
  by (simp add: deliver_def)

lemma room_for_mono: "room_for k x \<Longrightarrow> j \<le> k \<Longrightarrow> room_for j x"
  by (auto simp: room_for_def)

section \<open>The cache\<close>

definition stream_reply :: "(string \<Rightarrow> string option) \<Rightarrow> string \<Rightarrow> string \<Rightarrow> EncodedMessage" where
  "stream_reply f64 data ident =
     MReply \<lparr>reply_Type = [], reply_Identifier = ident, reply_Message = unmarshal_any f64 data\<rparr>"

definition stream_frame :: "(string \<Rightarrow> string option) \<Rightarrow> string \<Rightarrow> string \<Rightarrow> SentFrame" where
  "stream_frame f64 data ident = text_frame (marshal_message (stream_reply f64 data ident))"

definition cached_ok :: "(string \<Rightarrow> string option) \<Rightarrow> string \<Rightarrow> string \<Rightarrow> OutMessage \<Rightarrow> bool" where
  "cached_ok f64 data ident m \<longleftrightarrow> (\<exists>c. m = Cached \<lparr>target = stream_reply f64 data ident, cache = c\<rparr> \<and>
     json_enc.faithful f64 (stream_reply f64 data ident) c)"

definition buffer_ok :: "(string \<Rightarrow> string option) \<Rightarrow> string \<Rightarrow> (string, OutMessage) gomap \<Rightarrow> bool" where
  "buffer_ok f64 data buf \<longleftrightarrow> (\<forall>ident m. map_of buf ident = Some m \<longrightarrow> cached_ok f64 data ident m)"

lemma cached_ok_build: "cached_ok f64 data ident (Cached (buildMessage f64 data ident))"
  by (simp add: cached_ok_def buildMessage_def NewCachedEncodedMessage_def stream_reply_def
      json_enc.faithful_def)

lemma Send_cached:
  assumes "cached_ok f64 data ident m" "encoder (heap n s) = JSON f64" "room_for 1 (heap n s)"
  shows "\<exists>m'. Send m s n = Ret (deliver s [stream_frame f64 data ident] n, m') \<and>
    cached_ok f64 data ident m'"
proof -
  from assms(1) obtain c where m: "m = Cached \<lparr>target = stream_reply f64 data ident, cache = c\<rparr>"
    and f: "json_enc.faithful f64 (stream_reply f64 data ident) c"
    by (auto simp: cached_ok_def)
  obtain c' where c': "Fetch c (stream_reply f64 data ident) ''json'' JSON_Encode =
      Ret ((Some (stream_frame f64 data ident), None), c')"
    and f': "json_enc.faithful f64 (stream_reply f64 data ident) c'"
    using json_enc.fetch_outcome [OF f] by (auto simp: json_frame_of stream_frame_def)
  then show ?thesis
    using assms(2,3) send_result_deliver [of "(Some (stream_frame f64 data ident), None)" n s]
    by (auto simp: Send_def m CachedEncodedMessage_Fetch_def result_frames_def cached_ok_def)
qed

lemma broadcast_to_deliver:
  assumes "buffer_ok f64 data buf" "encoder (heap n s) = JSON f64" "room_for 1 (heap n s)"
  shows "\<exists>buf'. broadcast_to f64 data s ident (n, buf) =
      Ret (deliver s [stream_frame f64 data ident] n, buf') \<and> buffer_ok f64 data buf'"
proof -
  define m where "m = (case map_of buf ident of Some m \<Rightarrow> m | None \<Rightarrow> Cached (buildMessage f64 data ident))"
  have "cached_ok f64 data ident m"
    using assms(1) cached_ok_build by (auto simp: m_def buffer_ok_def split: option.split)
  from Send_cached [OF this assms(2,3)] obtain m' where
    "Send m s n = Ret (deliver s [stream_frame f64 data ident] n, m')" "cached_ok f64 data ident m'" by blast
  with assms(1) show ?thesis
    by (auto simp: broadcast_to_def m_def [symmetric] buffer_ok_def gomap_simps)
qed

lemma broadcast_session_deliver:
  assumes "buffer_ok f64 data buf" "encoder (heap n s) = JSON f64" "room_for (length ids) (heap n s)"
  shows "\<exists>buf'. gfor ids (broadcast_to f64 data s) (n, buf) =
      Ret (deliver s (map (stream_frame f64 data) ids) n, buf') \<and> buffer_ok f64 data buf'"
  using assms
proof (induction ids arbitrary: n buf)
  case (Cons i js)
  have "room_for 1 (heap n s)" using Cons.prems(3) by (rule room_for_mono) simp
  from broadcast_to_deliver [OF Cons.prems(1,2) this, of i] obtain buf1 where
    1: "broadcast_to f64 data s i (n, buf) = Ret (deliver s [stream_frame f64 data i] n, buf1)"
    "buffer_ok f64 data buf1" by blast
  have "room_for (length js) (heap (deliver s [stream_frame f64 data i] n) s)"
    using Cons.prems(3) by (intro room_for_deliver) simp
  from Cons.IH [OF 1(2) _ this] Cons.prems(2) obtain buf2 where
    "gfor js (broadcast_to f64 data s) (deliver s [stream_frame f64 data i] n, buf1) =
       Ret (deliver s (map (stream_frame f64 data) js) (deliver s [stream_frame f64 data i] n), buf2)"
    "buffer_ok f64 data buf2" by auto
  with 1(1) show ?case by (simp add: deliver_append [symmetric])
qed simp

section \<open>All recipients\<close>

text \<open>What the task delivers: to each listed session that is registered, one frame per identifier.\<close>

definition recipient :: "(string \<Rightarrow> string option) \<Rightarrow> string \<Rightarrow> string \<times> string list \<Rightarrow> Node \<Rightarrow> Node" where
  "recipient f64 data = (\<lambda>(sid, ids) n. case map_of (sessions (hub n)) sid of
     None \<Rightarrow> n | Some s \<Rightarrow> deliver s (map (stream_frame f64 data) ids) n)"

text \<open>Every registered session is registered under its own id.\<close>

definition own_ids :: "Node \<Rightarrow> bool" where
  "own_ids n \<longleftrightarrow> (\<forall>sid s. map_of (sessions (hub n)) sid = Some s \<longrightarrow> UID (heap n s) = sid)"

definition json_sessions :: "(string \<Rightarrow> string option) \<Rightarrow> Node \<Rightarrow> bool" where
  "json_sessions f64 n \<longleftrightarrow> (\<forall>s. encoder (heap n s) = JSON f64)"

definition room_all :: "(string \<times> string list) list \<Rightarrow> Node \<Rightarrow> bool" where
  "room_all L n \<longleftrightarrow> (\<forall>(sid, ids) \<in> set L. \<forall>s. map_of (sessions (hub n)) sid = Some s \<longrightarrow>
     room_for (length ids) (heap n s))"

lemma recipient_simps [simp]:
  "hub (recipient f64 data r n) = hub n"
  "UID (heap (recipient f64 data r n) t) = UID (heap n t)"
  "encoder (heap (recipient f64 data r n) t) = encoder (heap n t)"
  "sendCh (heap (recipient f64 data r n) t) = sendCh (heap n t)"
  by (simp_all add: recipient_def split: prod.split option.split)

lemma heap_recipient_other:
  "own_ids n \<Longrightarrow> UID (heap n t) \<noteq> fst r \<Longrightarrow> heap (recipient f64 data r n) t = heap n t"
  by (auto simp: recipient_def own_ids_def heap_deliver split: prod.split option.split)

lemma heap_recipient:
  assumes "own_ids n"
  shows "heap (recipient f64 data (sid, ids) n) t =
    (if map_of (sessions (hub n)) sid = Some t \<and> sendCh (heap n t)
     then (heap n t)\<lparr>sendBuf := sendBuf (heap n t) @ map (stream_frame f64 data) ids\<rparr> else heap n t)"
  by (auto simp: recipient_def heap_deliver split: option.split)

lemma own_ids_recipient: "own_ids n \<Longrightarrow> own_ids (recipient f64 data r n)"
  by (simp add: own_ids_def)

lemma room_all_recipient:
  assumes "own_ids n" "room_all (r # L) n" "distinct (map fst (r # L))"
  shows "room_all L (recipient f64 data r n)"
  unfolding room_all_def
proof (clarsimp)
  fix sid ids s
  assume L: "(sid, ids) \<in> set L" and s: "map_of (sessions (hub n)) sid = Some s"
  from L have "sid \<in> set (map fst L)" by force
  with assms(3) have "sid \<noteq> fst r" by (metis distinct.simps(2) list.simps(9))
  moreover from s assms(1) have "UID (heap n s) = sid" by (simp add: own_ids_def)
  ultimately have "heap (recipient f64 data r n) s = heap n s"
    using heap_recipient_other [OF assms(1)] by simp
  with assms(2) L s show "room_for (length ids) (heap (recipient f64 data r n) s)"
    by (auto simp: room_all_def)
qed

lemma broadcast_loop:
  assumes "buffer_ok f64 data buf" "json_sessions f64 n" "own_ids n" "room_all L n" "distinct (map fst L)"
  shows "\<exists>buf'. gfor L (broadcast_session f64 data) (n, buf) =
    Ret (fold (recipient f64 data) L n, buf') \<and> buffer_ok f64 data buf'"
  using assms
proof (induction L arbitrary: n buf)
  case (Cons r L)
  obtain sid ids where r: "r = (sid, ids)" by (cases r)
  have "\<exists>buf'. broadcast_session f64 data r (n, buf) = Ret (recipient f64 data r n, buf') \<and>
      buffer_ok f64 data buf'"
  proof (cases "map_of (sessions (hub n)) sid")
    case None
    with Cons.prems(1) r show ?thesis by (simp add: broadcast_session_def recipient_def)
  next
    case (Some s)
    with Cons.prems(4) r have "room_for (length ids) (heap n s)" by (auto simp: room_all_def)
    with Cons.prems(2) broadcast_session_deliver [OF Cons.prems(1) _ this] Some r show ?thesis
      by (simp add: broadcast_session_def recipient_def json_sessions_def)
  qed
  then obtain buf1 where 1: "broadcast_session f64 data r (n, buf) = Ret (recipient f64 data r n, buf1)"
    "buffer_ok f64 data buf1" by blast
  have "\<exists>buf'. gfor L (broadcast_session f64 data) (recipient f64 data r n, buf1) =
      Ret (fold (recipient f64 data) L (recipient f64 data r n), buf') \<and> buffer_ok f64 data buf'"
    using Cons.prems by (intro Cons.IH 1(2) own_ids_recipient room_all_recipient)
      (auto simp: json_sessions_def)
  with 1(1) show ?case by simp
qed simp

lemma fold_recipient_simps [simp]:
  "hub (fold (recipient f64 data) L n) = hub n"
  "UID (heap (fold (recipient f64 data) L n) t) = UID (heap n t)"
  "sendCh (heap (fold (recipient f64 data) L n) t) = sendCh (heap n t)"
  by (induction L arbitrary: n) simp_all

lemma heap_fold_recipient:
  assumes "own_ids n" "distinct (map fst L)"
  shows "heap (fold (recipient f64 data) L n) t =
    (if map_of (sessions (hub n)) (UID (heap n t)) = Some t \<and> sendCh (heap n t)
     then (heap n t)\<lparr>sendBuf := sendBuf (heap n t) @ map (stream_frame f64 data) (mfind L (UID (heap n t)))\<rparr>
     else heap n t)"
  using assms
proof (induction L arbitrary: n)
  case Nil
  then show ?case by (simp add: mfind_def)
next
  case (Cons r L)
  obtain sid ids where r: "r = (sid, ids)" by (cases r)
  have IH: "heap (fold (recipient f64 data) L (recipient f64 data r n)) t =
    (let x = heap (recipient f64 data r n) t in
     if map_of (sessions (hub n)) (UID (heap n t)) = Some t \<and> sendCh (heap n t)
     then x\<lparr>sendBuf := sendBuf x @ map (stream_frame f64 data) (mfind L (UID (heap n t)))\<rparr> else x)"
    using Cons.IH [OF own_ids_recipient [OF Cons.prems(1)]] Cons.prems(2) by (simp add: Let_def)
  show ?case
  proof (cases "UID (heap n t) = sid")
    case True
    with Cons.prems(2) r have "mfind L (UID (heap n t)) = []" by (simp add: mfind_not_mhas mhas_iff_key)
    with True IH r show ?thesis
      by (auto simp: Let_def heap_recipient [OF Cons.prems(1)] mfind_def)
  next
    case False
    with IH r heap_recipient_other [OF Cons.prems(1), of t r f64 data] show ?thesis
      by (simp add: Let_def mfind_def)
  qed
qed

lemma streamSessionsSnapshot_find: "mfind (streamSessionsSnapshot m) sid = mkeys (mfind m sid)"
  by (induction m) (auto simp: streamSessionsSnapshot_def mfind_def split: option.splits)

lemma streamSessionsSnapshot_keys: "map fst (streamSessionsSnapshot m) = map fst m"
  by (simp add: streamSessionsSnapshot_def split_def)

section \<open>Properties\<close>

text \<open>The channel identifiers a session has on a stream.\<close>

definition channels_on :: "Hub \<Rightarrow> string \<Rightarrow> string \<Rightarrow> string list" where
  "channels_on h stream sid = mkeys (mfind (mfind (streams h) stream) sid)"

lemma broadcast_task_delivers:
  assumes "hub_inv (hub n)" and "own_ids n" and "json_sessions f64 n"
    and "\<And>sid s. map_of (sessions (hub n)) sid = Some s \<Longrightarrow>
      room_for (length (channels_on (hub n) stream sid)) (heap n s)"
  shows "\<exists>n'. broadcast_task f64 stream data n = Ret n' \<and> hub n' = hub n \<and>
    (\<forall>s. heap n' s =
      (if map_of (sessions (hub n)) (UID (heap n s)) = Some s \<and> sendCh (heap n s)
       then (heap n s)\<lparr>sendBuf := sendBuf (heap n s) @
              map (stream_frame f64 data) (channels_on (hub n) stream (UID (heap n s)))\<rparr>
       else heap n s)) \<and>
    (\<forall>sid. distinct (channels_on (hub n) stream sid) \<and>
       set (channels_on (hub n) stream sid) = {ident. subscribed (hub n) stream sid ident})"
proof -
  let ?L = "streamSessionsSnapshot (mfind (streams (hub n)) stream)"
  have maps: "stream_maps (streams (hub n))" using assms(1) by (simp add: hub_inv_def hub_maps_def)
  then have d: "distinct (map fst ?L)"
    by (simp add: streamSessionsSnapshot_keys stream_maps_def)
  have "room_all ?L n"
    unfolding room_all_def
  proof (clarify)
    fix sid ids s
    assume L: "(sid, ids) \<in> set ?L" and s: "map_of (sessions (hub n)) sid = Some s"
    from L d have "map_of ?L sid = Some ids" by simp
    then have "ids = channels_on (hub n) stream sid"
      using streamSessionsSnapshot_find [of "mfind (streams (hub n)) stream" sid]
      by (simp add: mfind_def channels_on_def)
    with assms(4) [OF s] show "room_for (length ids) (heap n s)" by simp
  qed
  from broadcast_loop [OF _ assms(3,2) this d, of data "[]"] obtain buf where
    "gfor ?L (broadcast_session f64 data) (n, []) = Ret (fold (recipient f64 data) ?L n, buf)"
    by (auto simp: buffer_ok_def)
  then have "broadcast_task f64 stream data n = Ret (fold (recipient f64 data) ?L n)"
    by (simp add: broadcast_task_def)
  moreover have "distinct (channels_on (hub n) stream sid) \<and>
      set (channels_on (hub n) stream sid) = {ident. subscribed (hub n) stream sid ident}" for sid
    using maps by (auto simp: channels_on_def stream_maps_def subscribed_def mhas_iff_key)
  ultimately show ?thesis
    using heap_fold_recipient [OF assms(2) d]
    by (simp add: streamSessionsSnapshot_find channels_on_def)
qed

text \<open>
  C2. A broadcast reaches exactly its subscribers, each once. When every registered session has room
  for its frames, the task of a broadcast returns, leaves the hub unchanged, and appends to the
  buffer of each registered session one frame for every channel identifier the session is
  subscribed to the stream with, and nothing to any other session. Each frame is the message encoded
  for that identifier, although the task encodes once and reuses it.
\<close>

theorem broadcast_delivers:
  assumes "hub_inv (hub n)" and "own_ids n" and "json_sessions f64 n"
    and "\<And>sid s. map_of (sessions (hub n)) sid = Some s \<Longrightarrow>
      room_for (length (channels_on (hub n) stream sid)) (heap n s)"
  shows "\<exists>n'. broadcast_task f64 stream data n = Ret n' \<and> hub n' = hub n \<and>
    (\<forall>s. heap n' s =
      (if map_of (sessions (hub n)) (UID (heap n s)) = Some s \<and> sendCh (heap n s)
       then (heap n s)\<lparr>sendBuf := sendBuf (heap n s) @
              map (stream_frame f64 data) (channels_on (hub n) stream (UID (heap n s)))\<rparr>
       else heap n s)) \<and>
    (\<forall>sid. distinct (channels_on (hub n) stream sid) \<and>
       set (channels_on (hub n) stream sid) = {ident. subscribed (hub n) stream sid ident})"
  using assms by (rule broadcast_task_delivers)

definition listening_node :: Node where
  "listening_node = small_node\<lparr>hub := subscribeSession ''u'' ''news'' ''ch''
     (addSession 0 ''u'' ''i'' small_hub),
     heap := (\<lambda>s. if s = 0 then small_session else small_session\<lparr>UID := ''other''\<rparr>)\<rparr>"

lemma listening_node_ready:
  "hub_inv (hub listening_node)" "own_ids listening_node" "json_sessions (\<lambda>_. None) listening_node"
  using small_hub_ok hub_inv_hub_op [of small_hub "OpAdd 0 ''u'' ''i''"]
    hub_inv_hub_op [of _ "OpSubscribe ''u'' ''news'' ''ch''"]
  by (auto simp: listening_node_def hub_ok_def own_ids_def json_sessions_def small_session_def
      gomap_simps small_hub_def split: if_splits)

theorem broadcast_delivers_witness:
  "\<exists>n'. broadcast_task (\<lambda>_. None) ''news'' ''[]'' listening_node = Ret n' \<and>
     sendBuf (heap n' 0) = [stream_frame (\<lambda>_. None) ''[]'' ''ch'']"
proof -
  have ch: "channels_on (hub listening_node) ''news'' sid = (if sid = ''u'' then [''ch''] else [])" for sid
    by (simp add: channels_on_def listening_node_def subscribeSession_def Let_def addSession_def
        small_hub_def mfind_def)
  have "room_for (length (channels_on (hub listening_node) ''news'' sid)) (heap listening_node s)" for sid s
    unfolding ch by (simp add: room_for_def listening_node_def small_session_def)
  from broadcast_delivers [OF listening_node_ready this, where data = "''[]''"]
  obtain n' where "broadcast_task (\<lambda>_. None) ''news'' ''[]'' listening_node = Ret n'"
    and "heap n' 0 = (if map_of (sessions (hub listening_node)) (UID (heap listening_node 0)) = Some 0 \<and>
        sendCh (heap listening_node 0)
       then (heap listening_node 0)\<lparr>sendBuf := sendBuf (heap listening_node 0) @
              map (stream_frame (\<lambda>_. None) ''[]'')
                (channels_on (hub listening_node) ''news'' (UID (heap listening_node 0)))\<rparr>
       else heap listening_node 0)"
    by blast
  then show ?thesis
    unfolding ch by (simp add: listening_node_def small_session_def gomap_simps small_hub_def)
qed

text \<open>
  A published text that is not JSON is not sent as a string: for every text the parser rejects,
  the frame a subscriber gets has the message \<^verbatim>\<open>null\<close>, the same as for the JSON text \<^verbatim>\<open>null\<close>.
\<close>

theorem invalid_json_becomes_null:
  assumes "json_parse data = None"
  shows "stream_frame f64 data ident = stream_frame f64 ''null'' ident \<and>
    target (buildMessage f64 data ident) =
      MReply \<lparr>reply_Type = [], reply_Identifier = ident, reply_Message = JNull\<rparr>"
proof -
  have "json_parse ''null'' = Some JNull" by code_simp
  with assms show ?thesis
    by (simp add: stream_frame_def stream_reply_def unmarshal_any_def buildMessage_def
        NewCachedEncodedMessage_def)
qed

theorem invalid_json_becomes_null_witness:
  "stream_frame (\<lambda>_. None) ''hello'' ''ch'' = stream_frame (\<lambda>_. None) ''null'' ''ch''"
proof -
  have "json_parse ''hello'' = None" by code_simp
  then show ?thesis using invalid_json_becomes_null by blast
qed

end
