(* ===== verification/Protocol.thy ===== *)
theory Protocol
  imports Encoding
begin

text \<open>
  The messages of the RPC protocol (the structs of \<^verbatim>\<open>protos/rpc.pb.go\<close>) and their conversion
  to and from the server's own data, from \<^verbatim>\<open>protocol/protocol.go\<close>. A map field of a message is
  \<open>None\<close> when it is nil. The fields of the generated structs that only serve the protobuf library
  are left out.

  The theorems: a response is turned into a result with the status the application sent, and the
  state an application returns for a channel is what the next command of that channel carries.
\<close>

section \<open>Messages\<close>

type_synonym Status = int

definition Status_ERROR :: Status where "Status_ERROR = 0"

definition Status_SUCCESS :: Status where "Status_SUCCESS = 1"

definition Status_FAILURE :: Status where "Status_FAILURE = 2"

definition Status_name :: "(int, string) gomap" where
  "Status_name = [(0, ''ERROR''), (1, ''SUCCESS''), (2, ''FAILURE'')]"

text \<open>A status outside the enumeration is printed as a number.\<close>

definition Status_String :: "Status \<Rightarrow> string" where
  "Status_String x = (case map_of Status_name x of Some s \<Rightarrow> s | None \<Rightarrow> int_text x)"

record Env =
  Url :: string
  env_Headers :: "(string, string) gomap"
  env_Cstate :: "(string, string) gomap option"
  env_Istate :: "(string, string) gomap option"

record EnvResponse =
  Cstate :: "(string, string) gomap option"
  Istate :: "(string, string) gomap option"

record ConnectionRequest =
  creq_Env :: Env

record ConnectionResponse =
  cr_Status :: Status
  cr_Identifiers :: string
  cr_Transmissions :: "string list"
  cr_ErrorMsg :: string
  cr_Env :: "EnvResponse option"

record CommandMessage =
  cm_Command :: string
  cm_Identifier :: string
  cm_ConnectionIdentifiers :: string
  cm_Data :: string
  cm_Env :: Env

record CommandResponse =
  co_Status :: Status
  co_Disconnect :: bool
  co_StopStreams :: bool
  co_Streams :: "string list"
  co_Transmissions :: "string list"
  co_ErrorMsg :: string
  co_Env :: "EnvResponse option"
  co_StoppedStreams :: "string list"

record DisconnectRequest =
  dr_Identifiers :: string
  dr_Subscriptions :: "string list"
  dr_Env :: Env

record DisconnectResponse =
  dresp_Status :: Status
  dresp_ErrorMsg :: string

section \<open>Building requests\<close>

text \<open>The headers are behind a pointer, which is followed without a check.\<close>

definition buildEnv :: "SessionEnv \<Rightarrow> Env go" where
  "buildEnv e = (case Headers e of
     None \<Rightarrow> Panic nil_deref
   | Some hs \<Rightarrow> Ret \<lparr>Url = URL e, env_Headers = hs,
       env_Cstate = ConnectionState e, env_Istate = None\<rparr>)"

text \<open>The text of a \<^verbatim>\<open>map[string]string\<close>.\<close>

definition state_text :: "(string, string) gomap \<Rightarrow> string" where
  "state_text m = jtext (JObj (map (map_prod id JStr) m))"

definition buildDisconnectEnv :: "SessionEnv \<Rightarrow> Env go" where
  "buildDisconnectEnv e = gbind (buildEnv e) (\<lambda>p. Ret (case ChannelStates e of
     None \<Rightarrow> p
   | Some cs \<Rightarrow> p\<lparr>env_Istate := Some (fold (\<lambda>(ident, st) m. mput ident (state_text st) m) cs [])\<rparr>))"

definition buildChannelEnv :: "string \<Rightarrow> SessionEnv \<Rightarrow> Env go" where
  "buildChannelEnv ident e = gbind (buildEnv e) (\<lambda>p. Ret (case ChannelStates e of
     None \<Rightarrow> p
   | Some cs \<Rightarrow> if mhas cs ident then p\<lparr>env_Istate := map_of cs ident\<rparr> else p))"

definition NewConnectMessage :: "SessionEnv \<Rightarrow> ConnectionRequest go" where
  "NewConnectMessage e = gbind (buildEnv e) (\<lambda>p. Ret \<lparr>creq_Env = p\<rparr>)"

definition NewCommandMessage ::
  "SessionEnv \<Rightarrow> string \<Rightarrow> string \<Rightarrow> string \<Rightarrow> string \<Rightarrow> CommandMessage go" where
  "NewCommandMessage e cmd channel idents data = gbind (buildChannelEnv channel e) (\<lambda>p.
     let msg = \<lparr>cm_Command = cmd, cm_Identifier = channel, cm_ConnectionIdentifiers = idents,
                cm_Data = [], cm_Env = p\<rparr>
     in Ret (if data \<noteq> [] then msg\<lparr>cm_Data := data\<rparr> else msg))"

definition NewDisconnectMessage :: "SessionEnv \<Rightarrow> string \<Rightarrow> string list \<Rightarrow> DisconnectRequest go" where
  "NewDisconnectMessage e idents subs = gbind (buildDisconnectEnv e) (\<lambda>p.
     Ret \<lparr>dr_Identifiers = idents, dr_Subscriptions = subs, dr_Env = p\<rparr>)"

section \<open>Reading responses\<close>

definition application_error :: "string \<Rightarrow> error" where
  "application_error msg = Err (''Application error: '' @ msg)"

definition ParseConnectResponse :: "ConnectionResponse \<Rightarrow> ConnectResult result" where
  "ParseConnectResponse r =
     (let reply = \<lparr>conn_Identifier = [], conn_Transmissions = cr_Transmissions r,
        conn_Broadcasts = [], conn_CState = None, conn_IState = None, conn_Status = 0\<rparr>;
        reply = (case cr_Env r of None \<Rightarrow> reply | Some e \<Rightarrow> reply\<lparr>conn_CState := Cstate e\<rparr>)
      in if Status_String (cr_Status r) = ''SUCCESS''
         then (Some (reply\<lparr>conn_Identifier := cr_Identifiers r, conn_Status := SUCCESS\<rparr>), None)
         else if Status_String (cr_Status r) = ''FAILURE''
         then (Some (reply\<lparr>conn_Status := FAILURE\<rparr>), None)
         else (Some (reply\<lparr>conn_Status := ERROR\<rparr>), Some (application_error (cr_ErrorMsg r))))"

definition ParseCommandResponse :: "CommandResponse \<Rightarrow> CommandResult result" where
  "ParseCommandResponse r =
     (let res = \<lparr>StopAllStreams = co_StopStreams r, cmd_Disconnect = co_Disconnect r,
        Streams = co_Streams r, StoppedStreams = co_StoppedStreams r,
        cmd_Transmissions = co_Transmissions r, cmd_Broadcasts = [],
        cmd_CState = None, cmd_IState = None, cmd_Status = 0\<rparr>;
        res = (case co_Env r of
          None \<Rightarrow> res | Some e \<Rightarrow> res\<lparr>cmd_CState := Cstate e, cmd_IState := Istate e\<rparr>)
      in if Status_String (co_Status r) = ''SUCCESS'' then (Some (res\<lparr>cmd_Status := SUCCESS\<rparr>), None)
         else if Status_String (co_Status r) = ''FAILURE''
         then (Some (res\<lparr>cmd_Status := FAILURE\<rparr>), None)
         else (Some (res\<lparr>cmd_Status := ERROR\<rparr>), Some (application_error (co_ErrorMsg r))))"

definition ParseDisconnectResponse :: "DisconnectResponse \<Rightarrow> error option" where
  "ParseDisconnectResponse r =
     (if Status_String (dresp_Status r) \<noteq> ''ERROR'' then None
      else Some (application_error (dresp_ErrorMsg r)))"

section \<open>Facts about responses\<close>

lemma nat_text_Cons: "\<exists>c r. nat_text n = c # r \<and> byte c \<le> 57"
proof (induction n rule: nat_text.induct)
  case (1 n)
  show ?case
  proof (cases "n < 10")
    case True then show ?thesis by (subst nat_text.simps) (simp add: of_char_of)
  next
    case False
    with 1 obtain c r where "nat_text (n div 10) = c # r" "byte c \<le> 57" by blast
    with False show ?thesis by (subst nat_text.simps) simp
  qed
qed

lemma int_text_Cons: "\<exists>c r. int_text x = c # r \<and> byte c \<le> 57"
  using nat_text_Cons [of "nat x"] by (auto simp: int_text_def)

lemma Status_String_iff:
  "Status_String x = ''ERROR'' \<longleftrightarrow> x = Status_ERROR"
  "Status_String x = ''SUCCESS'' \<longleftrightarrow> x = Status_SUCCESS"
  "Status_String x = ''FAILURE'' \<longleftrightarrow> x = Status_FAILURE"
  using int_text_Cons [of x]
  by (auto simp: Status_String_def Status_name_def Status_ERROR_def Status_SUCCESS_def
      Status_FAILURE_def)


lemma ParseConnectResponse_result: "ParseConnectResponse r = (c, err) \<Longrightarrow> c \<noteq> None"
  by (auto simp: ParseConnectResponse_def Let_def split: if_splits)

lemma ParseCommandResponse_result: "ParseCommandResponse r = (c, err) \<Longrightarrow> c \<noteq> None"
  by (auto simp: ParseCommandResponse_def Let_def split: if_splits)

section \<open>Channel state\<close>

text \<open>
  C19. The state an application returns with the reply to a command of a channel is what the next
  command of that channel carries: keys with an empty value are gone, other keys have the new
  value, keys that were not mentioned keep theirs, and the commands of every other channel are
  built as before.
\<close>

theorem channel_state_kept:
  assumes st: "gomap st" and hs: "Headers e = Some hs" and cs: "ChannelStates e = Some cs"
  shows "\<exists>e' p m. MergeChannelState e ident st = Ret e' \<and>
     NewCommandMessage e' cmd ident idents data = Ret p \<and> env_Istate (cm_Env p) = Some m \<and>
     (\<forall>k. map_of m k = (case map_of st k of
        None \<Rightarrow> map_of (mfind cs ident) k | Some v \<Rightarrow> if v = [] then None else Some v)) \<and>
     (\<forall>ch. ch \<noteq> ident \<longrightarrow>
        NewCommandMessage e' cmd ch idents data = NewCommandMessage e cmd ch idents data)"
proof -
  define cs0 where "cs0 = (if \<not> mhas cs ident then mput ident [] cs else cs)"
  define cs' where
    "cs' = fold (\<lambda>kv cs. mput ident (merge_entry kv (mfind cs ident)) cs) st cs0"
  have old: "mfind cs0 ident = mfind cs ident" "map_of cs0 ident \<noteq> None"
    "\<And>ch. ch \<noteq> ident \<Longrightarrow> map_of cs0 ch = map_of cs ch"
    by (auto simp: cs0_def gomap_simps mhas_def)
  have new: "map_of cs' ch = (if ch = ident then Some (fold merge_entry st (mfind cs ident))
      else map_of cs ch)" for ch
    using old by (simp add: cs'_def fold_merge_channel)
  have "MergeChannelState e ident st = Ret (e\<lparr>ChannelStates := Some cs'\<rparr>)"
    by (simp add: MergeChannelState_def cs cs'_def cs0_def Let_def)
  then show ?thesis
    using map_of_merge [OF st, of "mfind cs ident"]
    by (simp add: NewCommandMessage_def buildChannelEnv_def buildEnv_def Let_def hs cs new mhas_def)
qed

theorem channel_state_kept_witness:
  "\<exists>e' p m. MergeChannelState \<lparr>URL = ''/cable'', Headers = Some [], ConnectionState = Some [],
       ChannelStates = Some [(''chat'', [(''room'', ''1''), (''user'', ''2'')])]\<rparr>
       ''chat'' [(''room'', ''7''), (''user'', [])] = Ret e' \<and>
     NewCommandMessage e' ''message'' ''chat'' ''id'' ''hi'' = Ret p \<and>
     env_Istate (cm_Env p) = Some m \<and> map_of m ''room'' = Some ''7'' \<and> map_of m ''user'' = None"
  using channel_state_kept [of "[(''room'', ''7''), (''user'', [])]"
      "\<lparr>URL = ''/cable'', Headers = Some [], ConnectionState = Some [],
       ChannelStates = Some [(''chat'', [(''room'', ''1''), (''user'', ''2'')])]\<rparr>" "[]"
      "[(''chat'', [(''room'', ''1''), (''user'', ''2'')])]" "''chat''" "''message''" "''id''" "''hi''"]
  by fastforce

end
