(* ===== verification/Json_Roundtrip.thy ===== *)
theory Json_Roundtrip
  imports Protocol
begin

text \<open>
  What is written as JSON is read back as what it was: \<open>json_parse\<close> inverts \<open>jtext\<close>, up to the order
  of the members of an object, and inverts the text of every message the JSON encoder writes.
\<close>

section \<open>Strings\<close>

lemma byte_eq_iff: "byte c = byte d \<longleftrightarrow> c = d"
  by (rule of_char_eq_iff)

lemma byte_less_256: "byte c < 256"
  using of_char_mod_256 [of c] by (metis mod_less_divisor zero_less_numeral)

lemma hexval_hexdigit: "n < 16 \<Longrightarrow> hexval (hexdigit n) = Some n"
  by (auto simp: hexval_def hexdigit_def between_def of_char_of)

lemma hexval_0: "hexval (CHR ''0'') = Some 0"
  by (simp add: hexval_def between_def)

lemma hex_escape:
  "byte c < 128 \<Longrightarrow>
   unicode_escape (CHR ''0'' # CHR ''0'' # hexdigit (byte c div 16) # hexdigit (byte c mod 16) # r) = Some ([c], r)"
proof -
  assume c: "byte c < 128"
  then have "hexval (hexdigit (byte c div 16)) = Some (byte c div 16)"
    "hexval (hexdigit (byte c mod 16)) = Some (byte c mod 16)" by (simp_all add: hexval_hexdigit)
  moreover have "16 * (byte c div 16) + byte c mod 16 = byte c" by simp
  ultimately show ?thesis using c
    by (simp add: unicode_escape_def hexval_0 utf8_enc_def)
qed

lemma unit_esc_char: "byte c < 128 \<Longrightarrow> string_unit (esc_char c @ r) = Some ([c], r)"
  by (auto simp: esc_char_def string_unit_def hex_escape)

lemma esc_char_front: "\<exists>x xs. esc_char c = x # xs \<and> x \<noteq> CHR 0x22"
  by (auto simp: esc_char_def)

lemma utf8_size_cases:
  assumes "0 < utf8_size s"
  obtains (two) c0 c1 t where "s = c0 # c1 # t" "between 194 223 c0" "cont c1" "utf8_size s = 2"
  | (three) c0 c1 c2 t where "s = c0 # c1 # c2 # t" "\<not> between 194 223 c0" "between 224 239 c0" "cont c2"
      "if byte c0 = 224 then between 160 191 c1
       else if byte c0 = 237 then between 128 159 c1 else cont c1" "utf8_size s = 3"
  | (four) c0 c1 c2 c3 t where "s = c0 # c1 # c2 # c3 # t" "\<not> between 194 223 c0" "\<not> between 224 239 c0"
      "between 240 244 c0" "cont c2" "cont c3"
      "if byte c0 = 240 then between 144 191 c1
       else if byte c0 = 244 then between 128 143 c1 else cont c1" "utf8_size s = 4"
proof -
  obtain c0 c1 r where s: "s = c0 # c1 # r"
    using assms by (cases s rule: remdups_adj.cases) (auto simp: utf8_size_def)
  show thesis
  proof (cases "between 194 223 c0")
    case True
    with assms s have "cont c1" by (simp add: utf8_size_def split: if_splits)
    with True s show thesis by (intro two [of c0 c1 r]) (simp_all add: utf8_size_def)
  next
    case 2: False
    with assms s obtain c2 r' where r: "r = c2 # r'" by (cases r) (simp_all add: utf8_size_def)
    let ?c1 = "if byte c0 = 224 then between 160 191 c1 else if byte c0 = 237 then between 128 159 c1 else cont c1"
    let ?d1 = "if byte c0 = 240 then between 144 191 c1 else if byte c0 = 244 then between 128 143 c1 else cont c1"
    show thesis
    proof (cases "between 224 239 c0")
      case True
      have "utf8_size s = (if cont c2 \<and> ?c1 then 3 else 0)"
        unfolding s r utf8_size_def list.case using 2 True by (simp only: if_True if_False)
      with assms have "cont c2" ?c1 "utf8_size s = 3" by (simp_all only: split: if_splits) simp_all
      with 2 True s r show thesis by (intro three [of c0 c1 c2 r']) simp_all
    next
      case False
      with assms s r 2 obtain c3 t where t: "r' = c3 # t" by (cases r') (simp_all add: utf8_size_def)
      have "utf8_size s = (if between 240 244 c0 \<and> cont c2 \<and> cont c3 \<and> ?d1 then 4 else 0)"
        unfolding s r t utf8_size_def list.case using 2 False by (simp only: if_True if_False)
      with assms have "between 240 244 c0" "cont c2" "cont c3" ?d1 "utf8_size s = 4"
        by (simp_all only: split: if_splits) simp_all
      with 2 False s r t show thesis by (intro four [of c0 c1 c2 c3 t]) simp_all
    qed
  qed
qed

lemma utf8_size_append:
  assumes "0 < utf8_size s"
  shows "utf8_size (take (utf8_size s) s @ r) = utf8_size s"
  using assms
proof (cases s rule: utf8_size_cases)
  case (two c0 c1 t)
  then show ?thesis by (simp add: utf8_size_def)
next
  case (three c0 c1 c2 t)
  then have "take (utf8_size s) s @ r = c0 # c1 # c2 # r" by simp
  with three show ?thesis by (simp add: utf8_size_def)
next
  case (four c0 c1 c2 c3 t)
  then have "take (utf8_size s) s @ r = c0 # c1 # c2 # c3 # r" by simp
  with four show ?thesis by (simp add: utf8_size_def)
qed

lemma jstring_unit:
  assumes "string_unit (x # xs) = Some (u, r)" "x \<noteq> CHR 0x22"
  shows "jstring (x # xs) = map_option (\<lambda>(t, r'). (u @ t, r')) (jstring r)"
  using assms by (simp add: jstring.simps [of "x # xs"])

lemma unit_multi:
  assumes "\<not> byte c < 128" "0 < utf8_size (c # r)"
  shows "string_unit (take (utf8_size (c # r)) (c # r) @ rest) = Some (take (utf8_size (c # r)) (c # r), rest)"
proof -
  let ?n = "utf8_size (c # r)"
  obtain xs where xs: "take ?n (c # r) @ rest = c # xs" using assms(2) by (cases "?n") simp_all
  have n: "utf8_size (c # xs) = ?n" using utf8_size_append [OF assms(2), of rest] by (simp add: xs)
  have len: "length (take ?n (c # r)) = ?n"
    using assms(2) by (cases rule: utf8_size_cases) simp_all
  have "c \<noteq> CHR 0x5C" using assms(1) by auto
  then have "string_unit (c # xs) = Some (take ?n (c # xs), drop ?n (c # xs))"
    using assms by (simp add: string_unit_def n Let_def)
  then show ?thesis using len by (simp flip: xs)
qed

lemma jstring_u2028: "jstring (CHR 0x5C # ''u2028'' @ rest) =
    map_option (\<lambda>(t, r'). ([CHR 0xE2, CHR 0x80, CHR 0xA8] @ t, r')) (jstring rest)"
  and jstring_u2029: "jstring (CHR 0x5C # ''u2029'' @ rest) =
    map_option (\<lambda>(t, r'). ([CHR 0xE2, CHR 0x80, CHR 0xA9] @ t, r')) (jstring rest)"
proof -
  have "string_unit (CHR 0x5C # ''u2028'' @ rest) = Some ([CHR 0xE2, CHR 0x80, CHR 0xA8], rest)"
    "string_unit (CHR 0x5C # ''u2029'' @ rest) = Some ([CHR 0xE2, CHR 0x80, CHR 0xA9], rest)"
    by (simp_all add: string_unit_def unicode_escape_def hexval_def between_def utf8_enc_def char_of_def
        bit_simps)
  then show "jstring (CHR 0x5C # ''u2028'' @ rest) =
    map_option (\<lambda>(t, r'). ([CHR 0xE2, CHR 0x80, CHR 0xA8] @ t, r')) (jstring rest)"
    and "jstring (CHR 0x5C # ''u2029'' @ rest) =
    map_option (\<lambda>(t, r'). ([CHR 0xE2, CHR 0x80, CHR 0xA9] @ t, r')) (jstring rest)"
    by (simp_all add: jstring_unit)
qed

text \<open>A rune of several bytes at the front of a string.\<close>

lemma quote_multi:
  assumes "\<not> byte c < 128" "0 < utf8_size (c # s)"
    and "s' = drop (utf8_size (c # s) - 1) s"
  shows "jstring (quote_body (c # s) @ rest) =
      map_option (\<lambda>(t, r). (take (utf8_size (c # s)) (c # s) @ t, r)) (jstring (quote_body s' @ rest))"
proof -
  let ?n = "utf8_size (c # s)"
  have three: "take ?n (c # s) = take 3 (c # s)" if "take 3 (c # s) = [CHR 0xE2, x, y]" for x y
    using assms(2) by (cases rule: utf8_size_cases) (use that in \<open>simp_all add: between_def\<close>)
  consider (ls) "take 3 (c # s) = [CHR 0xE2, CHR 0x80, CHR 0xA8]" | (ps) "take 3 (c # s) = [CHR 0xE2, CHR 0x80, CHR 0xA9]"
    | (other) "take 3 (c # s) \<noteq> [CHR 0xE2, CHR 0x80, CHR 0xA8]" "take 3 (c # s) \<noteq> [CHR 0xE2, CHR 0x80, CHR 0xA9]"
    by blast
  then show ?thesis
  proof cases
    case ls
    have "quote_body (c # s) = CHR 0x5C # ''u2028'' @ quote_body s'"
      using assms by (subst quote_body.simps) (simp only: ls Let_def if_False if_True, simp)
    with jstring_u2028 [of "quote_body s' @ rest"] show ?thesis by (simp only: three [OF ls] ls append.simps append_assoc)
  next
    case ps
    then have "quote_body (c # s) = CHR 0x5C # ''u2029'' @ quote_body s'"
      using assms by (subst quote_body.simps) (simp only: ps Let_def if_False if_True, simp)
    with jstring_u2029 [of "quote_body s' @ rest"] show ?thesis by (simp only: three [OF ps] ps append.simps append_assoc)
  next
    case other
    then have q: "quote_body (c # s) = take ?n (c # s) @ quote_body s'"
      using assms by (subst quote_body.simps) (simp only: Let_def if_False if_True, simp)
    obtain xs where xs: "take ?n (c # s) = c # xs" using assms(2) by (cases ?n) simp_all
    have "c \<noteq> CHR 0x22" using assms(1) by auto
    with unit_multi [OF assms(1,2), of "quote_body s' @ rest"] show ?thesis
      by (simp add: q xs jstring_unit del: quote_body.simps)
  qed
qed

text \<open>A quoted string of valid UTF-8 is read back as it was.\<close>

lemma jstring_quote_body: "valid_utf8 s \<Longrightarrow> jstring (quote_body s @ CHR 0x22 # r) = Some (s, r)"
proof (induction "length s" arbitrary: s rule: less_induct)
  case less
  show ?case
  proof (cases s)
    case Nil
    then show ?thesis by (simp add: jstring.simps)
  next
    case (Cons c s1)
    show ?thesis
    proof (cases "byte c < 128")
      case True
      obtain x xs where x: "esc_char c = x # xs" "x \<noteq> CHR 0x22" using esc_char_front by blast
      from unit_esc_char [OF True, of "quote_body s1 @ CHR 0x22 # r"] x
      have "jstring (esc_char c @ quote_body s1 @ CHR 0x22 # r) =
          map_option (\<lambda>(t, r'). ([c] @ t, r')) (jstring (quote_body s1 @ CHR 0x22 # r))"
        by (simp add: jstring_unit)
      with less.hyps [of s1] less.prems Cons True show ?thesis by simp
    next
      case False
      define n s' where "n = utf8_size (c # s1)" and "s' = drop (n - 1) s1"
      from less.prems Cons False have n: "0 < n" "valid_utf8 s'" by (simp_all add: n_def s'_def)
      have "take n (c # s1) @ s' = c # s1"
        using n(1) append_take_drop_id [of n "c # s1"] by (simp add: s'_def drop_Cons' del: append_take_drop_id)
      moreover have "jstring (quote_body s' @ CHR 0x22 # r) = Some (s', r)"
        using less.hyps [of s'] n Cons by (simp add: s'_def)
      moreover have "jstring (quote_body (c # s1) @ CHR 0x22 # r) =
          map_option (\<lambda>(t, r). (take n (c # s1) @ t, r)) (jstring (quote_body s' @ CHR 0x22 # r))"
        using quote_multi [OF False, of s1 s'] n by (simp add: n_def s'_def)
      ultimately show ?thesis using Cons by (simp del: quote_body.simps)
    qed
  qed
qed

section \<open>Numbers\<close>

text \<open>What a text that follows a number, or a part of one, must not start with.\<close>

definition starts_not :: "char set \<Rightarrow> string \<Rightarrow> bool" where
  "starts_not cs r \<longleftrightarrow> (case r of [] \<Rightarrow> True | c # _ \<Rightarrow> \<not> is_digit c \<and> c \<notin> cs)"

abbreviation num_ends :: "string \<Rightarrow> bool" where
  "num_ends \<equiv> starts_not {CHR ''.'', CHR ''e'', CHR ''E''}"

lemma starts_not_mono: "starts_not cs r \<Longrightarrow> ds \<subseteq> cs \<Longrightarrow> starts_not ds r"
  by (auto simp: starts_not_def split: list.splits)

lemma digits_append: "digits s = Some (t, r0) \<Longrightarrow> starts_not {} r \<Longrightarrow> digits (s @ r) = Some (t, r0 @ r)"
  by (cases r) (auto simp: digits_def starts_not_def Let_def takeWhile_append dropWhile_append
      takeWhile_eq_all_conv [THEN iffD2] split: if_splits)

lemma int_part_append: "int_part s = Some (t, r0) \<Longrightarrow> starts_not {} r \<Longrightarrow> int_part (s @ r) = Some (t, r0 @ r)"
  using digits_append [of s t r0 r] by (auto simp: int_part_def split: list.splits if_splits)

lemma frac_part_append:
  "frac_part s = Some (t, r0) \<Longrightarrow> starts_not {CHR ''.''} r \<Longrightarrow> frac_part (s @ r) = Some (t, r0 @ r)"
proof (cases s)
  case (Cons c s')
  assume "frac_part s = Some (t, r0)" "starts_not {CHR ''.''} r"
  with Cons show ?thesis using digits_append [of s' _ r0 r] starts_not_mono [of _ r "{}"]
    by (auto simp: frac_part_def split: if_splits)
qed (auto simp: frac_part_def starts_not_def split: list.splits)

lemma exp_part_append: "exp_part s = Some (t, r0) \<Longrightarrow> num_ends r \<Longrightarrow> exp_part (s @ r) = Some (t, r0 @ r)"
proof (cases s)
  case (Cons c s')
  assume "exp_part s = Some (t, r0)" "num_ends r"
  with Cons show ?thesis
    using digits_append [of s' _ r0 r] digits_append [of "tl s'" _ r0 r] starts_not_mono [of _ r "{}"]
    by (auto simp: exp_part_def split: if_splits list.splits)
qed (auto simp: exp_part_def starts_not_def split: list.splits)

lemma number_body_append:
  assumes "number_body s = Some (t, r0)" "num_ends r"
  shows "number_body (s @ r) = Some (t, r0 @ r)"
proof -
  from assms(1) obtain i r1 f r2 e where
    *: "int_part s = Some (i, r1)" "frac_part r1 = Some (f, r2)" "exp_part r2 = Some (e, r0)" "t = i @ f @ e"
    by (auto simp: number_body_def split: option.splits)
  have "starts_not {} r" "starts_not {CHR ''.''} r" using assms(2) by (auto elim: starts_not_mono)
  then show ?thesis
    by (simp add: number_body_def int_part_append [OF *(1)] frac_part_append [OF *(2)]
        exp_part_append [OF *(3) assms(2)] *(4))
qed

definition number_literal :: "string \<Rightarrow> bool" where
  "number_literal t \<longleftrightarrow> jnumber t = Some (t, [])"

lemma jnumber_append: "number_literal t \<Longrightarrow> num_ends r \<Longrightarrow> jnumber (t @ r) = Some (t, r)"
proof -
  assume "number_literal t" "num_ends r"
  then show ?thesis
    using number_body_append [of t t "[]" r] number_body_append [of "tl t" "tl t" "[]" r]
    by (auto simp: number_literal_def jnumber_def split: list.splits if_splits)
qed

text \<open>What is read as a number is a literal on its own.\<close>

lemma digits_self: "digits s = Some (d, r) \<Longrightarrow> digits d = Some (d, []) \<and> (\<exists>c t. d = c # t \<and> is_digit c)"
proof -
  assume "digits s = Some (d, r)"
  then have d: "d = takeWhile is_digit s" "d \<noteq> []" by (auto simp: digits_def Let_def split: if_splits)
  then have "\<forall>c \<in> set d. is_digit c" by (auto dest: set_takeWhileD)
  with d(2) show ?thesis
    by (cases d) (auto simp: digits_def Let_def takeWhile_eq_all_conv [THEN iffD2] dropWhile_eq_Nil_conv)
qed

lemma int_part_self: "int_part s = Some (i, r) \<Longrightarrow> int_part i = Some (i, [])"
  using digits_self [of s i r] by (auto simp: int_part_def digits_def split: list.splits if_splits)

lemma frac_part_self: "frac_part s = Some (f, r) \<Longrightarrow> frac_part f = Some (f, []) \<and> starts_not {} f"
proof (cases s)
  case (Cons c s')
  assume "frac_part s = Some (f, r)"
  with Cons show ?thesis using digits_self [of s' _ r]
    by (auto simp: frac_part_def starts_not_def is_digit_def between_def split: if_splits)
qed (simp add: frac_part_def starts_not_def)

lemma exp_part_self: "exp_part s = Some (e, r) \<Longrightarrow> exp_part e = Some (e, []) \<and> starts_not {CHR ''.''} e"
proof (cases s)
  case (Cons c s')
  assume e: "exp_part s = Some (e, r)"
  have sign: "\<not> is_digit (CHR ''+'')" "\<not> is_digit (CHR ''-'')" "\<not> is_digit (CHR ''e'')" "\<not> is_digit (CHR ''E'')"
    by (simp_all add: is_digit_def between_def)
  from e Cons consider "e = []"
    | g s'' d where "s' = g # s''" "g = CHR ''+'' \<or> g = CHR ''-''" "digits s'' = Some (d, r)" "e = c # g # d"
        "c = CHR ''e'' \<or> c = CHR ''E''"
    | d where "digits s' = Some (d, r)" "e = c # d" "c = CHR ''e'' \<or> c = CHR ''E''"
    by (auto simp: exp_part_def split: if_splits list.splits)
  then show ?thesis
  proof cases
    case 2
    with digits_self [OF 2(3)] sign show ?thesis by (auto simp: exp_part_def starts_not_def)
  next
    case 3
    with digits_self [OF 3(1)] sign show ?thesis by (auto simp: exp_part_def starts_not_def)
  qed (simp add: exp_part_def starts_not_def)
qed (simp add: exp_part_def starts_not_def)

lemma number_body_self:
  assumes "number_body s = Some (t, r)"
  shows "number_body t = Some (t, []) \<and> take 1 t \<noteq> ''-''"
proof -
  from assms obtain i r1 f r2 e where
    *: "int_part s = Some (i, r1)" "frac_part r1 = Some (f, r2)" "exp_part r2 = Some (e, r)" "t = i @ f @ e"
    by (auto simp: number_body_def split: option.splits)
  have "starts_not {} (f @ e)"
    using frac_part_self [OF *(2)] starts_not_mono [of _ e "{}"] exp_part_self [OF *(3)]
    by (cases f) (auto simp: starts_not_def)
  then have "int_part (i @ f @ e) = Some (i, f @ e)" "frac_part (f @ e) = Some (f, e)"
    using int_part_append [OF int_part_self [OF *(1)]] frac_part_append [of f f "[]" e]
      frac_part_self [OF *(2)] exp_part_self [OF *(3)] by auto
  then have "number_body t = Some (t, [])"
    using exp_part_self [OF *(3)] by (simp add: number_body_def *(4))
  moreover have "take 1 t \<noteq> ''-''"
    using int_part_self [OF *(1)]
    by (cases i) (auto simp: *(4) int_part_def digits_def is_digit_def between_def Let_def split: if_splits)
  ultimately show ?thesis by blast
qed

lemma jnumber_self: "jnumber s = Some (t, r) \<Longrightarrow> number_literal t"
proof (cases s)
  case (Cons c s')
  assume "jnumber s = Some (t, r)"
  with Cons show ?thesis
    using number_body_self [of s t r] number_body_self [of s' _ r]
    by (cases t) (auto simp: number_literal_def jnumber_def number_body_def [of "[]"] int_part_def [of "[]"]
        split: if_splits)
qed (simp add: jnumber_def)

lemma digits_front: "digits (c # r) \<noteq> None \<longleftrightarrow> is_digit c"
  by (simp add: digits_def Let_def)

lemma number_front:
  assumes "number_literal t"
  obtains c t' where "t = c # t'" "is_digit c \<or> c = CHR ''-''"
proof (cases t)
  case (Cons c t')
  have "is_digit c \<or> c = CHR ''-''"
    using assms Cons digits_front [of c t']
    by (auto simp: number_literal_def jnumber_def number_body_def int_part_def is_digit_def between_def
        split: option.splits if_splits)
  with Cons that show thesis by blast
qed (use assms in \<open>simp add: number_literal_def jnumber_def\<close>)

section \<open>Values\<close>

text \<open>Values that have a text: valid UTF-8 in strings and names, literals as numbers.\<close>

primrec json_ok :: "jvalue \<Rightarrow> bool" where
  "json_ok JNull = True"
| "json_ok (JBool b) = True"
| "json_ok (JNum t) = number_literal t"
| "json_ok (JStr s) = valid_utf8 s"
| "json_ok (JArr vs) = list_all id (map json_ok vs)"
| "json_ok (JObj ms) = list_all (\<lambda>(k, ok). valid_utf8 k \<and> ok) (map (map_prod id json_ok) ms)"

text \<open>How deep arrays and objects are nested.\<close>

primrec jdepth :: "jvalue \<Rightarrow> nat" where
  "jdepth JNull = 0"
| "jdepth (JBool b) = 0"
| "jdepth (JNum t) = 0"
| "jdepth (JStr s) = 0"
| "jdepth (JArr vs) = Suc (fold max (map jdepth vs) 0)"
| "jdepth (JObj ms) = Suc (fold max (map snd (map (map_prod id jdepth) ms)) 0)"

text \<open>The value with the members of every object in the order in which they are written.\<close>

primrec in_order :: "jvalue \<Rightarrow> jvalue" where
  "in_order JNull = JNull"
| "in_order (JBool b) = JBool b"
| "in_order (JNum t) = JNum t"
| "in_order (JStr s) = JStr s"
| "in_order (JArr vs) = JArr (map in_order vs)"
| "in_order (JObj ms) = JObj (sort_key fst (map (map_prod id in_order) ms))"

lemma fold_max_le: "fold max xs (a :: nat) \<le> n \<longleftrightarrow> a \<le> n \<and> (\<forall>x \<in> set xs. x \<le> n)"
  by (induction xs arbitrary: a) auto

lemma insort_key_map_prod:
  "insort_key fst (map_prod id f x) (map (map_prod id f) xs) = map (map_prod id f) (insort_key fst x xs)"
  by (induction xs) auto

lemma sort_key_map_prod: "sort_key fst (map (map_prod id f) xs) = map (map_prod id f) (sort_key fst xs)"
  by (induction xs) (simp_all add: insort_key_map_prod [unfolded id_def] id_def)

definition object_of :: "(string \<times> jvalue) list \<Rightarrow> string" where
  "object_of ms = object_text (map (map_prod id jtext) ms)"

lemma jtext_JObj: "jtext (JObj ms) = object_of (sort_key fst ms)"
  by (simp add: object_of_def sort_key_map_prod)

definition reads :: "nat \<Rightarrow> jvalue \<Rightarrow> bool" where
  "reads d v \<longleftrightarrow> (\<forall>n r. 2 * length (jtext v) \<le> n \<longrightarrow> num_ends r \<longrightarrow> jval n d (jtext v @ r) = Some (in_order v, r))"

lemma skip_ws_quote: "skip_ws (CHR 0x22 # r) = CHR 0x22 # r"
  by (simp add: skip_ws_def is_ws_def)

lemma skip_ws_mark: "c \<in> {CHR '','', CHR '':'', CHR '']'', CHR ''}'', CHR ''['', CHR ''{''} \<Longrightarrow> skip_ws (c # r) = c # r"
  by (auto simp: skip_ws_def is_ws_def)

lemma num_ends_mark: "c \<in> {CHR '','', CHR '']'', CHR ''}''} \<Longrightarrow> num_ends (c # r)"
  by (auto simp: starts_not_def is_digit_def between_def)

lemma join_Cons_eq: "join sep (x # xs) = x @ (if xs = [] then [] else sep @ join sep xs)"
  by (cases xs) simp_all

lemma jelems_text:
  assumes "vs \<noteq> []" "\<forall>v \<in> set vs. reads d v" "2 * length (join '','' (map jtext vs)) < n"
  shows "jelems n d (join '','' (map jtext vs) @ CHR '']'' # r) = Some (map in_order vs, r)"
  using assms
proof (induction vs arbitrary: n)
  case (Cons v vs)
  then obtain m where n: "n = Suc m" by (cases n) simp_all
  have v: "jval m d (jtext v @ c # t) = Some (in_order v, c # t)" if "c \<in> {CHR '','', CHR '']''}" for c t
    using Cons.prems(2,3) num_ends_mark [of c t] that
    by (auto simp: reads_def n join_Cons_eq simp del: join.simps)
  show ?case
  proof (cases "vs = []")
    case True
    then show ?thesis by (simp add: n v skip_ws_mark)
  next
    case False
    then have "jelems m d (join '','' (map jtext vs) @ CHR '']'' # r) = Some (map in_order vs, r)"
      using Cons.prems by (intro Cons.IH) (auto simp: n join_Cons_eq)
    then show ?thesis using False by (simp add: n v skip_ws_mark join_Cons_eq)
  qed
qed simp

definition member_text :: "string \<times> jvalue \<Rightarrow> string" where
  "member_text kv = quote (fst kv) @ CHR '':'' # jtext (snd kv)"

lemma object_of_members: "object_of ms = CHR ''{'' # join '','' (map member_text ms) @ ''}''"
  by (simp add: object_of_def object_text_def member_text_def [abs_def] comp_def case_prod_unfold)

lemma jmembers_text:
  assumes "ms \<noteq> []" "\<forall>(k, v) \<in> set ms. valid_utf8 k \<and> reads d v"
    and "2 * length (join '','' (map member_text ms)) < n"
  shows "jmembers n d (join '','' (map member_text ms) @ CHR ''}'' # r) = Some (map (map_prod id in_order) ms, r)"
  using assms
proof (induction ms arbitrary: n)
  case (Cons kv ms)
  obtain k v where kv: "kv = (k, v)" by fastforce
  from Cons.prems obtain m where n: "n = Suc m" by (cases n) simp_all
  have v: "jval m d (jtext v @ c # t) = Some (in_order v, c # t)" if "c \<in> {CHR '','', CHR ''}''}" for c t
    using Cons.prems(2,3) num_ends_mark [of c t] that
    by (auto simp: reads_def n kv join_Cons_eq member_text_def simp del: join.simps)
  have k: "jstring (quote_body k @ CHR 0x22 # t) = Some (k, t)" for t
    using Cons.prems(2) by (simp add: kv jstring_quote_body)
  show ?case
  proof (cases "ms = []")
    case True
    then show ?thesis by (simp add: n kv v k member_text_def quote_def skip_ws_quote skip_ws_mark)
  next
    case False
    then have "jmembers m d (join '','' (map member_text ms) @ CHR ''}'' # r) =
        Some (map (map_prod id in_order) ms, r)"
      using Cons.prems by (intro Cons.IH) (auto simp: n join_Cons_eq)
    then show ?thesis
      using False
      by (simp add: n kv v k member_text_def [of "(k, v)"] quote_def skip_ws_quote skip_ws_mark join_Cons_eq id_def)
  qed
qed simp

lemma jval_object:
  assumes "\<forall>(k, v) \<in> set ms. valid_utf8 k \<and> reads (Suc d) v" "d < 10000" "2 * length (object_of ms) \<le> n"
  shows "jval n d (object_of ms @ r) = Some (JObj (map (map_prod id in_order) ms), r)"
proof -
  from assms(3) obtain m where n: "n = Suc m" by (cases n) (simp_all add: object_of_members)
  show ?thesis
  proof (cases ms)
    case Nil
    then show ?thesis using assms(2) by (simp add: n object_of_members skip_ws_mark)
  next
    case (Cons kv ms')
    have "jmembers m (Suc d) (join '','' (map member_text ms) @ CHR ''}'' # r) =
        Some (map (map_prod id in_order) ms, r)"
      using assms(1,3) Cons by (intro jmembers_text) (auto simp: n object_of_members)
    moreover have "take 1 (skip_ws (join '','' (map member_text ms) @ CHR ''}'' # r)) \<noteq> ''}''"
      by (simp add: Cons join_Cons_eq member_text_def quote_def skip_ws_quote)
    ultimately show ?thesis using assms(2) by (simp add: n object_of_members skip_ws_mark)
  qed
qed

lemma jval_literal:
  assumes "jliteral (c # t) = Some (v, r)" "0 < n"
    and "\<not> is_ws c" "c \<noteq> CHR 0x22" "c \<noteq> CHR ''[''" "c \<noteq> CHR ''{''"
  shows "jval n d (c # t) = Some (v, r)"
  using assms by (cases n) (simp_all add: skip_ws_def)

lemma jval_number:
  assumes "number_literal t" "num_ends r" "0 < n"
  shows "jval n d (t @ r) = Some (JNum t, r)"
proof -
  obtain c t' where t: "t = c # t'" "is_digit c \<or> c = CHR ''-''" using assms(1) by (rule number_front)
  have c: "\<not> is_ws c" "c \<noteq> CHR 0x22" "c \<noteq> CHR ''[''" "c \<noteq> CHR ''{''" "c \<noteq> CHR ''n''" "c \<noteq> CHR ''t''" "c \<noteq> CHR ''f''"
    using t(2) by (auto simp: is_digit_def between_def is_ws_def)
  have "jliteral (c # t' @ r) = Some (JNum t, r)"
    using jnumber_append [OF assms(1,2)] c by (simp add: jliteral_def t(1))
  then show ?thesis using jval_literal [of c "t' @ r"] c assms(3) by (simp add: t(1))
qed

lemma jtext_front: "json_ok v \<Longrightarrow> \<exists>c t. jtext v = c # t \<and> \<not> is_ws c \<and> c \<noteq> CHR '']''"
proof (cases v)
  case (JNum u)
  moreover assume "json_ok v"
  ultimately obtain c u' where "u = c # u'" "is_digit c \<or> c = CHR ''-''" by (auto elim: number_front)
  with JNum show ?thesis by (auto simp: is_ws_def is_digit_def between_def)
qed (simp_all add: is_ws_def quote_def object_text_def)

lemma jval_array:
  assumes "\<forall>v \<in> set vs. reads (Suc d) v \<and> json_ok v" "d < 10000" "2 * length (jtext (JArr vs)) \<le> n"
  shows "jval n d (jtext (JArr vs) @ r) = Some (JArr (map in_order vs), r)"
proof -
  from assms(3) obtain m where n: "n = Suc m" by (cases n) simp_all
  show ?thesis
  proof (cases vs)
    case Nil
    then show ?thesis using assms(2) by (simp add: n skip_ws_mark)
  next
    case (Cons v vs')
    have "jelems m (Suc d) (join '','' (map jtext vs) @ CHR '']'' # r) = Some (map in_order vs, r)"
      using assms(1,3) Cons by (intro jelems_text) (auto simp: n)
    moreover have "take 1 (skip_ws (jtext v @ t)) \<noteq> '']''" for t
      using jtext_front [of v] assms(1) Cons by (auto simp: skip_ws_def)
    ultimately show ?thesis using assms(2) by (simp add: n skip_ws_mark Cons join_Cons_eq)
  qed
qed

lemma json_reads: "json_ok v \<Longrightarrow> d + jdepth v \<le> 10000 \<Longrightarrow> reads d v"
proof (induction v arbitrary: d)
  case JNull
  show ?case by (auto simp: reads_def jliteral_def is_ws_def intro!: jval_literal)
next
  case (JBool b)
  show ?case by (cases b) (auto simp: reads_def jliteral_def is_ws_def intro!: jval_literal)
next
  case (JNum t)
  then have "t \<noteq> []" by (auto elim: number_front)
  then have "0 < n" if "2 * length t \<le> n" for n using that by (cases n) simp_all
  with JNum show ?case by (auto simp: reads_def intro!: jval_number)
next
  case (JStr s)
  then show ?case
    using jstring_quote_body [of s]
    by (auto simp: reads_def quote_def gr0_conv_Suc dest!: Suc_le_D simp: skip_ws_quote)
next
  case (JArr vs)
  have *: "reads (Suc d) v \<and> json_ok v" if v: "v \<in> set vs" for v
  proof (intro conjI JArr.IH)
    show "json_ok v" using JArr.prems(1) v by (auto simp: list_all_iff)
    then show "json_ok v" .
    show "Suc d + jdepth v \<le> 10000"
      using JArr.prems(2) v fold_max_le [of "map jdepth vs" 0 "9999 - d"] by (auto dest!: bspec)
  qed fact
  have "d < 10000" using JArr.prems(2) by simp
  with * jval_array [of vs d] show ?case by (simp add: reads_def del: jtext.simps)
next
  case (JObj ms)
  have *: "valid_utf8 k \<and> reads (Suc d) v" if kv: "(k, v) \<in> set ms" for k v
  proof (intro conjI JObj.IH)
    show "valid_utf8 k" "json_ok v" using JObj.prems(1) kv by (auto simp: list_all_iff)
    show "Suc d + jdepth v \<le> 10000"
      using JObj.prems(2) kv fold_max_le [of "map snd (map (map_prod id jdepth) ms)" 0 "9999 - d"]
      by (auto dest!: bspec)
    show "(k, v) \<in> set ms" "v \<in> Basic_BNFs.snds (k, v)" by (simp_all add: kv)
  qed
  have d: "d < 10000" using JObj.prems(2) by simp
  have "jval n d (jtext (JObj ms) @ r) = Some (in_order (JObj ms), r)" if "2 * length (jtext (JObj ms)) \<le> n" for n r
    using jval_object [of "sort_key fst ms" d n r] * d that
    by (auto simp: jtext_JObj sort_key_map_prod simp del: jtext.simps)
  then show ?case by (simp add: reads_def del: jtext.simps)
qed

section \<open>What is read has a text\<close>

lemma valid_utf8_append: "valid_utf8 a \<Longrightarrow> valid_utf8 b \<Longrightarrow> valid_utf8 (a @ b)"
proof (induction "length a" arbitrary: a rule: less_induct)
  case less
  show ?case
  proof (cases a)
    case (Cons c a')
    show ?thesis
    proof (cases "byte c < 128")
      case True
      with less Cons show ?thesis by simp
    next
      case False
      let ?n = "utf8_size (c # a')"
      from less.prems(1) Cons False have n: "0 < ?n" "valid_utf8 (drop (?n - 1) a')" by simp_all
      then have len: "?n - 1 \<le> length a'" by (cases rule: utf8_size_cases) simp_all
      have "(c # a') @ b = take ?n (c # a') @ drop ?n (c # a') @ b" by simp
      then have size: "utf8_size ((c # a') @ b) = ?n" using utf8_size_append [OF n(1)] by metis
      have "valid_utf8 (drop (?n - 1) a' @ b)" using less.hyps [of "drop (?n - 1) a'"] less.prems(2) n Cons by simp
      with False n(1) len size Cons show ?thesis by simp
    qed
  qed (use less in simp)
qed

lemma valid_utf8_size:
  assumes "0 < utf8_size s" "utf8_size s = length s" "\<not> byte (hd s) < 128"
  shows "valid_utf8 s"
  using assms by (cases s) simp_all

lemma valid_rune_error: "valid_utf8 rune_error"
  by (simp add: rune_error_def utf8_size_def between_def cont_def)

lemma byte_char_of: "n < 256 \<Longrightarrow> byte (char_of n) = n"
  by (simp add: of_char_of)

lemma valid_two: "between 194 223 c0 \<Longrightarrow> cont c1 \<Longrightarrow> valid_utf8 [c0, c1]"
  by (auto simp: utf8_size_def between_def)

lemma valid_three:
  assumes "between 224 239 c0" "cont c2"
    and "if byte c0 = 224 then between 160 191 c1 else if byte c0 = 237 then between 128 159 c1 else cont c1"
  shows "valid_utf8 [c0, c1, c2]"
proof -
  have "\<not> between 194 223 c0" "\<not> byte c0 < 128" using assms(1) by (simp_all add: between_def)
  with assms show ?thesis by (simp add: utf8_size_def)
qed

lemma valid_four:
  assumes "between 240 244 c0" "cont c2" "cont c3"
    and "if byte c0 = 240 then between 144 191 c1 else if byte c0 = 244 then between 128 143 c1 else cont c1"
  shows "valid_utf8 [c0, c1, c2, c3]"
proof -
  have "\<not> between 194 223 c0" "\<not> between 224 239 c0" "\<not> byte c0 < 128"
    using assms(1) by (simp_all add: between_def)
  with assms show ?thesis by (simp add: utf8_size_def)
qed

lemma between_char_of: "n < 256 \<Longrightarrow> between lo hi (char_of n) \<longleftrightarrow> lo \<le> n \<and> n \<le> hi"
  by (simp add: between_def byte_char_of)

lemma valid_utf8_enc:
  assumes "x < 0xD800 \<or> 0xE000 \<le> x" "x < 0x110000"
  shows "valid_utf8 (utf8_enc x)"
proof -
  consider "x < 128" | "128 \<le> x" "x < 2048" | "2048 \<le> x" "x < 65536" | "65536 \<le> x" by linarith
  then show ?thesis
  proof cases
    case 1
    then show ?thesis by (simp add: utf8_enc_def byte_char_of)
  next
    case 2
    have q: "x = 64 * (x div 64) + x mod 64" "x mod 64 < 64" by simp_all
    have "194 \<le> 192 + x div 64" "192 + x div 64 \<le> 223" "128 + x mod 64 < 192" using 2 q by linarith+
    with 2 show ?thesis
      by (simp add: utf8_enc_def valid_two between_char_of cont_def del: valid_utf8.simps)
  next
    case 3
    define y where "y = x div 64"
    have y: "x div 4096 = y div 64" "32 \<le> y" "y < 1024" "y < 864 \<or> 896 \<le> y"
      using 3 assms(1) div_mult2_eq [of x 64 64] unfolding y_def by simp_all linarith+
    have q: "y = 64 * (y div 64) + y mod 64" "y mod 64 < 64" by simp_all
    have m: "x mod 64 \<le> 63" "y mod 64 \<le> 63"
      using mod_less_divisor [of 64 x] mod_less_divisor [of 64 y] by simp_all
    have "224 + y div 64 \<le> 239" "y div 64 = 0 \<Longrightarrow> 32 \<le> y \<and> y \<le> 63" "y div 64 = 13 \<Longrightarrow> y mod 64 \<le> 31"
      using y(2-4) q by linarith+
    with m have "valid_utf8 [char_of (224 + y div 64), char_of (128 + y mod 64), char_of (128 + x mod 64)]"
      by (intro valid_three) (simp_all add: between_char_of cont_def byte_char_of)
    with 3 y(1) show ?thesis by (simp add: utf8_enc_def y_def del: valid_utf8.simps)
  next
    case 4
    define y where "y = x div 4096"
    have y: "x div 262144 = y div 64" "16 \<le> y" "y < 272"
      using 4 assms(2) div_mult2_eq [of x 4096 64] unfolding y_def by simp_all
    have q: "y = 64 * (y div 64) + y mod 64" "y mod 64 < 64" by simp_all
    have m: "x mod 64 \<le> 63" "x div 64 mod 64 \<le> 63" "y mod 64 \<le> 63"
      using mod_less_divisor [of 64 x] mod_less_divisor [of 64 "x div 64"] mod_less_divisor [of 64 y] by simp_all
    have "240 + y div 64 \<le> 244" "y div 64 = 0 \<Longrightarrow> 16 \<le> y \<and> y \<le> 63" "y div 64 = 4 \<Longrightarrow> y mod 64 \<le> 15"
      using y(2,3) q by linarith+
    with m have "valid_utf8 [char_of (240 + y div 64), char_of (128 + y mod 64),
        char_of (128 + x div 64 mod 64), char_of (128 + x mod 64)]"
      by (intro valid_four) (simp_all add: between_char_of cont_def byte_char_of)
    with 4 y(1) show ?thesis by (simp add: utf8_enc_def y_def del: valid_utf8.simps)
  qed
qed

lemma hexval_bound: "hexval c = Some n \<Longrightarrow> n < 16"
  by (auto simp: hexval_def between_def split: if_splits)

lemma hex4_bound: "hex4 s = Some (x, r) \<Longrightarrow> x < 65536"
proof (induction s rule: hex4.induct)
  case (1 a b c d r0)
  then obtain w x' y z where "hexval a = Some w" "hexval b = Some x'" "hexval c = Some y" "hexval d = Some z"
    "x = 4096 * w + 256 * x' + 16 * y + z" by (auto split: option.splits)
  with hexval_bound [of a w] hexval_bound [of b x'] hexval_bound [of c y] hexval_bound [of d z]
  show ?case by simp
qed simp_all

lemma unicode_escape_valid:
  assumes "unicode_escape s = Some (u, r)"
  shows "valid_utf8 u"
proof -
  from assms obtain x r0 where x: "hex4 s = Some (x, r0)"
    by (auto simp: unicode_escape_def split: option.splits)
  then have bound: "x < 65536" by (rule hex4_bound)
  consider "x < 0xD800 \<or> 0xE000 \<le> x" "u = utf8_enc x" | "u = rune_error"
    | y r' where "hex4 r' = Some (y, r)" "x < 0xDC00" "0xD800 \<le> x" "0xDC00 \<le> y" "y < 0xE000"
        "u = utf8_enc ((x - 0xD800) * 1024 + (y - 0xDC00) + 0x10000)"
    using assms x by (auto simp: unicode_escape_def split: option.splits if_splits list.splits)
  then show ?thesis
  proof cases
    case 1
    with bound show ?thesis by (simp add: valid_utf8_enc)
  next
    case 3
    then have "(x - 0xD800) * 1024 + (y - 0xDC00) + 0x10000 < 0x110000" by simp
    with 3 show ?thesis using valid_utf8_enc [of "(x - 0xD800) * 1024 + (y - 0xDC00) + 0x10000"] by simp
  qed (simp add: valid_rune_error)
qed

lemma string_unit_valid:
  assumes "string_unit s = Some (u, r)"
  shows "valid_utf8 u"
proof (cases s)
  case (Cons c s')
  show ?thesis
  proof (cases "c = CHR 0x5C")
    case True
    with assms Cons show ?thesis
      by (auto simp: string_unit_def split: list.splits if_splits dest: unicode_escape_valid)
  next
    case False
    show ?thesis
    proof (cases "byte c < 128")
      case True
      with False assms Cons show ?thesis by (auto simp: string_unit_def split: if_splits)
    next
      case big: False
      show ?thesis
      proof (cases "utf8_size s = 0")
        case True
        with False big assms Cons show ?thesis by (simp add: string_unit_def valid_rune_error)
      next
        case n: False
        with False big assms Cons have u: "u = take (utf8_size s) s" by (simp add: string_unit_def Let_def)
        from n have "0 < utf8_size s" by simp
        then have "length u = utf8_size s" by (cases rule: utf8_size_cases) (simp_all add: u)
        moreover have "utf8_size u = utf8_size s" using utf8_size_append [of s "[]"] n u by simp
        moreover have "hd u = c" using n Cons u by simp
        ultimately show ?thesis using n big by (intro valid_utf8_size) simp_all
      qed
    qed
  qed
qed (use assms in \<open>simp add: string_unit_def\<close>)

lemma jstring_valid: "jstring s = Some (t, r) \<Longrightarrow> valid_utf8 t"
proof (induction s arbitrary: t r rule: jstring.induct)
  case (1 s)
  from "1.prems" obtain c s' where s: "s = c # s'" by (cases s) (simp_all add: jstring.simps [of "[]"])
  show ?case
  proof (cases "c = CHR 0x22")
    case True
    with "1.prems" s show ?thesis by (simp add: jstring.simps [of "CHR 0x22 # s'"])
  next
    case False
    with "1.prems" s obtain u r' t' where u: "string_unit s = Some (u, r')" "jstring r' = Some (t', r)" "t = u @ t'"
      by (auto simp: jstring.simps [of "c # s'"] split: option.splits)
    from "1.IH" [OF s False u(1) refl u(2)] string_unit_valid [OF u(1)] u(3) show ?thesis
      by (simp add: valid_utf8_append)
  qed
qed

text \<open>What the parser returns has a text, and is nested no deeper than the scanner allows.\<close>

definition readable :: "nat \<Rightarrow> jvalue \<Rightarrow> bool" where
  "readable d v \<longleftrightarrow> json_ok v \<and> d + jdepth v \<le> 10000"

lemma readable_JArr: "readable d (JArr vs) \<longleftrightarrow> d < 10000 \<and> (\<forall>v \<in> set vs. readable (Suc d) v)"
  using fold_max_le [of "map jdepth vs" 0 "9999 - d"] by (auto simp: readable_def list_all_iff)

lemma readable_JObj:
  "readable d (JObj ms) \<longleftrightarrow> d < 10000 \<and> (\<forall>(k, v) \<in> set ms. valid_utf8 k \<and> readable (Suc d) v)"
  using fold_max_le [of "map snd (map (map_prod id jdepth) ms)" 0 "9999 - d"]
  by (auto simp: readable_def list_all_iff)

lemma readable_JStr: "readable d (JStr s) \<longleftrightarrow> valid_utf8 s \<and> d \<le> 10000"
  by (simp add: readable_def)

lemma jliteral_readable: "jliteral s = Some (v, r) \<Longrightarrow> d \<le> 10000 \<Longrightarrow> readable d v"
  by (auto simp: jliteral_def readable_def jnumber_self split: if_splits)

lemma parse_readable:
  shows "jval n d s = Some (v, r) \<Longrightarrow> d \<le> 10000 \<Longrightarrow> readable d v"
    and "jelems n d s = Some (vs, r) \<Longrightarrow> d \<le> 10000 \<Longrightarrow> \<forall>v \<in> set vs. readable d v"
    and "jmembers n d s = Some (ms, r) \<Longrightarrow> d \<le> 10000 \<Longrightarrow> \<forall>(k, v) \<in> set ms. valid_utf8 k \<and> readable d v"
proof (induction n d s and n d s and n d s arbitrary: v r and vs r and ms r rule: jval_jelems_jmembers.induct)
  case (2 n d s)
  from "2.prems"(1) obtain c t where s: "skip_ws s = c # t" by (cases "skip_ws s") simp_all
  consider "c = CHR 0x22" | "c = CHR ''[''" | "c = CHR ''{''" | "c \<notin> {CHR 0x22, CHR ''['', CHR ''{''}" by auto
  then show ?case
  proof cases
    case 1
    with "2.prems" s show ?thesis by (auto simp: readable_def jstring_valid)
  next
    case 2
    with "2.prems" s have d: "d < 10000" by (auto split: if_splits)
    with "2.IH"(1) [OF s] 2 "2.prems"(1) s show ?thesis
      by (auto simp: readable_JArr split: if_splits)
  next
    case 3
    with "2.prems" s have d: "d < 10000" by (auto split: if_splits)
    with "2.IH"(2) [OF s] 3 "2.prems"(1) s show ?thesis
      by (auto simp: readable_JObj split: if_splits)
  next
    case 4
    with "2.prems" s show ?thesis by (auto dest: jliteral_readable)
  qed
next
  case (4 n d s)
  from "4.prems"(1) obtain v0 r0 c t where v: "jval n d s = Some (v0, r0)" "skip_ws r0 = c # t"
    by (auto split: option.splits list.splits)
  with "4.IH"(1) [of v0 r0] "4.IH"(2) [OF v(1) refl v(2)] "4.prems" show ?case
    by (auto split: if_splits)
next
  case (6 n d s)
  from "6.prems"(1) obtain q r0 k r1 c r2 v0 r3 e r4 where
    *: "skip_ws s = q # r0" "\<not> q \<noteq> CHR 0x22" "jstring r0 = Some (k, r1)" "skip_ws r1 = c # r2" "\<not> c \<noteq> CHR '':''"
      "jval n d r2 = Some (v0, r3)" "skip_ws r3 = e # r4"
    by (auto split: option.splits list.splits if_splits)
  have "valid_utf8 k" using *(3) by (rule jstring_valid)
  moreover have "readable d v0" using "6.IH"(1) [OF *(1,2,3) refl *(4,5,6)] "6.prems"(2) by blast
  moreover have "\<forall>(k, v) \<in> set ms'. valid_utf8 k \<and> readable d v"
    if "e = CHR '',''" "jmembers n d r4 = Some (ms', r)" for ms'
    using "6.IH"(2) [OF *(1,2,3) refl *(4,5,6) refl *(7) _ that(1) that(2)] "6.prems"(2) that(1) by simp
  ultimately show ?case using "6.prems"(1) * by (auto split: if_splits)
qed simp_all

lemma json_parse_readable: "json_parse s = Some v \<Longrightarrow> readable 0 v"
  by (auto simp: json_parse_def simp del: jval.simps
      split: option.splits if_splits dest: parse_readable(1))

section \<open>The fuel of the parser is enough\<close>

text \<open>
  Everything the parser reads is shorter by what it has read, so the fuel of \<open>json_parse\<close> is never
  used up: more of it gives the same result.
\<close>

lemma skip_ws_length: "length (skip_ws s) \<le> length s"
  by (simp add: skip_ws_def length_dropWhile_le)

lemma jstring_shrinks: "jstring s = Some (t, r) \<Longrightarrow> length r < length s"
proof (induction s arbitrary: t r rule: jstring.induct)
  case (1 s)
  from "1.prems" obtain c s' where s: "s = c # s'" by (cases s) (simp_all add: jstring.simps [of "[]"])
  show ?case
  proof (cases "c = CHR 0x22")
    case True
    with "1.prems" s show ?thesis by (simp add: jstring.simps [of "CHR 0x22 # s'"])
  next
    case False
    with "1.prems" s obtain u r' t' where u: "string_unit s = Some (u, r')" "jstring r' = Some (t', r)"
      by (auto simp: jstring.simps [of "c # s'"] split: option.splits)
    from "1.IH" [OF s False u(1) refl u(2)] string_unit_length [OF u(1)] show ?thesis by simp
  qed
qed

lemma digits_shrinks: "digits s = Some (t, r) \<Longrightarrow> length r < length s"
  by (cases s) (auto simp: digits_def Let_def le_imp_less_Suc length_dropWhile_le split: if_splits)

lemma int_part_shrinks: "int_part s = Some (t, r) \<Longrightarrow> length r < length s"
  by (auto simp: int_part_def split: list.splits if_splits dest: digits_shrinks)

lemma frac_part_shrinks: "frac_part s = Some (t, r) \<Longrightarrow> length r \<le> length s"
  by (auto simp: frac_part_def split: list.splits if_splits dest: digits_shrinks)

lemma exp_part_shrinks: "exp_part s = Some (t, r) \<Longrightarrow> length r \<le> length s"
  by (auto simp: exp_part_def split: list.splits if_splits dest: digits_shrinks)

lemma number_body_shrinks: "number_body s = Some (t, r) \<Longrightarrow> length r < length s"
  by (fastforce simp: number_body_def split: option.splits
      dest: int_part_shrinks frac_part_shrinks exp_part_shrinks)

lemma jnumber_shrinks: "jnumber s = Some (t, r) \<Longrightarrow> length r < length s"
  by (fastforce simp: jnumber_def split: list.splits if_splits dest: number_body_shrinks)

lemma jliteral_shrinks: "jliteral s = Some (v, r) \<Longrightarrow> length r < length s"
  by (cases s) (auto simp: jliteral_def split: if_splits dest: jnumber_shrinks)

lemma parse_shrinks:
  shows "jval n d s = Some (v, r) \<Longrightarrow> length r < length s"
    and "jelems n d s = Some (vs, r) \<Longrightarrow> length r < length s"
    and "jmembers n d s = Some (ms, r) \<Longrightarrow> length r < length s"
proof (induction n d s and n d s and n d s arbitrary: v r and vs r and ms r rule: jval_jelems_jmembers.induct)
  case (2 n d s)
  from "2.prems"(1) obtain c t where s: "skip_ws s = c # t" by (cases "skip_ws s") simp_all
  then have t: "length t < length s" using skip_ws_length [of s] by simp
  have t': "length (skip_ws t) \<le> length t" by (rule skip_ws_length)
  consider "c = CHR 0x22" | "c = CHR ''[''" | "c = CHR ''{''" | "c \<notin> {CHR 0x22, CHR ''['', CHR ''{''}" by auto
  then show ?case
  proof cases
    case 1
    with "2.prems" s t show ?thesis by (auto dest: jstring_shrinks)
  next
    case 2
    with "2.IH"(1) [OF s] "2.prems" s t t' show ?thesis by (fastforce split: if_splits)
  next
    case 3
    with "2.IH"(2) [OF s] "2.prems" s t t' show ?thesis by (fastforce split: if_splits)
  next
    case 4
    with "2.prems" s t show ?thesis by (auto dest: jliteral_shrinks)
  qed
next
  case (4 n d s)
  from "4.prems"(1) obtain v0 r0 c t where v: "jval n d s = Some (v0, r0)" "skip_ws r0 = c # t"
    by (auto split: option.splits list.splits)
  with skip_ws_length [of r0] "4.IH"(1) [of v0 r0] have "length t < length s" by simp
  with "4.IH"(2) [OF v(1) refl v(2)] "4.prems" v show ?case by (fastforce split: if_splits)
next
  case (6 n d s)
  from "6.prems"(1) obtain q r0 k r1 c r2 v0 r3 e r4 where
    *: "skip_ws s = q # r0" "\<not> q \<noteq> CHR 0x22" "jstring r0 = Some (k, r1)" "skip_ws r1 = c # r2" "\<not> c \<noteq> CHR '':''"
      "jval n d r2 = Some (v0, r3)" "skip_ws r3 = e # r4"
    by (auto split: option.splits list.splits if_splits)
  have "length r3 < length r2" using "6.IH"(1) [OF *(1,2,3) refl *(4,5,6)] .
  then have r4: "length r4 < length s"
    using skip_ws_length [of s] skip_ws_length [of r1] skip_ws_length [of r3] jstring_shrinks [OF *(3)] *(1,4,7)
    by simp
  moreover have "length r < length r4"
    if "e = CHR '',''" "jmembers n d r4 = Some (ms', r)" for ms'
    using "6.IH"(2) [OF *(1,2,3) refl *(4,5,6) refl *(7) _ that(1) that(2)] that(1) by simp
  ultimately show ?case using "6.prems"(1) * by (fastforce split: if_splits)
qed simp_all

lemma parse_fuel:
  shows "2 * length s + 1 \<le> n \<Longrightarrow> jval (n + k) d s = jval n d s"
    and "2 * length s + 2 \<le> n \<Longrightarrow> jelems (n + k) d s = jelems n d s"
    and "2 * length s + 2 \<le> n \<Longrightarrow> jmembers (n + k) d s = jmembers n d s"
proof (induction n d s and n d s and n d s rule: jval_jelems_jmembers.induct)
  case (2 n d s)
  show ?case
  proof (cases "skip_ws s")
    case (Cons c t)
    then have "2 * length t + 2 \<le> n" using skip_ws_length [of s] "2.prems" by simp
    with "2.IH" [OF Cons] Cons show ?thesis by simp
  qed simp
next
  case (4 n d s)
  have v: "jval (n + k) d s = jval n d s" using "4.IH"(1) "4.prems" by simp
  have "jelems (n + k) d r' = jelems n d r'"
    if "jval n d s = Some (v0, r0)" "skip_ws r0 = c # r'" "c \<noteq> CHR '']''" "c = CHR '',''" for v0 r0 c r'
    using "4.IH"(2) [OF that(1) refl that(2,3,4)] parse_shrinks(1) [OF that(1)] skip_ws_length [of r0] that(2) "4.prems"
    by simp
  with v show ?case by (simp split: option.split list.split)
next
  case (6 n d s)
  have v: "jval (n + k) d r2 = jval n d r2"
    if "skip_ws s = q # r0" "\<not> q \<noteq> CHR 0x22" "jstring r0 = Some (k', r1)" "skip_ws r1 = c # r2" "\<not> c \<noteq> CHR '':''"
    for q r0 k' r1 c r2
    using "6.IH"(1) [OF that(1,2,3) refl that(4,5)] jstring_shrinks [OF that(3)] skip_ws_length [of s]
      skip_ws_length [of r1] that(1,4) "6.prems" by simp
  have m: "jmembers (n + k) d r4 = jmembers n d r4"
    if "skip_ws s = q # r0" "\<not> q \<noteq> CHR 0x22" "jstring r0 = Some (k', r1)" "skip_ws r1 = c # r2" "\<not> c \<noteq> CHR '':''"
      "jval n d r2 = Some (v0, r3)" "skip_ws r3 = e # r4" "e \<noteq> CHR ''}''" "e = CHR '',''"
    for q r0 k' r1 c r2 v0 r3 e r4
    using "6.IH"(2) [OF that(1,2,3) refl that(4,5,6) refl that(7,8,9)] jstring_shrinks [OF that(3)] skip_ws_length [of s]
      skip_ws_length [of r1] skip_ws_length [of r3] parse_shrinks(1) [OF that(6)] that(1,4,7) "6.prems" by simp
  from v m show ?case by (simp split: option.split list.split)
qed simp_all

lemma json_parse_fuel:
  assumes "2 * length s + 2 \<le> n"
  shows "json_parse s = (case jval n 0 s of
     None \<Rightarrow> None
   | Some (v, r) \<Rightarrow> if skip_ws r = [] then Some v else None)"
proof -
  obtain k where "n = 2 * length s + 2 + k" using assms by (metis le_Suc_ex)
  then show ?thesis using parse_fuel(1) [of s "2 * length s + 2" k 0] by (simp add: json_parse_def del: jval.simps)
qed

lemma set_mput: "set (mput k v m) \<subseteq> insert (k, v) (set m)"
  by (induction m) (auto split: if_splits)

lemma set_fold_mput: "set (fold (\<lambda>(k, v) m. mput k v m) xs m) \<subseteq> set xs \<union> set m"
proof (induction xs arbitrary: m)
  case (Cons x xs)
  obtain k v where x: "x = (k, v)" by fastforce
  show ?case using Cons [of "mput k v m"] set_mput [of k v m] by (auto simp: x)
qed simp

text \<open>Decoding into an interface keeps a value writable, when formatting a float64 gives a literal.\<close>

lemma any_of_readable:
  assumes "\<forall>t t'. f64 t = Some t' \<longrightarrow> number_literal t'"
  shows "readable d v \<Longrightarrow> readable d (any_of f64 v)"
proof (induction v arbitrary: d)
  case (JNum t)
  with assms show ?case by (auto simp: readable_def num_text_def split: option.splits if_splits)
next
  case (JArr vs)
  then show ?case by (auto simp: readable_JArr)
next
  case (JObj ms)
  have "valid_utf8 k \<and> readable (Suc d) w" if kw: "(k, w) \<in> set (map (map_prod id (any_of f64)) ms)" for k w
  proof -
    from kw obtain v where v: "(k, v) \<in> set ms" "w = any_of f64 v" by auto
    have "readable (Suc d) w" unfolding v(2)
      using JObj.prems v(1) by (intro JObj.IH [of "(k, v)"]) (auto simp: readable_JObj)
    with JObj.prems v(1) show ?thesis by (auto simp: readable_JObj)
  qed
  with set_fold_mput [of "map (map_prod id (any_of f64)) ms" "[]"] JObj.prems show ?case
    by (fastforce simp: readable_JObj)
qed (simp_all add: readable_def)

section \<open>Round trips\<close>

lemma json_parse_jtext:
  assumes "readable 0 v"
  shows "json_parse (jtext v) = Some (in_order v)"
proof -
  have "num_ends []" by (simp add: starts_not_def)
  moreover have "reads 0 v" using json_reads [of v 0] assms by (simp add: readable_def)
  ultimately have "jval (2 * length (jtext v) + 2) 0 (jtext v @ []) = Some (in_order v, [])"
    unfolding reads_def by (blast intro: le_add1)
  then show ?thesis by (simp add: json_parse_def skip_ws_def del: jval.simps)
qed

lemma json_parse_object:
  assumes "\<forall>(k, v) \<in> set ms. valid_utf8 k \<and> readable 1 v"
  shows "json_parse (object_of ms) = Some (JObj (map (map_prod id in_order) ms))"
proof -
  have "\<forall>(k, v) \<in> set ms. valid_utf8 k \<and> reads (Suc 0) v"
    using assms by (auto simp: readable_def intro!: json_reads)
  from jval_object [OF this, of "2 * length (object_of ms) + 2" "[]"] show ?thesis
    by (simp add: json_parse_def skip_ws_def del: jval.simps)
qed

lemma nat_text_literal:
  "list_all is_digit (nat_text n) \<and> nat_text n \<noteq> [] \<and> (hd (nat_text n) = CHR ''0'' \<longrightarrow> n = 0)"
proof (induction n rule: nat_text.induct)
  case (1 n)
  have d: "is_digit (char_of (48 + k))" "char_of (48 + k) = CHR ''0'' \<longleftrightarrow> k = 0" if "k < 10" for k :: nat
  proof -
    show "is_digit (char_of (48 + k))" using that by (simp add: is_digit_def between_char_of)
    have "char_of (48 + k) = CHR ''0'' \<longleftrightarrow> byte (char_of (48 + k)) = byte (CHR ''0'')" by (simp only: byte_eq_iff)
    with that show "char_of (48 + k) = CHR ''0'' \<longleftrightarrow> k = 0" by (simp add: byte_char_of)
  qed
  show ?case
  proof (cases "n < 10")
    case True
    with d show ?thesis by (simp add: nat_text.simps [of n])
  next
    case False
    with "1.IH" d(1) [of "n mod 10"] show ?thesis by (auto simp: nat_text.simps [of n])
  qed
qed

lemma number_body_digits:
  assumes "list_all is_digit ds" "ds \<noteq> []" "hd ds = CHR ''0'' \<longrightarrow> ds = ''0''"
  shows "number_body ds = Some (ds, [])"
proof -
  have "digits ds = Some (ds, [])"
    using assms(1,2) by (auto simp: digits_def Let_def list_all_iff takeWhile_eq_all_conv [THEN iffD2] dropWhile_eq_Nil_conv)
  with assms(2,3) show ?thesis
    by (cases ds) (auto simp: number_body_def int_part_def frac_part_def exp_part_def)
qed

lemma int_text_literal: "number_literal (int_text i)"
proof -
  have b: "number_body (nat_text n) = Some (nat_text n, [])" for n
    using nat_text_literal [of n] by (intro number_body_digits) (auto simp: nat_text.simps [of 0])
  have "jnumber (nat_text n) = Some (nat_text n, [])" for n
  proof (cases "nat_text n")
    case (Cons c t)
    then have "c \<noteq> CHR ''-''" using nat_text_literal [of n] by (auto simp: is_digit_def between_def)
    with b [of n] Cons show ?thesis by (simp add: jnumber_def)
  qed (use nat_text_literal [of n] in simp)
  with b show ?thesis by (simp add: number_literal_def int_text_def jnumber_def [of "CHR ''-'' # _"])
qed

text \<open>The fields of a message, and the messages whose fields have a text.\<close>

fun message_fields :: "EncodedMessage \<Rightarrow> (string \<times> jvalue) list" where
  "message_fields (MReply r) =
     (if reply_Type r = [] then [] else [(''type'', JStr (reply_Type r))]) @
     [(''identifier'', JStr (reply_Identifier r)), (''message'', reply_Message r)]"
| "message_fields (MPing p) = [(''type'', JStr (ping_Type p)), (''message'', JNum (int_text (ping_Message p)))]"
| "message_fields (MDisconnect d) =
     [(''type'', JStr (dm_Type d)), (''reason'', JStr (dm_Reason d)), (''reconnect'', JBool (dm_Reconnect d))]"

definition message_ok :: "EncodedMessage \<Rightarrow> bool" where
  "message_ok msg \<longleftrightarrow> (\<forall>(k, v) \<in> set (message_fields msg). readable 1 v)"

lemma marshal_object: "marshal_message msg = object_of (message_fields msg)"
  by (cases msg) (simp_all add: object_of_def)

lemma field_names_valid: "(k, v) \<in> set (message_fields msg) \<Longrightarrow> valid_utf8 k"
  by (cases msg) (auto split: if_splits)

text \<open>
  Every message the JSON encoder writes is read back as it was: for a reply, a ping and a
  disconnect message whose strings are valid UTF-8, whose numbers are literals and whose nesting the
  scanner allows, encoding succeeds with a text frame whose payload is a JSON object with exactly the
  fields of the message in their order, each with its value, the members of the objects inside in
  sorted order.
\<close>

theorem encoder_roundtrip:
  assumes "message_ok msg"
  shows "\<exists>frame. JSON_Encode msg = Ret (Some frame, None) \<and> FrameType frame = TextFrame \<and>
     json_parse (Payload frame) = Some (JObj (map (map_prod id in_order) (message_fields msg)))"
proof -
  have "\<forall>(k, v) \<in> set (message_fields msg). valid_utf8 k \<and> readable 1 v"
    using assms field_names_valid [of _ _ msg] by (auto simp: message_ok_def)
  from json_parse_object [OF this] show ?thesis
    by (simp add: JSON_Encode_def text_frame_def marshal_object)
qed

theorem encoder_roundtrip_witness:
  "\<exists>frame. JSON_Encode (MPing \<lparr>ping_Type = ''ping'', ping_Message = 1700000000\<rparr>) = Ret (Some frame, None) \<and>
     FrameType frame = TextFrame \<and>
     json_parse (Payload frame) = Some (JObj [(''type'', JStr ''ping''), (''message'', JNum (int_text 1700000000))])"
proof -
  have "message_ok (MPing \<lparr>ping_Type = ''ping'', ping_Message = 1700000000\<rparr>)"
    by (simp add: message_ok_def readable_def int_text_literal)
  from encoder_roundtrip [OF this] show ?thesis by simp
qed

text \<open>The text of a channel state is read back as that state.\<close>

lemma state_text_roundtrip:
  assumes "gomap m" "\<forall>(k, v) \<in> set m. valid_utf8 k \<and> valid_utf8 v"
  shows "\<exists>ms. json_parse (state_text m) = Some (JObj ms) \<and> map_of ms = map_option JStr \<circ> map_of m"
proof -
  have inner: "map (map_prod id in_order) (map (map_prod id JStr) m) = map (map_prod id JStr) m" by auto
  have "readable 0 (JObj (map (map_prod id JStr) m))"
    using assms(2) by (auto simp: readable_JObj readable_JStr)
  then have "json_parse (state_text m) = Some (JObj (map (map_prod id JStr) (sort_key fst m)))"
    unfolding state_text_def by (subst json_parse_jtext) (simp_all only: in_order.simps inner sort_key_map_prod)
  moreover have "map_of (map (map_prod id JStr) (sort_key fst m)) = map_option JStr \<circ> map_of (sort_key fst m)"
    by (simp add: map_prod_def map_of_map)
  moreover have "map_of (sort_key fst m) = map_of m"
    using assms(1) by (intro map_of_eqI) (auto simp: distinct_map)
  ultimately show ?thesis by auto
qed

text \<open>
  C27. The channel states of a session reach the application when the session is disconnected: the
  request carries, for exactly the channels that have a state, a JSON text that is read back as an
  object with the keys and values of that state.
\<close>

theorem disconnect_states_roundtrip:
  assumes "Headers e = Some hs" "ChannelStates e = Some cs" "gomap cs"
    and "\<forall>(ident, st) \<in> set cs. gomap st \<and> (\<forall>(k, v) \<in> set st. valid_utf8 k \<and> valid_utf8 v)"
  shows "\<exists>req texts. NewDisconnectMessage e idents chans = Ret req \<and> env_Istate (dr_Env req) = Some texts \<and>
     (\<forall>ident. case map_of cs ident of
        None \<Rightarrow> map_of texts ident = None
      | Some st \<Rightarrow> \<exists>t ms. map_of texts ident = Some t \<and> json_parse t = Some (JObj ms) \<and>
          map_of ms = map_option JStr \<circ> map_of st)"
proof -
  define texts where "texts = fold (\<lambda>(ident, st) m. mput ident (state_text st) m) cs []"
  obtain req where req: "NewDisconnectMessage e idents chans = Ret req" "env_Istate (dr_Env req) = Some texts"
    using assms(1,2) by (simp add: NewDisconnectMessage_def buildDisconnectEnv_def buildEnv_def texts_def)
  have "case map_of cs ident of
        None \<Rightarrow> map_of texts ident = None
      | Some st \<Rightarrow> \<exists>t ms. map_of texts ident = Some t \<and> json_parse t = Some (JObj ms) \<and>
          map_of ms = map_option JStr \<circ> map_of st" for ident
  proof (cases "map_of cs ident")
    case None
    then show ?thesis using map_of_fold_mput [OF assms(3), of state_text "[]"] by (simp add: texts_def)
  next
    case (Some st)
    then have "(ident, st) \<in> set cs" by (rule map_of_SomeD)
    with assms(4) have "gomap st" "\<forall>(k, v) \<in> set st. valid_utf8 k \<and> valid_utf8 v" by auto
    from state_text_roundtrip [OF this] map_of_fold_mput [OF assms(3), of state_text "[]" ident] Some show ?thesis
      by (auto simp: texts_def)
  qed
  with req show ?thesis by blast
qed

theorem disconnect_states_roundtrip_witness:
  "\<exists>req texts. NewDisconnectMessage \<lparr>URL = ''/'', Headers = Some [], ConnectionState = None,
       ChannelStates = Some [(''chat'', [(''room'', ''7'')])]\<rparr> ''u'' [''chat''] = Ret req \<and>
     env_Istate (dr_Env req) = Some texts \<and>
     (\<exists>t ms. map_of texts ''chat'' = Some t \<and> json_parse t = Some (JObj ms) \<and> map_of ms ''room'' = Some (JStr ''7''))"
proof -
  let ?e = "\<lparr>URL = ''/'', Headers = Some [], ConnectionState = None,
       ChannelStates = Some [(''chat'', [(''room'', ''7'')])]\<rparr>"
  obtain req texts where *: "NewDisconnectMessage ?e ''u'' [''chat''] = Ret req" "env_Istate (dr_Env req) = Some texts"
    "\<forall>ident. case map_of [(''chat'', [(''room'', ''7'')])] ident of
        None \<Rightarrow> map_of texts ident = None
      | Some st \<Rightarrow> \<exists>t ms. map_of texts ident = Some t \<and> json_parse t = Some (JObj ms) \<and>
          map_of ms = map_option JStr \<circ> map_of st"
    using disconnect_states_roundtrip [of ?e "[]" "[(''chat'', [(''room'', ''7'')])]" "''u''" "[''chat'']"] by auto
  from *(3) [rule_format, of "''chat''"] *(1,2) show ?thesis by auto
qed

end
