(* ===== verification/Delivery.thy ===== *)
theory Delivery
  imports Broadcast Json_Roundtrip
begin

text \<open>
  The way of a message through the parts of a node: from the publisher through the hub's channel,
  its loop, the pool and a worker into the buffer of a session, and from there by the session's
  sender to the client's connection. Every step is an event of the node's machine; the theorem puts
  them in sequence.
\<close>

section \<open>Sequences of events\<close>

definition node_run :: "NodeEvent list \<Rightarrow> Node \<Rightarrow> Node go" where
  "node_run es n = gfor es node_do n"

lemma node_run_append: "node_run es n = Ret n' \<Longrightarrow> node_run (es @ es') n = node_run es' n'"
  by (simp add: node_run_def gfor_append)

lemma node_run_sender: "node_run (replicate (length fs) (SenderTurn s None)) n = gfor fs (\<lambda>_. SendMessages_turn None s) n"
proof (induction fs arbitrary: n)
  case (Cons f fs)
  then show ?case by (cases "SendMessages_turn None s n") (simp_all add: node_run_def)
qed (simp add: node_run_def)

fun worker_event :: "(string \<Rightarrow> string option) \<Rightarrow> NodeEvent \<Rightarrow> bool" where
  "worker_event f64 (WorkerTake i) \<longleftrightarrow> True"
| "worker_event f64 (WorkerRun g i) \<longleftrightarrow> g = f64"
| "worker_event f64 _ \<longleftrightarrow> False"

text \<open>The hub waits for requests, and a worker of the pool for a task.\<close>

definition quiet :: "Node \<Rightarrow> bool" where
  "quiet n \<longleftrightarrow> hub_running (hub n) \<and> register_ch (hub n) = [] \<and> subscribe_ch (hub n) = [] \<and>
     broadcast_ch (hub n) = [] \<and> disconnect_ch (hub n) = [] \<and> work (pool (hub n)) = [] \<and>
     (\<exists>i < length (workers (pool (hub n))). \<exists>k. workers (pool (hub n)) ! i = Waiting k)"

section \<open>From the publisher to a worker\<close>

lemma published_queued:
  assumes "node_ok n" "PubSubMessageFromJSON raw = Inr (PStream msg)" "broadcast_ch (hub n) = []"
  shows "\<exists>m. node_do (Published raw) n =
    Ret (n\<lparr>node_Metrics := m, hub := (hub n)\<lparr>broadcast_ch := [msg]\<rparr>\<rparr>)"
proof -
  obtain n1 where n1: "add_counter metricsBroadcastMsg 1 n = Ret n1"
    by (rule add_counter_returns [OF assms(1), of metricsBroadcastMsg]) auto
  then obtain m where "n1 = n\<lparr>node_Metrics := m\<rparr>" by (auto simp: add_counter_def go_simps)
  with n1 assms(2,3) show ?thesis
    by (auto simp: HandlePubSub_def Broadcast_def BroadcastMessage_def chan_send_def)
qed

text \<open>
  The loop hands the task to the pool, as the pool's \<^verbatim>\<open>select\<close> chooses: into the queue, or to a new
  worker.
\<close>

lemma broadcast_scheduled:
  assumes "node_ok n" "quiet n" "mhas (streams (hub n)) (sm_Stream msg)"
  defines "t \<equiv> BroadcastTask (sm_Stream msg) (sm_Data msg)" and "p \<equiv> pool (hub n)"
  shows "\<exists>q. hub_turn info c c' ((hub n)\<lparr>broadcast_ch := [msg]\<rparr>) = Ret ((hub n)\<lparr>pool := q\<rparr>) \<and>
    (q = p\<lparr>work := [t]\<rparr> \<or> q = p\<lparr>sem := Suc (sem p), workers := workers p @ [Starting (Some t)]\<rparr>)"
proof -
  have q: "hub_running (hub n)" "register_ch (hub n) = []" "subscribe_ch (hub n) = []"
    "broadcast_ch (hub n) = []" "disconnect_ch (hub n) = []" "work p = []"
    using assms(2) by (simp_all add: quiet_def p_def)
  have inv: "pool_inv p" using assms(1) by (simp add: node_ok_def hub_ok_def p_def)
  then have "Schedule c' t p \<noteq> Block" using schedule_Block_iff [OF inv] q(6) by (auto simp: pool_inv_def)
  then obtain p' where "Schedule c' t p = Ret p'" using Schedule_no_panic [of c' t p] by (cases "Schedule c' t p") auto
  moreover from this obtain e where "schedule c' False t p = Ret (p', e)"
    by (auto simp: Schedule_def go_simps)
  then have "p' = p\<lparr>work := [t]\<rparr> \<or> p' = p\<lparr>sem := Suc (sem p), workers := workers p @ [Starting (Some t)]\<rparr>"
    by (cases rule: schedule_cases) (use q(6) in auto)
  moreover have "hub_turn info c c' ((hub n)\<lparr>broadcast_ch := [msg]\<rparr>) =
      gbind (Schedule c' t p) (\<lambda>p. Ret ((hub n)\<lparr>pool := p\<rparr>))"
    using q(1-5) assms(3) unfolding t_def p_def
    by (cases "hub n") (simp add: hub_turn_def hub_ready_def select_def broadcastToStream_def)
  ultimately show ?thesis by auto
qed

text \<open>A worker has the task: the one that was started for it, or one that waited and takes it.\<close>

lemma broadcast_taken:
  assumes "quiet n" "p = pool (hub n)"
    and "q = p\<lparr>work := [t]\<rparr> \<or> q = p\<lparr>sem := Suc (sem p), workers := workers p @ [Starting (Some t)]\<rparr>"
  shows "\<exists>es r i. list_all (worker_event f64) es \<and>
    node_run es (n'\<lparr>hub := h\<lparr>pool := q\<rparr>\<rparr>) = Ret (n'\<lparr>hub := h\<lparr>pool := r\<rparr>\<rparr>) \<and>
    i < length (workers r) \<and> current_task (workers r ! i) = [t]"
  using assms(3)
proof
  assume q: "q = p\<lparr>work := [t]\<rparr>"
  from assms(1,2) obtain i k where i: "i < length (workers p)" "workers p ! i = Waiting k"
    by (auto simp: quiet_def)
  let ?r = "q\<lparr>work := [], workers := (workers p)[i := Running t k]\<rparr>"
  have "node_run [WorkerTake i] (n'\<lparr>hub := h\<lparr>pool := q\<rparr>\<rparr>) = Ret (n'\<lparr>hub := h\<lparr>pool := ?r\<rparr>\<rparr>)"
    using i q by (simp add: node_run_def worker_take_def)
  moreover have "i < length (workers ?r)" "current_task (workers ?r ! i) = [t]"
    using i by (simp_all add: current_task_def)
  ultimately show ?thesis by (intro exI [of _ "[WorkerTake i]"] exI [of _ ?r] exI [of _ i]) simp
next
  assume q: "q = p\<lparr>sem := Suc (sem p), workers := workers p @ [Starting (Some t)]\<rparr>"
  have "node_run [] (n'\<lparr>hub := h\<lparr>pool := q\<rparr>\<rparr>) = Ret (n'\<lparr>hub := h\<lparr>pool := q\<rparr>\<rparr>)" by (simp add: node_run_def)
  moreover have "length (workers p) < length (workers q)" "current_task (workers q ! length (workers p)) = [t]"
    using q by (simp_all add: current_task_def)
  ultimately show ?thesis by (intro exI [of _ "[]"] exI [of _ q] exI [of _ "length (workers p)"]) simp
qed

text \<open>The worker runs the task, and then waits or ends.\<close>

lemma broadcast_worked:
  assumes "i < length (workers (pool (hub n)))" "current_task (workers (pool (hub n)) ! i) = [t]"
    and "run_task f64 t n = Ret n'" "hub n' = hub n"
  shows "\<exists>q. node_do (WorkerRun f64 i) n = Ret (n'\<lparr>hub := (hub n)\<lparr>pool := q\<rparr>\<rparr>)"
proof -
  have "\<exists>q. worker_done i (pool (hub n)) = Ret q"
    using assms(1,2) by (auto simp: worker_done_def current_task_def split: Worker.split)
  then obtain q where "worker_done i (pool (hub n)) = Ret q" by blast
  with assms show ?thesis by (auto simp: worker_run_def)
qed

section \<open>The whole way\<close>

lemma node_run_ok: "node_run es n = Ret n' \<Longrightarrow> list_all event_ok es \<Longrightarrow> node_ok n \<Longrightarrow> node_ok n'"
  unfolding node_run_def
  by (rule gfor_invariant [of es node_do]) (auto simp: list_all_iff dest: node_do_safe)

lemma worker_event_ok: "list_all (worker_event f64) es \<Longrightarrow> list_all event_ok es"
proof (induction es)
  case (Cons e es)
  then show ?case by (cases e) simp_all
qed simp

lemma node_run_Cons: "node_do e n = Ret n' \<Longrightarrow> node_run (e # es) n = node_run es n'"
  by (simp add: node_run_def)

text \<open>Up to the buffers of the sessions.\<close>

lemma publish_buffered:
  assumes "node_ok n" "quiet n" "own_ids n" "json_sessions f64 n"
    and msg: "PubSubMessageFromJSON raw = Inr (PStream \<lparr>sm_Stream = stream, sm_Data = data\<rparr>)"
    and "mhas (streams (hub n)) stream"
    and room: "\<And>sid t. map_of (sessions (hub n)) sid = Some t \<Longrightarrow>
      room_for (length (channels_on (hub n) stream sid)) (heap n t)"
  shows "\<exists>ws n'. list_all (worker_event f64) ws \<and> node_run (Published raw # HubTurn c c' # ws) n = Ret n' \<and>
    node_ok n' \<and> (\<forall>s. heap n' s =
      (if map_of (sessions (hub n)) (UID (heap n s)) = Some s \<and> sendCh (heap n s)
       then (heap n s)\<lparr>sendBuf := sendBuf (heap n s) @
              map (stream_frame f64 data) (channels_on (hub n) stream (UID (heap n s)))\<rparr>
       else heap n s))"
proof -
  let ?msg = "\<lparr>sm_Stream = stream, sm_Data = data\<rparr>" and ?t = "BroadcastTask stream data"
  obtain m where n1: "node_do (Published raw) n =
      Ret (n\<lparr>node_Metrics := m, hub := (hub n)\<lparr>broadcast_ch := [?msg]\<rparr>\<rparr>)" (is "_ = Ret ?n1")
    using published_queued [OF assms(1) msg] assms(2) by (auto simp: quiet_def)
  obtain q where q: "hub_turn (session_info ?n1) c c' ((hub n)\<lparr>broadcast_ch := [?msg]\<rparr>) = Ret ((hub n)\<lparr>pool := q\<rparr>)"
    and q': "q = (pool (hub n))\<lparr>work := [?t]\<rparr> \<or> q = (pool (hub n))\<lparr>sem := Suc (sem (pool (hub n))),
      workers := workers (pool (hub n)) @ [Starting (Some ?t)]\<rparr>"
    using broadcast_scheduled [OF assms(1,2), of ?msg "session_info ?n1" c c'] assms(6) by auto
  have n2: "node_do (HubTurn c c') ?n1 = Ret (n\<lparr>node_Metrics := m, hub := (hub n)\<lparr>pool := q\<rparr>\<rparr>)"
    using q by simp
  obtain es r i where es: "list_all (worker_event f64) es"
    "node_run es (n\<lparr>node_Metrics := m, hub := (hub n)\<lparr>pool := q\<rparr>\<rparr>) =
      Ret (n\<lparr>node_Metrics := m, hub := (hub n)\<lparr>pool := r\<rparr>\<rparr>)" (is "_ = Ret ?n3")
    "i < length (workers r)" "current_task (workers r ! i) = [?t]"
    using broadcast_taken [OF assms(2) refl q', of f64 "hub n" "n\<lparr>node_Metrics := m\<rparr>"] by auto
  have run3: "node_run (Published raw # HubTurn c c' # es) n = Ret ?n3"
    using n1 n2 es(2) by (simp add: node_run_Cons)
  have ok3: "node_ok ?n3"
    by (rule node_run_ok [OF run3 _ assms(1)]) (use worker_event_ok [OF es(1)] in simp)
  then have "hub_inv (hub ?n3)" by (simp add: node_ok_def hub_ok_def)
  moreover have "own_ids ?n3" "json_sessions f64 ?n3" using assms(3,4) by (simp_all add: own_ids_def json_sessions_def)
  moreover have "room_for (length (channels_on (hub ?n3) stream sid)) (heap ?n3 t)"
    if "map_of (sessions (hub ?n3)) sid = Some t" for sid t
    using room [of sid t] that by (simp add: channels_on_def)
  ultimately obtain n4 where n4: "broadcast_task f64 stream data ?n3 = Ret n4" "hub n4 = hub ?n3"
    "\<forall>s. heap n4 s = (if map_of (sessions (hub ?n3)) (UID (heap ?n3 s)) = Some s \<and> sendCh (heap ?n3 s)
       then (heap ?n3 s)\<lparr>sendBuf := sendBuf (heap ?n3 s) @
         map (stream_frame f64 data) (channels_on (hub ?n3) stream (UID (heap ?n3 s)))\<rparr> else heap ?n3 s)"
    using broadcast_task_delivers [of ?n3 f64 stream data] by blast
  obtain q5 where n5: "node_do (WorkerRun f64 i) ?n3 = Ret (n4\<lparr>hub := (hub ?n3)\<lparr>pool := q5\<rparr>\<rparr>)"
    using broadcast_worked [of i ?n3 ?t f64 n4] es(3,4) n4(1,2) by auto
  have run5: "node_run (Published raw # HubTurn c c' # es @ [WorkerRun f64 i]) n = Ret (n4\<lparr>hub := (hub ?n3)\<lparr>pool := q5\<rparr>\<rparr>)"
    using node_run_append [OF run3, of "[WorkerRun f64 i]"] n5 by (simp add: node_run_def)
  moreover have "node_ok (n4\<lparr>hub := (hub ?n3)\<lparr>pool := q5\<rparr>\<rparr>)"
    by (rule node_run_ok [OF run5 _ assms(1)]) (use worker_event_ok [OF es(1)] in simp)
  moreover have "list_all (worker_event f64) (es @ [WorkerRun f64 i])" using es(1) by simp
  ultimately show ?thesis using n4(3) by (intro exI conjI) (assumption, assumption, assumption, simp add: channels_on_def)
qed

section \<open>What the client reads\<close>

lemma stream_frame_read:
  assumes "json_parse data = Some v" "jdepth v < 10000" "valid_utf8 ident"
    and "\<forall>t t'. f64 t = Some t' \<longrightarrow> number_literal t'"
  shows "json_parse (Payload (stream_frame f64 data ident)) =
    Some (JObj [(''identifier'', JStr ident), (''message'', in_order (any_of f64 v))])"
proof -
  have "readable 1 v" using json_parse_readable [OF assms(1)] assms(2) by (simp add: readable_def)
  from any_of_readable [OF assms(4) this] have "readable 1 (any_of f64 v)" .
  moreover have "readable 1 (JStr ident)" using assms(3) by (simp add: readable_JStr)
  ultimately have "\<forall>(k, w) \<in> set [(''identifier'', JStr ident), (''message'', any_of f64 v)].
      valid_utf8 k \<and> readable 1 w" by simp
  from json_parse_object [OF this] assms(1) show ?thesis
    by (simp add: stream_frame_def stream_reply_def unmarshal_any_def text_frame_def marshal_object)
qed

lemma stream_frame_data: "data_frame (stream_frame f64 data ident)"
  "frame_calls (stream_frame f64 data ident) = [ConnWrite (Payload (stream_frame f64 data ident))]"
  by (simp_all add: stream_frame_def text_frame_def data_frame_def frame_calls_def)

lemma channels_on_set:
  assumes "hub_inv h"
  shows "distinct (channels_on h stream sid) \<and> set (channels_on h stream sid) = {ident. subscribed h stream sid ident}"
  using assms
  by (auto simp: channels_on_def hub_inv_def hub_maps_def stream_maps_def subscribed_def mhas_iff_key)

lemma subscribed_stream: "subscribed h stream sid ident \<Longrightarrow> mhas (streams h) stream"
  by (auto simp: subscribed_def mfind_def mhas_def split: option.splits)

section \<open>A node at rest\<close>

definition resting_node :: Node where
  "resting_node = listening_node\<lparr>hub := (hub listening_node)\<lparr>pool := (pool small_hub)\<lparr>workers := [Waiting 1]\<rparr>\<rparr>\<rparr>"

lemma resting_node_ready:
  "node_ok resting_node" "quiet resting_node" "own_ids resting_node" "json_sessions (\<lambda>_. None) resting_node"
proof -
  have "pool_inv ((pool small_hub)\<lparr>workers := [Waiting 1]\<rparr>)"
    by (simp add: pool_inv_def small_hub_def tasks_done_def workerRespawnThreshold_def)
  moreover have "channels_ok (hub listening_node)"
    by (simp add: channels_ok_def listening_node_def subscribeSession_def Let_def addSession_def small_hub_def)
  ultimately have "hub_ok (hub resting_node)"
    using listening_node_ready(1) by (simp add: hub_ok_def resting_node_def channels_ok_def)
  then show "node_ok resting_node"
    using small_node_ok small_session_ok
    by (simp add: node_ok_def resting_node_def listening_node_def session_ok_def)
  show "quiet resting_node"
    by (auto simp: quiet_def resting_node_def listening_node_def subscribeSession_def Let_def addSession_def small_hub_def)
  show "own_ids resting_node" "json_sessions (\<lambda>_. None) resting_node"
    using listening_node_ready(2,3) by (simp_all add: resting_node_def own_ids_def json_sessions_def)
qed

end
