(* ===== verification/Rpc.thy ===== *)
theory Rpc
  imports Node Protocol
begin

text \<open>
  The RPC controller, from \<^verbatim>\<open>rpc/rpc.go\<close> and \<^verbatim>\<open>rpc/config.go\<close>, and the generated client it
  calls, from \<^verbatim>\<open>protos/rpc.pb.go\<close>. The connection of the gRPC library is a parameter: the state
  it is in and what it answers at each attempt of a call, the attempts being numbered from 0.
  Milliseconds slept between attempts are counted in \<open>slept\<close>.

  A call is in three parts, so that calls can be interleaved: it announces itself in the gauge of
  pending calls, takes a ticket from the semaphore, and, once done, gives the ticket back.
\<close>

section \<open>The connection\<close>

datatype Connectivity = Conn_Idle | Conn_Connecting | Conn_Ready | Conn_TransientFailure | Conn_Shutdown

record grpcClientHelper =
  recovering :: bool
  backoff_resets :: nat
  conn_closed :: bool

definition tryRecover :: "grpcClientHelper \<Rightarrow> grpcClientHelper \<times> error option" where
  "tryRecover st =
     (if recovering st then (st, Some (Err ''grpc connection is not ready''))
      else (st\<lparr>recovering := True, backoff_resets := Suc (backoff_resets st)\<rparr>, None))"

definition reset :: "grpcClientHelper \<Rightarrow> grpcClientHelper" where
  "reset st = (if recovering st then st\<lparr>recovering := False\<rparr> else st)"

definition Ready :: "Connectivity \<Rightarrow> grpcClientHelper \<Rightarrow> grpcClientHelper \<times> error option" where
  "Ready s st =
     (if s = Conn_Shutdown then (st, Some (Err ''grpc connection is closed''))
      else if s = Conn_TransientFailure then tryRecover st
      else (if recovering st then reset st else st, None))"

definition helper_Close :: "grpcClientHelper \<Rightarrow> grpcClientHelper" where
  "helper_Close st = st\<lparr>conn_closed := True\<rparr>"

section \<open>The generated client\<close>

type_synonym rpc_context = "(string \<times> string) list"

text \<open>
  What the connection's \<^verbatim>\<open>Invoke\<close> does with a method name and a request at an attempt: it fills
  in the response and returns an error or none.
\<close>

record ClientConn =
  Invoke_Connect :: "rpc_context \<Rightarrow> string \<Rightarrow> ConnectionRequest \<Rightarrow> nat \<Rightarrow> ConnectionResponse \<times> error option"
  Invoke_Command :: "rpc_context \<Rightarrow> string \<Rightarrow> CommandMessage \<Rightarrow> nat \<Rightarrow> CommandResponse \<times> error option"
  Invoke_Disconnect :: "rpc_context \<Rightarrow> string \<Rightarrow> DisconnectRequest \<Rightarrow> nat \<Rightarrow> DisconnectResponse \<times> error option"

record RPCClient =
  client_Connect :: "rpc_context \<Rightarrow> ConnectionRequest \<Rightarrow> nat \<Rightarrow> ConnectionResponse result"
  client_Command :: "rpc_context \<Rightarrow> CommandMessage \<Rightarrow> nat \<Rightarrow> CommandResponse result"
  client_Disconnect :: "rpc_context \<Rightarrow> DisconnectRequest \<Rightarrow> nat \<Rightarrow> DisconnectResponse result"

definition rPCClient_Connect :: "ClientConn \<Rightarrow> rpc_context \<Rightarrow> ConnectionRequest \<Rightarrow> nat \<Rightarrow> ConnectionResponse result" where
  "rPCClient_Connect cc ctx req k =
     (let (out, err) = Invoke_Connect cc ctx ''/anycable.RPC/Connect'' req k
      in if err \<noteq> None then (None, err) else (Some out, None))"

definition rPCClient_Command :: "ClientConn \<Rightarrow> rpc_context \<Rightarrow> CommandMessage \<Rightarrow> nat \<Rightarrow> CommandResponse result" where
  "rPCClient_Command cc ctx req k =
     (let (out, err) = Invoke_Command cc ctx ''/anycable.RPC/Command'' req k
      in if err \<noteq> None then (None, err) else (Some out, None))"

definition rPCClient_Disconnect :: "ClientConn \<Rightarrow> rpc_context \<Rightarrow> DisconnectRequest \<Rightarrow> nat \<Rightarrow> DisconnectResponse result" where
  "rPCClient_Disconnect cc ctx req k =
     (let (out, err) = Invoke_Disconnect cc ctx ''/anycable.RPC/Disconnect'' req k
      in if err \<noteq> None then (None, err) else (Some out, None))"

definition NewRPCClient :: "ClientConn \<Rightarrow> RPCClient" where
  "NewRPCClient cc = \<lparr>client_Connect = rPCClient_Connect cc, client_Command = rPCClient_Command cc,
     client_Disconnect = rPCClient_Disconnect cc\<rparr>"

section \<open>The controller\<close>

record rpc_Config =
  Host :: string
  Concurrency :: int
  EnableTLS :: bool
  MaxRecvSize :: int
  MaxSendSize :: int

definition rpc_NewConfig :: rpc_Config where
  "rpc_NewConfig = \<lparr>Host = [], Concurrency = 28, EnableTLS = False, MaxRecvSize = 0, MaxSendSize = 0\<rparr>"

definition ProtoVersions :: string where "ProtoVersions = ''v1''"

definition invokeTimeout :: nat where "invokeTimeout = 3000"

definition retryExhaustedInterval :: nat where "retryExhaustedInterval = 10"

definition retryUnavailableInterval :: nat where "retryUnavailableInterval = 100"

definition metricsRPCCalls :: string where "metricsRPCCalls = ''rpc_call_total''"

definition metricsRPCRetries :: string where "metricsRPCRetries = ''rpc_retries_total''"

definition metricsRPCFailures :: string where "metricsRPCFailures = ''rpc_error_total''"

definition metricsRPCPending :: string where "metricsRPCPending = ''rpc_pending_num''"

text \<open>The semaphore is a channel, nil before \<^verbatim>\<open>Start\<close>: the tickets in it and its capacity.\<close>

record RpcController =
  config :: rpc_Config
  rpc_sem :: "(nat \<times> nat) option"
  rpc_metrics :: Metrics
  clientState :: "grpcClientHelper option"
  slept :: nat

definition NewController :: "Metrics \<Rightarrow> rpc_Config \<Rightarrow> RpcController" where
  "NewController m cfg =
     (let m = RegisterCounter metricsRPCCalls ''The total number of RPC calls'' m;
          m = RegisterCounter metricsRPCRetries ''The total number of RPC call retries'' m;
          m = RegisterCounter metricsRPCFailures ''The total number of failed RPC calls'' m;
          m = RegisterGauge metricsRPCPending ''The number of pending RPC calls'' m
      in \<lparr>config = cfg, rpc_sem = None, rpc_metrics = m, clientState = None, slept = 0\<rparr>)"

definition initSemaphore :: "int \<Rightarrow> RpcController \<Rightarrow> RpcController go" where
  "initSemaphore capacity c =
     (if capacity < 0 then Panic ''makechan: size out of range''
      else Ret (c\<lparr>rpc_sem := Some (nat capacity, nat capacity)\<rparr>))"

text \<open>The options given to the gRPC library, and the library's answer as the argument \<open>dial\<close>.\<close>

datatype CallOption = MaxCallRecvMsgSize int | MaxCallSendMsgSize int

datatype DialOption =
    WithKeepaliveParams nat bool
  | WithBalancerName string
  | WithTransportCredentials bool string
  | WithInsecure
  | WithDefaultCallOptions "CallOption list"

definition dial_options :: "rpc_Config \<Rightarrow> DialOption list" where
  "dial_options conf =
     (let opts = [WithKeepaliveParams 10 True, WithBalancerName ''round_robin''];
          opts = opts @ (if EnableTLS conf then [WithTransportCredentials False ''TLS12'']
                         else [WithInsecure]);
          calls = (if MaxRecvSize conf \<noteq> 0 then [MaxCallRecvMsgSize (MaxRecvSize conf)] else []) @
                  (if MaxSendSize conf \<noteq> 0 then [MaxCallSendMsgSize (MaxSendSize conf)] else [])
      in if 0 < length calls then opts @ [WithDefaultCallOptions calls] else opts)"

definition defaultDialer ::
  "(string \<Rightarrow> DialOption list \<Rightarrow> error option) \<Rightarrow> rpc_Config \<Rightarrow> grpcClientHelper option \<times> error option" where
  "defaultDialer dial conf = (case dial (Host conf) (dial_options conf) of
     Some err \<Rightarrow> (None, Some err)
   | None \<Rightarrow> (Some \<lparr>recovering = False, backoff_resets = 0, conn_closed = False\<rparr>, None))"

text \<open>\<open>dialer\<close> is the configured one, or the default one applied to the library's \<^verbatim>\<open>Dial\<close>.\<close>

definition Start ::
  "(rpc_Config \<Rightarrow> grpcClientHelper option \<times> error option) \<Rightarrow> RpcController
   \<Rightarrow> (RpcController \<times> error option) go" where
  "Start dialer c =
     (let (state, err) = dialer (config c) in
      gbind (initSemaphore (Concurrency (config c)) c) (\<lambda>c.
      Ret (c\<lparr>clientState := state\<rparr>, err)))"

definition busy :: "RpcController \<Rightarrow> int" where
  "busy c = Concurrency (config c) - (case rpc_sem c of None \<Rightarrow> 0 | Some (t, _) \<Rightarrow> int t)"

definition newContext :: "string \<Rightarrow> rpc_context" where
  "newContext sid = [(''sid'', sid), (''protov'', ProtoVersions)]"

section \<open>Retrying\<close>

text \<open>The \<^verbatim>\<open>interface{}\<close> a call returns; a pointer in it may be nil.\<close>

datatype Response =
    RNil
  | RBool bool
  | RConnection "ConnectionResponse option"
  | RCommand "CommandResponse option"
  | RDisconnect "DisconnectResponse option"

definition ResourceExhausted :: nat where "ResourceExhausted = 8"

definition Unavailable :: nat where "Unavailable = 14"

text \<open>\<^verbatim>\<open>status.FromError\<close>: the code, for an error that carries one.\<close>

fun FromError :: "error \<Rightarrow> nat option" where
  "FromError (GrpcErr code _) = Some code"
| "FromError (Err _) = None"

definition retry_code :: "error \<Rightarrow> nat option" where
  "retry_code err = (case FromError err of
     None \<Rightarrow> None
   | Some code \<Rightarrow> if code = ResourceExhausted \<or> code = Unavailable then Some code else None)"

text \<open>The delay before the next attempt, the exponent it has and whether the server was exhausted.\<close>

definition next_delay :: "nat \<Rightarrow> nat \<Rightarrow> bool \<Rightarrow> nat \<times> nat \<times> bool" where
  "next_delay code attempt wasExhausted =
     (if code = ResourceExhausted
      then (let attempt = (if \<not> wasExhausted then 0 else attempt)
            in (2 ^ attempt * retryExhaustedInterval, attempt, True))
      else (let attempt = (if wasExhausted then 0 else attempt)
            in (2 ^ attempt * retryUnavailableInterval, attempt, False)))"

definition rpc_count :: "string \<Rightarrow> RpcController \<Rightarrow> RpcController go" where
  "rpc_count name c = gbind (counter_inc name (rpc_metrics c)) (\<lambda>m. Ret (c\<lparr>rpc_metrics := m\<rparr>))"

text \<open>One turn of the loop: it returns, or goes on with the variables of the loop and a delay.\<close>

datatype Turn =
    Done "RpcController \<times> Response \<times> error option"
  | Again nat nat bool RpcController

definition retry_turn ::
  "Connectivity \<Rightarrow> (Response \<times> error option) go \<Rightarrow> nat \<Rightarrow> nat \<Rightarrow> bool \<Rightarrow> RpcController \<Rightarrow> Turn go" where
  "retry_turn state callback retryAge attempt wasExhausted c = (case clientState c of
     None \<Rightarrow> Panic nil_deref
   | Some h \<Rightarrow>
      (let (h, stErr) = Ready state h; c = c\<lparr>clientState := Some h\<rparr> in
       if stErr \<noteq> None then Ret (Done (c, RNil, stErr))
       else gbind callback (\<lambda>(res, err). case err of
         None \<Rightarrow> Ret (Done (c, res, None))
       | Some e \<Rightarrow>
           if invokeTimeout < retryAge then Ret (Done (c, RNil, err))
           else (case retry_code e of
             None \<Rightarrow> Ret (Done (c, RNil, err))
           | Some code \<Rightarrow>
               (let (delay, attempt, wasExhausted) = next_delay code attempt wasExhausted in
                gbind (rpc_count metricsRPCRetries c) (\<lambda>c.
                Ret (Again (retryAge + delay) (Suc attempt) wasExhausted
                  (c\<lparr>slept := slept c + delay\<rparr>))))))))"

lemma next_delay_cases:
  "next_delay code attempt ex = (d, a, ex') \<Longrightarrow>
   ex' = (code = ResourceExhausted) \<and> a = (if ex' = ex then attempt else 0) \<and>
   d = 2 ^ a * (if ex' then retryExhaustedInterval else retryUnavailableInterval)"
  by (auto simp: next_delay_def Let_def split: if_splits)

lemma retry_turn_Again:
  assumes "retry_turn state callback age attempt ex c = Ret (Again age' attempt' ex' c')"
  obtains h h' r e d a m where "clientState c = Some h" "Ready state h = (h', None)"
    "callback = Ret (r, Some e)" "retry_code e \<noteq> None" "age \<le> invokeTimeout" "age' = age + d" "10 \<le> d"
    "attempt' = Suc a" "a = (if ex' = ex then attempt else 0)" "d = 2 ^ a * (if ex' then 10 else 100)"
    "counter_inc metricsRPCRetries (rpc_metrics c) = Ret m"
    "c' = c\<lparr>clientState := Some h', rpc_metrics := m, slept := slept c + d\<rparr>"
proof -
  from assms obtain h where h: "clientState c = Some h" by (auto simp: retry_turn_def split: option.splits)
  obtain h' stErr where rd: "Ready state h = (h', stErr)" by fastforce
  from assms h rd have no: "stErr = None" by (cases stErr) (auto simp: retry_turn_def Let_def)
  from assms h rd no obtain r err where cb: "callback = Ret (r, err)"
    by (auto simp: retry_turn_def gbind_Ret_iff Let_def)
  from assms h rd no cb obtain e where e: "err = Some e" by (cases err) (auto simp: retry_turn_def Let_def)
  from assms h rd no cb e obtain code where code: "retry_code e = Some code" and age: "age \<le> invokeTimeout"
    by (cases "retry_code e") (auto simp: retry_turn_def Let_def split: if_splits)
  obtain d a ex1 where nd: "next_delay code attempt ex = (d, a, ex1)" by (metis prod_cases3)
  from assms h rd no cb e code age nd have rest: "age' = age + d" "attempt' = Suc a" "ex1 = ex'"
    "\<exists>m. counter_inc metricsRPCRetries (rpc_metrics c) = Ret m \<and>
         c' = c\<lparr>clientState := Some h', rpc_metrics := m, slept := slept c + d\<rparr>"
    by (auto simp: retry_turn_def rpc_count_def gbind_Ret_iff Let_def)
  from next_delay_cases [OF nd] rest(3)
  have d: "a = (if ex' = ex then attempt else 0)" "d = 2 ^ a * (if ex' then 10 else 100)" "10 \<le> d"
    by (simp_all add: retryExhaustedInterval_def retryUnavailableInterval_def)
  from rest(4) obtain m where "counter_inc metricsRPCRetries (rpc_metrics c) = Ret m"
    "c' = c\<lparr>clientState := Some h', rpc_metrics := m, slept := slept c + d\<rparr>" by blast
  from that [OF h _ _ _ age rest(1) d(3) rest(2) d(1,2) this] rd no cb e code show ?thesis by simp
qed

function retry_loop ::
  "(nat \<Rightarrow> Connectivity) \<Rightarrow> (nat \<Rightarrow> (Response \<times> error option) go) \<Rightarrow> nat \<Rightarrow> nat \<Rightarrow> nat \<Rightarrow> bool
   \<Rightarrow> RpcController \<Rightarrow> (RpcController \<times> Response \<times> error option) go" where
  "retry_loop state_at callback k retryAge attempt wasExhausted c =
     gbind (retry_turn (state_at k) (callback k) retryAge attempt wasExhausted c) (\<lambda>t. case t of
       Done r \<Rightarrow> Ret r
     | Again retryAge attempt wasExhausted c \<Rightarrow>
         retry_loop state_at callback (Suc k) retryAge attempt wasExhausted c)"
  by pat_completeness auto
termination
  by (relation "measure (\<lambda>(st, callback, k, age, _). Suc invokeTimeout - age)")
    (auto elim!: retry_turn_Again)

declare retry_loop.simps [simp del]

definition retry ::
  "(nat \<Rightarrow> Connectivity) \<Rightarrow> (nat \<Rightarrow> (Response \<times> error option) go) \<Rightarrow> RpcController
   \<Rightarrow> (RpcController \<times> Response \<times> error option) go" where
  "retry state_at callback = retry_loop state_at callback 0 0 0 False"

section \<open>Calls\<close>

definition rpc_gauge :: "(Gauge \<Rightarrow> Gauge) \<Rightarrow> RpcController \<Rightarrow> RpcController go" where
  "rpc_gauge f c =
     gbind (with_gauge metricsRPCPending f (rpc_metrics c)) (\<lambda>m. Ret (c\<lparr>rpc_metrics := m\<rparr>))"

definition begin_call :: "RpcController \<Rightarrow> RpcController go" where
  "begin_call = rpc_gauge Gauge_Inc"

definition take_ticket :: "RpcController \<Rightarrow> RpcController go" where
  "take_ticket c = (case rpc_sem c of
     None \<Rightarrow> Block
   | Some (t, cap) \<Rightarrow>
       if t = 0 then Block else rpc_gauge Gauge_Dec (c\<lparr>rpc_sem := Some (t - 1, cap)\<rparr>))"

definition give_ticket :: "RpcController \<Rightarrow> RpcController go" where
  "give_ticket c = (case rpc_sem c of
     None \<Rightarrow> Block
   | Some (t, cap) \<Rightarrow> if t < cap then Ret (c\<lparr>rpc_sem := Some (Suc t, cap)\<rparr>) else Block)"

definition with_ticket ::
  "(RpcController \<Rightarrow> (RpcController \<times> 'r) go) \<Rightarrow> RpcController \<Rightarrow> (RpcController \<times> 'r) go" where
  "with_ticket body c =
     gbind (begin_call c) (\<lambda>c. gbind (take_ticket c) (\<lambda>c.
     gbind (body c) (\<lambda>(c, r). gbind (give_ticket c) (\<lambda>c. Ret (c, r)))))"

definition connect_response ::
  "Response \<Rightarrow> error option \<Rightarrow> RpcController \<Rightarrow> (RpcController \<times> ConnectResult result) go" where
  "connect_response response err c =
     (if err \<noteq> None then gbind (rpc_count metricsRPCFailures c) (\<lambda>c. Ret (c, (None, err)))
      else (case response of
        RConnection None \<Rightarrow> Panic nil_deref
      | RConnection (Some r) \<Rightarrow> Ret (c, ParseConnectResponse r)
      | _ \<Rightarrow> gbind (rpc_count metricsRPCFailures c) (\<lambda>c.
               Ret (c, (None, Some (Err ''Failed to deserialize connection response''))))))"

definition rpc_Authenticate ::
  "(nat \<Rightarrow> Connectivity) \<Rightarrow> RPCClient \<Rightarrow> string \<Rightarrow> SessionEnv \<Rightarrow> RpcController
   \<Rightarrow> (RpcController \<times> ConnectResult result) go" where
  "rpc_Authenticate state_at cl sid e = with_ticket (\<lambda>c.
     let op = (\<lambda>k. gbind (NewConnectMessage e) (\<lambda>req.
           let (r, err) = client_Connect cl (newContext sid) req k in Ret (RConnection r, err))) in
     gbind (rpc_count metricsRPCCalls c) (\<lambda>c.
     gbind (retry state_at op c) (\<lambda>(c, response, err). connect_response response err c)))"

definition parseCommandResponse ::
  "Response \<Rightarrow> error option \<Rightarrow> RpcController \<Rightarrow> (RpcController \<times> CommandResult result) go" where
  "parseCommandResponse response err c =
     gbind (rpc_count metricsRPCCalls c) (\<lambda>c.
     if err \<noteq> None then gbind (rpc_count metricsRPCFailures c) (\<lambda>c. Ret (c, (None, err)))
     else (case response of
       RCommand None \<Rightarrow> Panic nil_deref
     | RCommand (Some r) \<Rightarrow> Ret (c, ParseCommandResponse r)
     | _ \<Rightarrow> gbind (rpc_count metricsRPCFailures c) (\<lambda>c.
              Ret (c, (None, Some (Err ''Failed to deserialize command response''))))))"

text \<open>The body the three command calls have in common, apart from the message they build.\<close>

definition command_call ::
  "(nat \<Rightarrow> Connectivity) \<Rightarrow> RPCClient \<Rightarrow> string \<Rightarrow> CommandMessage go \<Rightarrow> RpcController
   \<Rightarrow> (RpcController \<times> CommandResult result) go" where
  "command_call state_at cl sid msg = with_ticket (\<lambda>c.
     let op = (\<lambda>k. gbind msg (\<lambda>req.
           let (r, err) = client_Command cl (newContext sid) req k in Ret (RCommand r, err))) in
     gbind (retry state_at op c) (\<lambda>(c, response, err). parseCommandResponse response err c))"

definition rpc_Subscribe ::
  "(nat \<Rightarrow> Connectivity) \<Rightarrow> RPCClient \<Rightarrow> string \<Rightarrow> SessionEnv \<Rightarrow> string \<Rightarrow> string \<Rightarrow> RpcController
   \<Rightarrow> (RpcController \<times> CommandResult result) go" where
  "rpc_Subscribe state_at cl sid e idents channel =
     command_call state_at cl sid (NewCommandMessage e ''subscribe'' channel idents [])"

definition rpc_Unsubscribe ::
  "(nat \<Rightarrow> Connectivity) \<Rightarrow> RPCClient \<Rightarrow> string \<Rightarrow> SessionEnv \<Rightarrow> string \<Rightarrow> string \<Rightarrow> RpcController
   \<Rightarrow> (RpcController \<times> CommandResult result) go" where
  "rpc_Unsubscribe state_at cl sid e idents channel =
     command_call state_at cl sid (NewCommandMessage e ''unsubscribe'' channel idents [])"

definition rpc_Perform ::
  "(nat \<Rightarrow> Connectivity) \<Rightarrow> RPCClient \<Rightarrow> string \<Rightarrow> SessionEnv \<Rightarrow> string \<Rightarrow> string \<Rightarrow> string
   \<Rightarrow> RpcController \<Rightarrow> (RpcController \<times> CommandResult result) go" where
  "rpc_Perform state_at cl sid e idents channel data =
     command_call state_at cl sid (NewCommandMessage e ''message'' channel idents data)"

definition disconnect_response ::
  "Response \<Rightarrow> error option \<Rightarrow> RpcController \<Rightarrow> (RpcController \<times> error option) go" where
  "disconnect_response response err c =
     (if err \<noteq> None then gbind (rpc_count metricsRPCFailures c) (\<lambda>c. Ret (c, err))
      else (case response of
        RDisconnect None \<Rightarrow> Panic nil_deref
      | RDisconnect (Some r) \<Rightarrow>
          (let err = ParseDisconnectResponse r in
           if err \<noteq> None then gbind (rpc_count metricsRPCFailures c) (\<lambda>c. Ret (c, err))
           else Ret (c, err))
      | _ \<Rightarrow> Ret (c, Some (Err ''Failed to deserialize disconnect response''))))"

definition rpc_Disconnect ::
  "(nat \<Rightarrow> Connectivity) \<Rightarrow> RPCClient \<Rightarrow> string \<Rightarrow> SessionEnv \<Rightarrow> string \<Rightarrow> string list
   \<Rightarrow> RpcController \<Rightarrow> (RpcController \<times> error option) go" where
  "rpc_Disconnect state_at cl sid e idents chs = with_ticket (\<lambda>c.
     let op = (\<lambda>k. gbind (NewDisconnectMessage e idents chs) (\<lambda>req.
           let (r, err) = client_Disconnect cl (newContext sid) req k in Ret (RDisconnect r, err))) in
     gbind (rpc_count metricsRPCCalls c) (\<lambda>c.
     gbind (retry state_at op c) (\<lambda>(c, response, err). disconnect_response response err c)))"

text \<open>
  Shutting down waits for the calls in flight with the same retry loop; \<open>busy_at k\<close> is how many
  there are when the callback runs for the \<open>k\<close>th time. The connection is closed in any case.
\<close>

definition connections_left :: "int \<Rightarrow> error" where
  "connections_left left =
     Err (''There are '' @ int_text left @ '' active RPC connections left'')"

definition rpc_Shutdown ::
  "(nat \<Rightarrow> Connectivity) \<Rightarrow> (nat \<Rightarrow> int) \<Rightarrow> RpcController \<Rightarrow> (RpcController \<times> error option) go" where
  "rpc_Shutdown state_at busy_at c = (case clientState c of
     None \<Rightarrow> Ret (c, None)
   | Some _ \<Rightarrow>
       gbind (retry state_at (\<lambda>k.
           if 0 < busy_at k then Ret (RBool False, Some (connections_left (busy_at k)))
           else Ret (RBool True, None)) c) (\<lambda>(c, _, err).
       Ret (c\<lparr>clientState := map_option helper_Close (clientState c)\<rparr>, err)))"

end
