(* ===== verification/Ws.thy ===== *)
theory Ws
  imports Encoding "HOL-Library.Sublist"
begin

text \<open>
  The WebSocket endpoint: the handler of \<^verbatim>\<open>ws/handler.go\<close>, the connection of
  \<^verbatim>\<open>ws/connection.go\<close>, the configuration of \<^verbatim>\<open>ws/config.go\<close> and the version of
  \<^verbatim>\<open>version/version.go\<close> that it announces. What the handler uses of Go's \<^verbatim>\<open>net/http\<close>,
  \<^verbatim>\<open>net\<close> and \<^verbatim>\<open>strings\<close> packages is modelled; the upgrade and the frames of the WebSocket
  library, the URL parser and the random session ids are parameters. Lower-casing is that of ASCII
  letters, which is what header names and host names consist of.
\<close>

section \<open>Strings, headers and addresses\<close>

text \<open>\<^verbatim>\<open>strings.Split\<close> at a single character: there is always at least one part.\<close>

fun split_at :: "char \<Rightarrow> string \<Rightarrow> string list" where
  "split_at sep [] = [[]]"
| "split_at sep (c # s) =
     (if c = sep then [] # split_at sep s
      else (case split_at sep s of p # ps \<Rightarrow> (c # p) # ps | [] \<Rightarrow> [[c]]))"

definition ToLower :: "string \<Rightarrow> string" where
  "ToLower = map lower"

text \<open>\<^verbatim>\<open>textproto.CanonicalMIMEHeaderKey\<close>: a key with a byte that is no token character stays as it is.\<close>

definition token_char :: "char \<Rightarrow> bool" where
  "token_char c \<longleftrightarrow> is_digit c \<or> between 65 90 c \<or> between 97 122 c \<or>
     c \<in> {CHR 0x21, CHR 0x23, CHR 0x24, CHR 0x25, CHR 0x26, CHR 0x27, CHR 0x2A, CHR 0x2B, CHR 0x2D,
          CHR 0x2E, CHR 0x5E, CHR 0x5F, CHR 0x60, CHR 0x7C, CHR 0x7E}"

definition upper :: "char \<Rightarrow> char" where
  "upper c = (if between 97 122 c then char_of (byte c - 32) else c)"

fun canonical_from :: "bool \<Rightarrow> string \<Rightarrow> string" where
  "canonical_from up [] = []"
| "canonical_from up (c # s) =
     (let c = (if up then upper c else lower c) in c # canonical_from (c = CHR ''-'') s)"

definition CanonicalMIMEHeaderKey :: "string \<Rightarrow> string" where
  "CanonicalMIMEHeaderKey key = (if list_all token_char key then canonical_from True key else key)"

text \<open>A request. The keys of the headers are canonical, as the HTTP server stores them.\<close>

record Request =
  req_Method :: string
  req_Header :: "(string, string list) gomap"
  RemoteAddr :: string
  req_Host :: string
  req_URL :: string
  req_IsAbs :: bool
  req_TLS :: bool
  req_Body :: "string result"

definition Header_Get :: "Request \<Rightarrow> string \<Rightarrow> string" where
  "Header_Get r key = (case map_of (req_Header r) (CanonicalMIMEHeaderKey key) of
     Some (v # _) \<Rightarrow> v | _ \<Rightarrow> [])"

text \<open>\<^verbatim>\<open>net.SplitHostPort\<close>: the host and the port, \<open>None\<close> where it reports an error.\<close>

fun last_index :: "char \<Rightarrow> string \<Rightarrow> nat option" where
  "last_index c [] = None"
| "last_index c (x # s) = (case last_index c s of
     Some i \<Rightarrow> Some (Suc i) | None \<Rightarrow> if x = c then Some 0 else None)"

definition index_of :: "char \<Rightarrow> string \<Rightarrow> nat option" where
  "index_of c s = (if c \<in> set s then Some (length (takeWhile (\<lambda>x. x \<noteq> c) s)) else None)"

definition SplitHostPort :: "string \<Rightarrow> (string \<times> string) option" where
  "SplitHostPort hostport = (case last_index (CHR '':'') hostport of
     None \<Rightarrow> None
   | Some i \<Rightarrow>
       (let port = drop (Suc i) hostport in
        if take 1 hostport = ''['' then
          (case index_of (CHR '']'') hostport of
             None \<Rightarrow> None
           | Some e \<Rightarrow>
               if Suc e \<noteq> i then None
               else if CHR ''['' \<in> set (drop 1 hostport) \<or> CHR '']'' \<in> set (drop (Suc e) hostport) then None
               else Some (take (e - 1) (drop 1 hostport), port))
        else if CHR '':'' \<in> set (take i hostport) then None
        else if CHR ''['' \<in> set hostport \<or> CHR '']'' \<in> set hostport then None
        else Some (take i hostport, port)))"

section \<open>Version\<close>

text \<open>\<^verbatim>\<open>version.init\<close>, from the variables the linker may set.\<close>

definition Version :: "string \<Rightarrow> string \<Rightarrow> string \<Rightarrow> string" where
  "Version version modifier sha =
     (let version = (if version = [] then ''1.1.4'' else version);
          version = (if modifier \<noteq> [] then version @ ''-'' @ modifier else version)
      in if sha \<noteq> [] then version @ ''-'' @ sha else version)"

section \<open>Requests\<close>

definition remoteAddrHeader :: string where "remoteAddrHeader = ''REMOTE_ADDR''"

record RequestInfo =
  info_UID :: string
  info_Url :: string
  info_Headers :: "(string, string) gomap option"

definition FetchHeaders :: "Request \<Rightarrow> string list \<Rightarrow> (string, string) gomap" where
  "FetchHeaders r list =
     (let res = fold (\<lambda>header res. mput header (Header_Get r header) res) list []
      in mput remoteAddrHeader
           (case SplitHostPort (RemoteAddr r) of Some (host, _) \<Rightarrow> host | None \<Rightarrow> []) res)"

text \<open>\<open>nanoid\<close> is a random id, or an error.\<close>

definition FetchUID :: "(error + string) \<Rightarrow> Request \<Rightarrow> error + string" where
  "FetchUID nanoid r =
     (let requestID = Header_Get r ''X-Request-ID'' in
      if requestID = [] then nanoid else Inr requestID)"

definition NewRequestInfo :: "(error + string) \<Rightarrow> Request \<Rightarrow> string list \<Rightarrow> error + RequestInfo" where
  "NewRequestInfo nanoid r headersToFetch =
     (let headers = FetchHeaders r headersToFetch in
      case FetchUID nanoid r of
        Inl _ \<Rightarrow> Inl (Err ''Failed to retrieve connection uid'')
      | Inr uid \<Rightarrow> Inr \<lparr>info_UID = uid, info_Url = [], info_Headers = Some headers\<rparr>)"

section \<open>Origins\<close>

text \<open>The loop over the allowed hosts; the first character of an empty entry is out of range.\<close>

fun match_hosts :: "string \<Rightarrow> string list \<Rightarrow> bool go" where
  "match_hosts u [] = Ret False"
| "match_hosts u (host # hosts) =
     (if host = [] then Panic ''index out of range [0] with length 0''
      else if hd host = CHR ''*'' \<and> suffix (tl host) u then Ret True
      else if u = host then Ret True
      else match_hosts u hosts)"

text \<open>\<open>parse\<close> is \<^verbatim>\<open>url.Parse\<close>: the host of a URL, \<open>None\<close> on an error.\<close>

definition CheckOrigin :: "(string \<Rightarrow> string option) \<Rightarrow> string \<Rightarrow> Request \<Rightarrow> bool go" where
  "CheckOrigin parse origins r =
     (if origins = [] then Ret True
      else
        (let hosts = split_at (CHR '','') (ToLower origins);
             origin = ToLower (Header_Get r ''Origin'')
         in case parse origin of None \<Rightarrow> Ret False | Some host \<Rightarrow> match_hosts host hosts))"

section \<open>Connections\<close>

text \<open>The calls on the underlying WebSocket connection and the error each of them returns.\<close>

datatype WsCall =
    SetWriteDeadline int
  | NextWriter FrameType
  | WriteBytes string
  | CloseWriter
  | WriteControl int string
  | CloseConn

text \<open>The calls of a write, made one after the other until one of them fails.\<close>

fun run_calls :: "(WsCall \<Rightarrow> error option) \<Rightarrow> WsCall list \<Rightarrow> WsCall list \<times> error option" where
  "run_calls io [] = ([], None)"
| "run_calls io (c # cs) = (case io c of
     Some err \<Rightarrow> ([c], Some err)
   | None \<Rightarrow> (let (made, err) = run_calls io cs in (c # made, err)))"

definition Connection_Write ::
  "(WsCall \<Rightarrow> error option) \<Rightarrow> string \<Rightarrow> int \<Rightarrow> WsCall list \<times> error option" where
  "Connection_Write io msg deadline =
     run_calls io [SetWriteDeadline deadline, NextWriter TextFrame, WriteBytes msg, CloseWriter]"

definition Connection_WriteBinary ::
  "(WsCall \<Rightarrow> error option) \<Rightarrow> string \<Rightarrow> int \<Rightarrow> WsCall list \<times> error option" where
  "Connection_WriteBinary io msg deadline =
     run_calls io [SetWriteDeadline deadline, NextWriter BinaryFrame, WriteBytes msg, CloseWriter]"

text \<open>Closing ignores the error of the close frame and closes the connection in any case.\<close>

definition CloseWithReason :: "int \<Rightarrow> string \<Rightarrow> WsCall list" where
  "CloseWithReason code reason = [WriteControl code reason, CloseConn]"

definition Connection_Close :: "int \<Rightarrow> string \<Rightarrow> WsCall list" where
  "Connection_Close code reason = CloseWithReason code reason"

section \<open>The handler\<close>

record ws_Config =
  ReadBufferSize :: int
  WriteBufferSize :: int
  MaxMessageSize :: int
  EnableCompression :: bool
  AllowedOrigins :: string

definition ws_NewConfig :: ws_Config where
  "ws_NewConfig = \<lparr>ReadBufferSize = 0, WriteBufferSize = 0, MaxMessageSize = 0,
     EnableCompression = False, AllowedOrigins = []\<rparr>"

record Upgrader =
  up_CheckOrigin :: "Request \<Rightarrow> bool go"
  up_Subprotocols :: "string list"
  up_ReadBufferSize :: int
  up_WriteBufferSize :: int
  up_EnableCompression :: bool

text \<open>
  How a request ends: without a connection, with a connection closed at once, or with a session
  started on a connection with its read limit and compression.
\<close>

datatype Handled =
    NotUpgraded
  | ClosedAtOnce "WsCall list"
  | SessionStarted RequestInfo int bool

definition ws_upgrader :: "(string \<Rightarrow> string option) \<Rightarrow> ws_Config \<Rightarrow> Upgrader" where
  "ws_upgrader parse cfg = \<lparr>up_CheckOrigin = CheckOrigin parse (AllowedOrigins cfg),
     up_Subprotocols = [''actioncable-v1-json''], up_ReadBufferSize = ReadBufferSize cfg,
     up_WriteBufferSize = WriteBufferSize cfg, up_EnableCompression = EnableCompression cfg\<rparr>"

definition request_url :: "Request \<Rightarrow> string" where
  "request_url r =
     (if \<not> req_IsAbs r then (if req_TLS r then ''https://'' else ''http://'') @ req_Host r @ req_URL r
      else req_URL r)"

text \<open>
  \<open>upgrade\<close> is the library's upgrade of a request, given the upgrader and the response headers: it
  says whether there is a connection.
\<close>

definition WebsocketHandler ::
  "(Upgrader \<Rightarrow> Request \<Rightarrow> (string, string list) gomap \<Rightarrow> bool go) \<Rightarrow> (string \<Rightarrow> string option)
   \<Rightarrow> string \<Rightarrow> (error + string) \<Rightarrow> string list \<Rightarrow> ws_Config \<Rightarrow> Request \<Rightarrow> Handled go" where
  "WebsocketHandler upgrade parse version nanoid headersToFetch cfg r =
     gbind (upgrade (ws_upgrader parse cfg) r [(''X-AnyCable-Version'', [version])]) (\<lambda>ok.
     Ret (if \<not> ok then NotUpgraded
          else (case NewRequestInfo nanoid r headersToFetch of
            Inl err \<Rightarrow> ClosedAtOnce (CloseWithReason CloseAbnormalClosure
              (case err of Err msg \<Rightarrow> msg | GrpcErr _ msg \<Rightarrow> msg))
          | Inr info \<Rightarrow> SessionStarted (info\<lparr>info_Url := request_url r\<rparr>) (MaxMessageSize cfg)
              (EnableCompression cfg))))"

section \<open>Properties\<close>

lemma split_at_Nil [simp]: "split_at sep s \<noteq> []"
  by (induction sep s rule: split_at.induct) (auto split: list.splits)

lemma join_Cons: "ps \<noteq> [] \<Longrightarrow> join sep ((c # p) # ps) = c # join sep (p # ps)"
  by (cases ps) auto

lemma split_at_join: "join [sep] (split_at sep s) = s"
proof (induction sep s rule: split_at.induct)
  case (2 sep c s)
  obtain p ps where ps: "split_at sep s = p # ps" using split_at_Nil by (metis list.exhaust)
  with 2 show ?case by (cases ps) auto
qed simp

lemma split_at_parts: "p \<in> set (split_at sep s) \<Longrightarrow> sep \<notin> set p"
  by (induction sep s arbitrary: p rule: split_at.induct) (fastforce split: if_splits list.splits)+

definition origin_allowed :: "string \<Rightarrow> string \<Rightarrow> bool" where
  "origin_allowed u host \<longleftrightarrow> u = host \<or> (\<exists>rest. host = CHR ''*'' # rest \<and> suffix rest u)"

lemma match_hosts_spec:
  "match_hosts u hosts =
     (let before = takeWhile (\<lambda>h. h \<noteq> []) hosts in
      if \<exists>h \<in> set before. origin_allowed u h then Ret True
      else if [] \<in> set hosts then Panic ''index out of range [0] with length 0'' else Ret False)"
proof (induction u hosts rule: match_hosts.induct)
  case (2 u host hosts)
  then show ?case by (cases host) (auto simp: origin_allowed_def Let_def)
qed (simp add: Let_def)

text \<open>
  C28. The check of the origin, for every configuration and request. With no configured origins
  everything is accepted. Otherwise an origin that is no URL is refused, and the host of any other
  is accepted when one of the comma-separated entries is that host, or is a \<^verbatim>\<open>*\<close> followed by a
  suffix of it, whatever the case of the letters. An empty entry, as a trailing comma gives, makes
  the check panic for every host that no entry before it matches.
\<close>

theorem CheckOrigin_spec:
  "CheckOrigin parse origins r =
     (if origins = [] then Ret True
      else (case parse (ToLower (Header_Get r ''Origin'')) of
        None \<Rightarrow> Ret False
      | Some u \<Rightarrow>
         (let hosts = split_at (CHR '','') (ToLower origins); before = takeWhile (\<lambda>h. h \<noteq> []) hosts in
          if \<exists>h \<in> set before. origin_allowed u h then Ret True
          else if [] \<in> set hosts then Panic ''index out of range [0] with length 0'' else Ret False)))"
  by (simp add: CheckOrigin_def match_hosts_spec Let_def split: option.split)

definition demo_request :: Request where
  "demo_request = \<lparr>req_Method = ''GET'', req_Header = [(''Origin'', [''http://evil.example'']),
       (''Cookie'', [''a=1''])],
     RemoteAddr = ''[::1]:5000'', req_Host = ''x.io'', req_URL = ''/cable'', req_IsAbs = False,
     req_TLS = False, req_Body = (Some [], None)\<rparr>"

theorem CheckOrigin_spec_witness:
  "CheckOrigin (\<lambda>_. Some ''evil.example'') ''www.x.io,'' demo_request =
     Panic ''index out of range [0] with length 0''"
  by (simp add: CheckOrigin_spec Let_def ToLower_def lower_def between_def origin_allowed_def)

lemma FetchHeaders_get:
  "map_of (FetchHeaders r list) k =
     (if k = remoteAddrHeader
      then Some (case SplitHostPort (RemoteAddr r) of Some (host, _) \<Rightarrow> host | None \<Rightarrow> [])
      else if k \<in> set list then Some (Header_Get r k) else None)"
proof -
  have "map_of (fold (\<lambda>header res. mput header (Header_Get r header) res) list res) k =
      (if k \<in> set list then Some (Header_Get r k) else map_of res k)" for res
    by (induction list arbitrary: res) (auto simp: gomap_simps)
  then show ?thesis by (simp add: FetchHeaders_def Let_def gomap_simps)
qed

text \<open>
  C29. What a session is started with. The upgrade of the library refuses a request whose origin is
  not accepted; so when the handler starts a session, the origin was accepted. The session has the
  id of the request header, or a fresh one when there is none; its headers are the configured ones
  of the request, and the client's address as the connection has it, which no header can replace;
  its URL is absolute; and the configured limit for messages is set.
\<close>

theorem session_started_with:
  assumes up: "\<And>u r h. upgrade u r h = Ret True \<Longrightarrow> up_CheckOrigin u r = Ret True"
    and started: "WebsocketHandler upgrade parse v nanoid headers cfg r = Ret (SessionStarted info limit compress)"
  shows "CheckOrigin parse (AllowedOrigins cfg) r = Ret True \<and> limit = MaxMessageSize cfg \<and>
     (if Header_Get r ''X-Request-ID'' = [] then nanoid = Inr (info_UID info)
      else info_UID info = Header_Get r ''X-Request-ID'') \<and>
     info_Url info = request_url r \<and>
     (\<exists>hs. info_Headers info = Some hs \<and>
        map_of hs ''REMOTE_ADDR'' =
          Some (case SplitHostPort (RemoteAddr r) of Some (host, _) \<Rightarrow> host | None \<Rightarrow> []) \<and>
        (\<forall>k. k \<noteq> ''REMOTE_ADDR'' \<longrightarrow>
           map_of hs k = (if k \<in> set headers then Some (Header_Get r k) else None)))"
proof -
  from started have "upgrade (ws_upgrader parse cfg) r [(''X-AnyCable-Version'', [v])] = Ret True"
    by (auto simp: WebsocketHandler_def gbind_Ret_iff split: if_splits)
  from up [OF this] have "CheckOrigin parse (AllowedOrigins cfg) r = Ret True"
    by (simp add: ws_upgrader_def)
  moreover from started obtain info0 where "NewRequestInfo nanoid r headers = Inr info0"
    "info = info0\<lparr>info_Url := request_url r\<rparr>" "limit = MaxMessageSize cfg"
    by (auto simp: WebsocketHandler_def gbind_Ret_iff split: if_splits sum.splits)
  moreover from this(1) have "info_Headers info0 = Some (FetchHeaders r headers)"
    "FetchUID nanoid r = Inr (info_UID info0)"
    by (auto simp: NewRequestInfo_def Let_def split: sum.splits)
  ultimately show ?thesis
    by (auto simp: FetchHeaders_get remoteAddrHeader_def FetchUID_def Let_def split: if_splits)
qed

theorem session_started_with_witness:
  "\<exists>info hs. WebsocketHandler (\<lambda>u r h. up_CheckOrigin u r) (\<lambda>_. Some ''evil.example'') ''1.1.4'' (Inr ''n1'')
       [''cookie''] (ws_NewConfig\<lparr>AllowedOrigins := ''*.EXAMPLE''\<rparr>) demo_request = Ret (SessionStarted info 0 False) \<and>
     info_Headers info = Some hs \<and> map_of hs ''REMOTE_ADDR'' = Some ''::1'' \<and> map_of hs ''cookie'' = Some ''a=1''"
proof -
  have "CheckOrigin (\<lambda>_. Some ''evil.example'') ''*.EXAMPLE'' demo_request = Ret True" by code_simp
  moreover have "FetchUID (Inr ''n1'') demo_request = Inr ''n1''" by code_simp
  ultimately obtain info where info: "WebsocketHandler (\<lambda>u r h. up_CheckOrigin u r) (\<lambda>_. Some ''evil.example'') ''1.1.4'' (Inr ''n1'')
       [''cookie''] (ws_NewConfig\<lparr>AllowedOrigins := ''*.EXAMPLE''\<rparr>) demo_request = Ret (SessionStarted info 0 False)"
    by (simp add: WebsocketHandler_def ws_upgrader_def ws_NewConfig_def NewRequestInfo_def)
  have "SplitHostPort (RemoteAddr demo_request) = Some (''::1'', ''5000'')"
    and "Header_Get demo_request ''cookie'' = ''a=1''" by code_simp+
  moreover obtain hs where "info_Headers info = Some hs"
    "map_of hs ''REMOTE_ADDR'' =
       Some (case SplitHostPort (RemoteAddr demo_request) of Some (host, _) \<Rightarrow> host | None \<Rightarrow> [])"
    "\<forall>k. k \<noteq> ''REMOTE_ADDR'' \<longrightarrow>
       map_of hs k = (if k \<in> set [''cookie''] then Some (Header_Get demo_request k) else None)"
    using session_started_with [OF _ info] by blast
  ultimately show ?thesis using info by (intro exI [of _ info] exI [of _ hs]) simp
qed

end
