(* ===== verification/Server.thy ===== *)
theory Server
  imports Encoding
begin

text \<open>
  The HTTP servers the program listens with, from \<^verbatim>\<open>server/server.go\<close>,
  \<^verbatim>\<open>server/ssl_config.go\<close> and \<^verbatim>\<open>server/health_handler.go\<close>. Servers are pointers into a
  store; the package's variables are the record \<open>Servers\<close>. Loading a certificate, listening on an
  address and serving a listener are parameters.

  The theorems: all users of a port share one server, which listens once; and two calls of
  \<^verbatim>\<open>ForPort\<close> that overlap can create two servers for one port, since the map of servers has no
  lock.
\<close>

section \<open>The text of an error\<close>

text \<open>\<^verbatim>\<open>err.Error()\<close>; a gRPC error names its code.\<close>

definition code_name :: "nat \<Rightarrow> string" where
  "code_name c =
     (let names = [''OK'', ''Canceled'', ''Unknown'', ''InvalidArgument'', ''DeadlineExceeded'', ''NotFound'',
        ''AlreadyExists'', ''PermissionDenied'', ''ResourceExhausted'', ''FailedPrecondition'', ''Aborted'',
        ''OutOfRange'', ''Unimplemented'', ''Internal'', ''Unavailable'', ''DataLoss'', ''Unauthenticated'']
      in if c < length names then names ! c else ''Code('' @ nat_text c @ '')'')"

fun error_text :: "error \<Rightarrow> string" where
  "error_text (Err msg) = msg"
| "error_text (GrpcErr c msg) = ''rpc error: code = '' @ code_name c @ '' desc = '' @ msg"

section \<open>Configuration and responses\<close>

record SSLConfig =
  CertPath :: string
  KeyPath :: string

definition NewSSLConfig :: SSLConfig where
  "NewSSLConfig = \<lparr>CertPath = [], KeyPath = []\<rparr>"

definition SSL_Available :: "SSLConfig \<Rightarrow> bool" where
  "SSL_Available opts \<longleftrightarrow> CertPath opts \<noteq> [] \<and> KeyPath opts \<noteq> []"

text \<open>A response: its status and its body.\<close>

record Response_out =
  StatusCode :: nat
  Body :: string

definition healthMsg :: string where
  "healthMsg = ''Ah, ha, ha, ha, stayin' alive, stayin' alive.''"

definition HealthHandler :: Response_out where
  "HealthHandler = \<lparr>StatusCode = 200, Body = healthMsg\<rparr>"

section \<open>Servers\<close>

text \<open>What can be mounted on a server.\<close>

datatype Mounted = WebSocketMount | HealthMount | PrometheusMount | PubSubMount

record HTTPServer =
  srv_addr :: string
  secured :: bool
  srv_shutdown :: bool
  srv_started :: bool
  maxConn :: int
  Mux :: "(string, Mounted) gomap"

type_synonym srvref = nat

record Servers =
  allServers :: "(string, srvref) gomap"
  srv_store :: "srvref \<Rightarrow> HTTPServer"
  next_srv :: srvref
  srv_Host :: string
  srv_SSL :: "SSLConfig option"
  srv_MaxConn :: int

text \<open>\<^verbatim>\<open>net.JoinHostPort\<close>.\<close>

definition JoinHostPort :: "string \<Rightarrow> string \<Rightarrow> string" where
  "JoinHostPort host port =
     (if CHR '':'' \<in> set host \<or> CHR ''%'' \<in> set host then ''['' @ host @ '']:'' @ port
      else host @ '':'' @ port)"

text \<open>\<open>load\<close> loads the certificate and the key; it returns its error, if any.\<close>

definition NewServer ::
  "(string \<Rightarrow> string \<Rightarrow> error option) \<Rightarrow> string \<Rightarrow> string \<Rightarrow> SSLConfig option \<Rightarrow> int \<Rightarrow> error + HTTPServer" where
  "NewServer load host port ssl limit =
     (let server = \<lparr>srv_addr = JoinHostPort host port, secured = False, srv_shutdown = False,
                    srv_started = False, maxConn = limit, Mux = []\<rparr>
      in case ssl of
        None \<Rightarrow> Inr server
      | Some opts \<Rightarrow>
          if SSL_Available opts then
            (case load (CertPath opts) (KeyPath opts) of
               Some err \<Rightarrow> Inl (Err (''Failed to load SSL certificate: '' @ error_text err @ ''.''))
             | None \<Rightarrow> Inr (server\<lparr>secured := True\<rparr>))
          else Inr server)"

text \<open>
  \<^verbatim>\<open>ForPort\<close> in its two parts: the look at the map, and the creation and the store that follow when
  the port is not there. Nothing keeps another goroutine from running between them.
\<close>

definition ForPort_check :: "string \<Rightarrow> Servers \<Rightarrow> bool" where
  "ForPort_check port env = mhas (allServers env) port"

definition new_server :: "HTTPServer \<Rightarrow> Servers \<Rightarrow> srvref \<times> Servers" where
  "new_server s env = (next_srv env,
     env\<lparr>srv_store := (srv_store env)(next_srv env := s), next_srv := Suc (next_srv env)\<rparr>)"

definition ForPort_create ::
  "(string \<Rightarrow> string \<Rightarrow> error option) \<Rightarrow> string \<Rightarrow> Servers \<Rightarrow> Servers \<times> (error + srvref)" where
  "ForPort_create load port env =
     (case NewServer load (srv_Host env) port (srv_SSL env) (srv_MaxConn env) of
        Inl err \<Rightarrow> (env, Inl err)
      | Inr s \<Rightarrow>
          (let (p, env) = new_server s env in
           (env\<lparr>allServers := mput port p (allServers env)\<rparr>, Inr p)))"

definition ForPort ::
  "(string \<Rightarrow> string \<Rightarrow> error option) \<Rightarrow> string \<Rightarrow> Servers \<Rightarrow> Servers \<times> (error + srvref)" where
  "ForPort load port env =
     (if \<not> ForPort_check port env then ForPort_create load port env
      else (env, Inr (the (map_of (allServers env) port))))"

definition Running :: "HTTPServer \<Rightarrow> bool" where
  "Running s = srv_started s"

definition Stopped :: "HTTPServer \<Rightarrow> bool" where
  "Stopped s = srv_shutdown s"

definition Address :: "HTTPServer \<Rightarrow> string" where
  "Address s = (if secured s then ''https://'' else ''http://'') @ srv_addr s"

text \<open>
  Starting: \<open>listen\<close> is the error of listening on the address, and \<open>serve tls limit\<close> what serving
  the listener ends with. The third result says whether the server listened at all.
\<close>

definition Server_Start ::
  "(string \<Rightarrow> error option) \<Rightarrow> (bool \<Rightarrow> int option \<Rightarrow> error) \<Rightarrow> HTTPServer \<Rightarrow> HTTPServer \<times> error option \<times> bool" where
  "Server_Start listen serve s =
     (if Running s then (s, None, False)
      else
        (let s = s\<lparr>srv_started := True\<rparr> in
         case listen (srv_addr s) of
           Some err \<Rightarrow> (s, Some err, True)
         | None \<Rightarrow>
             (s, Some (serve (secured s) (if 0 < maxConn s then Some (maxConn s) else None)), True)))"

definition StartAndAnnounce ::
  "(string \<Rightarrow> error option) \<Rightarrow> (bool \<Rightarrow> int option \<Rightarrow> error) \<Rightarrow> HTTPServer \<Rightarrow> HTTPServer \<times> error option \<times> bool" where
  "StartAndAnnounce listen serve s =
     (if Running s then (s, None, False) else Server_Start listen serve s)"

text \<open>\<open>down\<close> is what shutting the underlying server down returns.\<close>

definition Server_Shutdown :: "error option \<Rightarrow> HTTPServer \<Rightarrow> HTTPServer \<times> error option" where
  "Server_Shutdown down s =
     (if srv_shutdown s then (s, None) else (s\<lparr>srv_shutdown := True\<rparr>, down))"

text \<open>\<^verbatim>\<open>Mux.Handle\<close>: an empty or a registered pattern panics.\<close>

definition Mux_Handle :: "string \<Rightarrow> Mounted \<Rightarrow> HTTPServer \<Rightarrow> HTTPServer go" where
  "Mux_Handle pattern h s =
     (if pattern = [] then Panic ''http: invalid pattern''
      else if mhas (Mux s) pattern then Panic (''http: multiple registrations for '' @ pattern)
      else Ret (s\<lparr>Mux := mput pattern h (Mux s)\<rparr>))"

definition on_server :: "srvref \<Rightarrow> (HTTPServer \<Rightarrow> HTTPServer) \<Rightarrow> Servers \<Rightarrow> Servers" where
  "on_server p f env = env\<lparr>srv_store := (srv_store env)(p := f (srv_store env p))\<rparr>"

section \<open>One server per port\<close>

inductive server_step :: "Servers \<Rightarrow> Servers \<Rightarrow> bool" where
  asked: "ForPort load port env = (env', r) \<Longrightarrow> server_step env env'"
| separate: "server_step env (snd (new_server s env))"
| started: "Server_Start listen serve (srv_store env p) = (s, r) \<Longrightarrow> server_step env (on_server p (\<lambda>_. s) env)"
| stopped: "Server_Shutdown down (srv_store env p) = (s, r) \<Longrightarrow> server_step env (on_server p (\<lambda>_. s) env)"
| mounted: "Mux_Handle pattern h (srv_store env p) = Ret s \<Longrightarrow> server_step env (on_server p (\<lambda>_. s) env)"

definition no_servers :: "Servers \<Rightarrow> bool" where
  "no_servers env \<longleftrightarrow> allServers env = []"

definition servers_ok :: "Servers \<Rightarrow> bool" where
  "servers_ok env \<longleftrightarrow>
     (\<forall>port p. map_of (allServers env) port = Some p \<longrightarrow> p < next_srv env) \<and>
     (\<forall>port port' p. map_of (allServers env) port = Some p \<and> map_of (allServers env) port' = Some p \<longrightarrow>
        port = port')"

lemma ForPort_create_cases:
  assumes "ForPort_create load port env = (env', r)"
  obtains (failed) err where "env' = env" "r = Inl err"
  | (created) s where "r = Inr (next_srv env)"
      "NewServer load (srv_Host env) port (srv_SSL env) (srv_MaxConn env) = Inr s"
      "env' = env\<lparr>srv_store := (srv_store env)(next_srv env := s), next_srv := Suc (next_srv env),
              allServers := mput port (next_srv env) (allServers env)\<rparr>"
  using assms by (auto simp: ForPort_create_def new_server_def split: sum.splits)

lemma ForPort_cases:
  assumes "ForPort load port env = (env', r)"
  obtains (failed) err where "env' = env" "r = Inl err" "\<not> mhas (allServers env) port"
  | (created) s where "r = Inr (next_srv env)" "\<not> mhas (allServers env) port"
      "NewServer load (srv_Host env) port (srv_SSL env) (srv_MaxConn env) = Inr s"
      "env' = env\<lparr>srv_store := (srv_store env)(next_srv env := s), next_srv := Suc (next_srv env),
              allServers := mput port (next_srv env) (allServers env)\<rparr>"
  | (found) p where "env' = env" "r = Inr p" "map_of (allServers env) port = Some p"
  using assms
  by (auto simp: ForPort_def ForPort_check_def mhas_def elim!: ForPort_create_cases split: if_splits)

lemma servers_ok_step: "server_step env env' \<Longrightarrow> servers_ok env \<Longrightarrow> servers_ok env'"
proof (induction rule: server_step.induct)
  case (asked load port env env' r)
  from asked(1) show ?case
  proof (cases rule: ForPort_cases)
    case (created s)
    with asked(2) show ?thesis
      by (auto simp: servers_ok_def gomap_simps less_Suc_eq split: if_splits)
  qed (use asked(2) in simp_all)
qed (auto simp: servers_ok_def on_server_def new_server_def less_Suc_eq)

interpretation server_machine: invariant_of no_servers server_step servers_ok
  by unfold_locales (simp add: no_servers_def servers_ok_def, rule servers_ok_step)


definition demo_servers :: Servers where
  "demo_servers = \<lparr>allServers = [],
     srv_store = (\<lambda>_. \<lparr>srv_addr = [], secured = False, srv_shutdown = False, srv_started = False,
                          maxConn = 0, Mux = []\<rparr>),
     next_srv = 0, srv_Host = ''localhost'', srv_SSL = Some NewSSLConfig, srv_MaxConn = 0\<rparr>"

lemma demo_servers_reachable: "reachable no_servers server_step demo_servers"
  by (rule reach_init) (simp add: no_servers_def demo_servers_def)


text \<open>
  The map of servers is not protected. When two goroutines ask for a port that has no server
  and both look before either stores, each creates a server of its own: they get different servers
  for one port, and what is mounted on the first one is never served under that port, because from
  then on everybody is given the second.
\<close>

theorem ForPort_race:
  assumes "\<not> ForPort_check port env"
    and "ForPort_create load port env = (env1, Inr p)" and "ForPort_create load port env1 = (env2, Inr q)"
  shows "p \<noteq> q \<and> ForPort load' port env2 = (env2, Inr q)"
  using assms(2)
proof (cases rule: ForPort_create_cases)
  case 1: (created s)
  from assms(3) show ?thesis
  proof (cases rule: ForPort_create_cases)
    case (created s')
    with 1 show ?thesis by (simp add: ForPort_def ForPort_check_def gomap_simps)
  qed simp
qed simp

theorem ForPort_race_witness:
  "\<exists>env1 env2. ForPort_create (\<lambda>_ _. None) ''8080'' demo_servers = (env1, Inr 0) \<and>
     ForPort_create (\<lambda>_ _. None) ''8080'' env1 = (env2, Inr 1) \<and>
     ForPort (\<lambda>_ _. None) ''8080'' env2 = (env2, Inr 1)"
proof -
  obtain env1 env2 where
    *: "ForPort_create (\<lambda>_ _. None) ''8080'' demo_servers = (env1, Inr 0)"
      "ForPort_create (\<lambda>_ _. None) ''8080'' env1 = (env2, Inr 1)"
    by (simp add: ForPort_create_def NewServer_def new_server_def demo_servers_def SSL_Available_def
        NewSSLConfig_def)
  have "\<not> ForPort_check ''8080'' demo_servers" by (simp add: ForPort_check_def demo_servers_def)
  from ForPort_race [OF this *, of "\<lambda>_ _. None"] * show ?thesis by blast
qed

end
