(* ===== verification/Pubsub.thy ===== *)
theory Pubsub
  imports Node_Safety Ws Server
begin

text \<open>
  Where broadcasts come from: the subscriber interface of \<^verbatim>\<open>pubsub/subscriber.go\<close>, the HTTP
  endpoint of \<^verbatim>\<open>pubsub/http.go\<close> and the Redis subscription of \<^verbatim>\<open>pubsub/redis.go\<close>. Both hand
  what they receive to a handler, whose contract is the locale \<open>pubsub_handler\<close>; the node is shown
  to keep it. What Redis, the sentinels and the random generator do is given as the rounds of the
  reconnection loop: a round says how the connection attempt goes and what arrives on it. A list of
  events or rounds that is used up means that the subscriber still waits.
\<close>

section \<open>The handler\<close>

text \<open>What a subscriber relies on: handling a text keeps the handler's state well-formed, without a panic.\<close>

locale pubsub_handler =
  fixes handle :: "string \<Rightarrow> 'n \<Rightarrow> 'n go" and ok :: "'n \<Rightarrow> bool"
  assumes handle_safe: "ok n \<Longrightarrow> safely ok (handle raw n)"

section \<open>HTTP\<close>

record HTTPConfig =
  http_Port :: int
  http_Path :: string
  http_Secret :: string

definition NewHTTPConfig :: HTTPConfig where
  "NewHTTPConfig = \<lparr>http_Port = 0, http_Path = [], http_Secret = []\<rparr>"

record HTTPSubscriber =
  hs_port :: int
  hs_path :: string
  authHeader :: string
  hs_server :: "srvref option"

definition NewHTTPSubscriber :: "HTTPConfig \<Rightarrow> HTTPSubscriber" where
  "NewHTTPSubscriber cfg =
     \<lparr>hs_port = http_Port cfg, hs_path = http_Path cfg,
      authHeader = (if http_Secret cfg \<noteq> [] then ''Bearer '' @ http_Secret cfg else []),
      hs_server = None\<rparr>"

text \<open>The status of the response and the state of the handler's owner.\<close>

definition HTTP_Handler ::
  "(string \<Rightarrow> 'n \<Rightarrow> 'n go) \<Rightarrow> HTTPSubscriber \<Rightarrow> Request \<Rightarrow> 'n \<Rightarrow> (nat \<times> 'n) go" where
  "HTTP_Handler handle s r n =
     (if req_Method r \<noteq> ''POST'' then Ret (422, n)
      else if authHeader s \<noteq> [] \<and> Header_Get r ''Authorization'' \<noteq> authHeader s then Ret (401, n)
      else
        (let (body, err) = req_Body r in
         if err \<noteq> None then Ret (422, n)
         else gbind (handle (case body of Some b \<Rightarrow> b | None \<Rightarrow> []) n) (\<lambda>n. Ret (201, n))))"

text \<open>\<open>stopped\<close> is whether the server has been shut down by the time serving ended.\<close>

definition HTTPSubscriber_Start ::
  "(string \<Rightarrow> string \<Rightarrow> error option) \<Rightarrow> (string \<Rightarrow> error option) \<Rightarrow> (bool \<Rightarrow> int option \<Rightarrow> error) \<Rightarrow> bool
   \<Rightarrow> HTTPSubscriber \<Rightarrow> Servers \<Rightarrow> (HTTPSubscriber \<times> Servers \<times> error option) go" where
  "HTTPSubscriber_Start load listen serve stopped s srvs =
     (case ForPort load (int_text (hs_port s)) srvs of
        (srvs, Inl err) \<Rightarrow> Ret (s, srvs, Some err)
      | (srvs, Inr p) \<Rightarrow>
          (let s = s\<lparr>hs_server := Some p\<rparr> in
           gbind (Mux_Handle (hs_path s) PubSubMount (srv_store srvs p)) (\<lambda>srv.
           (let (srv, err, _) = StartAndAnnounce listen serve srv; srvs = on_server p (\<lambda>_. srv) srvs in
            case err of
              None \<Rightarrow> Ret (s, srvs, None)
            | Some e \<Rightarrow>
                if \<not> stopped
                then Ret (s, srvs, Some (Err (''Pub/Sub HTTP server at '' @ Address srv @ '' stopped: '' @ error_text e)))
                else Ret (s, srvs, None)))))"

definition HTTPSubscriber_Shutdown :: "error option \<Rightarrow> HTTPSubscriber \<Rightarrow> Servers \<Rightarrow> Servers \<times> error option" where
  "HTTPSubscriber_Shutdown down s srvs = (case hs_server s of
     None \<Rightarrow> (srvs, None)
   | Some p \<Rightarrow> (on_server p (\<lambda>srv. fst (Server_Shutdown down srv)) srvs, None))"

section \<open>Redis\<close>

definition maxReconnectAttempts :: nat where "maxReconnectAttempts = 5"

definition defaultKeepaliveInterval :: int where "defaultKeepaliveInterval = 30"

record RedisConfig =
  redis_URL :: string
  redis_Channel :: string
  redis_Sentinels :: string
  redis_SentinelDiscoveryInterval :: int
  redis_KeepalivePingInterval :: int

definition NewRedisConfig :: RedisConfig where
  "NewRedisConfig = \<lparr>redis_URL = [], redis_Channel = [], redis_Sentinels = [],
     redis_SentinelDiscoveryInterval = 0, redis_KeepalivePingInterval = defaultKeepaliveInterval\<rparr>"

record RedisSubscriber =
  rs_url :: string
  rs_sentinels :: string
  rs_sentinelDiscoveryInterval :: int
  rs_pingInterval :: int
  rs_channel :: string
  reconnectAttempt :: nat

definition NewRedisSubscriber :: "RedisConfig \<Rightarrow> RedisSubscriber" where
  "NewRedisSubscriber cfg =
     \<lparr>rs_url = redis_URL cfg, rs_sentinels = redis_Sentinels cfg,
      rs_sentinelDiscoveryInterval = redis_SentinelDiscoveryInterval cfg,
      rs_pingInterval = redis_KeepalivePingInterval cfg, rs_channel = redis_Channel cfg,
      reconnectAttempt = 0\<rparr>"

text \<open>
  The delay before a reconnection, in seconds; \<open>rand\<close> stands for the random number, taken modulo the
  bound it is asked for.
\<close>

definition nextRetry :: "nat \<Rightarrow> nat \<Rightarrow> nat" where
  "nextRetry rand step = step * step + (rand mod (step * 4)) * (step + 1)"

datatype RedisEvent =
    RMessage string
  | RSubscription string
  | RError error
  | RPing "error option"

text \<open>
  The receiving goroutine and the loop that pings, as the events come: \<open>pinging\<close> is cleared when a
  ping fails, after which only the error of the receiver is waited for.
\<close>

fun listen_events ::
  "(string \<Rightarrow> 'n \<Rightarrow> 'n go) \<Rightarrow> bool \<Rightarrow> RedisEvent list \<Rightarrow> 'n \<Rightarrow> ('n \<times> error option) go" where
  "listen_events handle pinging [] n = Block"
| "listen_events handle pinging (RMessage d # es) n =
     gbind (handle d n) (listen_events handle pinging es)"
| "listen_events handle pinging (RSubscription _ # es) n = listen_events handle pinging es n"
| "listen_events handle pinging (RError e # es) n = Ret (n, Some e)"
| "listen_events handle pinging (RPing err # es) n =
     listen_events handle (pinging \<and> err = None) es n"

text \<open>One round: the master's address from the sentinels, the connection, and what comes over it.\<close>

record RedisRound =
  rd_master :: "error + string"
  rd_dial :: "error option"
  rd_role :: bool
  rd_subscribe :: "error option"
  rd_events :: "RedisEvent list"
  rd_rand :: nat

definition listen ::
  "(string \<Rightarrow> 'n \<Rightarrow> 'n go) \<Rightarrow> RedisRound \<Rightarrow> RedisSubscriber \<Rightarrow> 'n \<Rightarrow> (RedisSubscriber \<times> 'n \<times> error option) go" where
  "listen handle rd s n =
     (if rd_dial rd \<noteq> None then Ret (s, n, rd_dial rd)
      else if rs_sentinels s \<noteq> [] \<and> \<not> rd_role rd then Ret (s, n, Some (Err ''Failed master role check''))
      else if rd_subscribe rd \<noteq> None then Ret (s, n, rd_subscribe rd)
      else
        (let s = s\<lparr>reconnectAttempt := 0\<rparr> in
         if rs_pingInterval s \<le> 0 then Panic ''non-positive interval for NewTicker''
         else gbind (listen_events handle True (rd_events rd) n) (\<lambda>(n, err). Ret (s, n, err))))"

text \<open>
  The loop of \<^verbatim>\<open>Start\<close>; \<open>at_host\<close> is the URL with another host in it. The delays slept are returned
  with the error.
\<close>

fun redis_loop ::
  "(string \<Rightarrow> 'n \<Rightarrow> 'n go) \<Rightarrow> (string \<Rightarrow> string) \<Rightarrow> RedisRound list \<Rightarrow> RedisSubscriber \<Rightarrow> 'n
   \<Rightarrow> (RedisSubscriber \<times> 'n \<times> error \<times> nat list) go" where
  "redis_loop handle at_host [] s n = Block"
| "redis_loop handle at_host (rd # rds) s n =
     (case (if rs_sentinels s \<noteq> [] then rd_master rd else Inr []) of
        Inl err \<Rightarrow> Ret (s, n, err, [])
      | Inr addr \<Rightarrow>
          (let s = (if rs_sentinels s \<noteq> [] then s\<lparr>rs_url := at_host addr\<rparr> else s) in
           gbind (listen handle rd s n) (\<lambda>(s, n, _).
           (let s = s\<lparr>reconnectAttempt := Suc (reconnectAttempt s)\<rparr> in
            if maxReconnectAttempts \<le> reconnectAttempt s
            then Ret (s, n, Err ''Redis reconnect attempts exceeded'', [])
            else gbind (redis_loop handle at_host rds s n) (\<lambda>(s', n, err, delays).
                 Ret (s', n, err, nextRetry (rd_rand rd) (reconnectAttempt s) # delays))))))"

text \<open>\<open>parse\<close> is \<^verbatim>\<open>url.Parse\<close> of the configured URL: the URL with another host, or an error.\<close>

definition RedisSubscriber_Start ::
  "(string \<Rightarrow> error + (string \<Rightarrow> string)) \<Rightarrow> (string \<Rightarrow> 'n \<Rightarrow> 'n go) \<Rightarrow> RedisRound list \<Rightarrow> RedisSubscriber \<Rightarrow> 'n
   \<Rightarrow> (RedisSubscriber \<times> 'n \<times> error \<times> nat list) go" where
  "RedisSubscriber_Start parse handle rds s n = (case parse (rs_url s) of
     Inl err \<Rightarrow> Ret (s, n, err, [])
   | Inr at_host \<Rightarrow> redis_loop handle at_host rds s n)"

text \<open>The sentinels a subscriber asks, and the options it dials one of them with.\<close>

datatype RedisDialOption =
    DialConnectTimeout nat
  | DialReadTimeout nat
  | DialTLSSkipVerify bool
  | DialPassword string

definition sentinel_addrs :: "RedisSubscriber \<Rightarrow> string list" where
  "sentinel_addrs s = split_at (CHR '','') (rs_sentinels s)"

text \<open>\<open>uri\<close> is the host and the password of \<^verbatim>\<open>redis://addr\<close>, \<open>None\<close> when that is no URL.\<close>

definition sentinel_dial ::
  "(string \<times> string option) option \<Rightarrow> string \<Rightarrow> string \<times> RedisDialOption list" where
  "sentinel_dial uri addr =
     (let opts = [DialConnectTimeout 500, DialReadTimeout 500, DialReadTimeout 500, DialTLSSkipVerify True]
      in case uri of
        None \<Rightarrow> (addr, opts)
      | Some (host, None) \<Rightarrow> (host, opts)
      | Some (host, Some password) \<Rightarrow> (host, opts @ [DialPassword password]))"

text \<open>
  The goroutine that looks for new sentinels: once when it starts, and then after every interval
  until its context is cancelled. \<open>discover_sentinels s first es\<close> gives what it logs, how long it
  has waited, in seconds, and whether it has ended; the outcomes of \<^verbatim>\<open>Discover\<close> are its arguments. A
  timer with a negative duration fires at once.
\<close>

datatype DiscoverCase = CtxDone | DiscoverTimer "error option"

definition discover_log :: "error option \<Rightarrow> string list" where
  "discover_log err = (if err \<noteq> None then [''Failed to discover sentinels''] else [])"

fun discover_loop :: "nat \<Rightarrow> DiscoverCase list \<Rightarrow> string list \<times> nat \<times> bool" where
  "discover_loop interval [] = ([], 0, False)"
| "discover_loop interval (CtxDone # es) = ([], 0, True)"
| "discover_loop interval (DiscoverTimer err # es) =
     (case discover_loop interval es of (ls, t, ended) \<Rightarrow> (discover_log err @ ls, interval + t, ended))"

definition discover_sentinels :: "RedisSubscriber \<Rightarrow> error option \<Rightarrow> DiscoverCase list \<Rightarrow> string list \<times> nat \<times> bool" where
  "discover_sentinels s first es =
     (case discover_loop (nat (rs_sentinelDiscoveryInterval s)) es of (ls, t, ended) \<Rightarrow> (discover_log first @ ls, t, ended))"

lemma discover_sentinels_until_cancelled:
  "discover_sentinels s first (map DiscoverTimer errs @ CtxDone # es) =
     (replicate (length (filter (\<lambda>e. e \<noteq> None) (first # errs))) ''Failed to discover sentinels'',
      length errs * nat (rs_sentinelDiscoveryInterval s), True)"
proof -
  have "discover_loop t (map DiscoverTimer errs @ CtxDone # es) =
      (replicate (length (filter (\<lambda>e. e \<noteq> None) errs)) ''Failed to discover sentinels'',
       length errs * t, True)" for t
    by (induction errs) (simp_all add: discover_log_def)
  then show ?thesis by (simp add: discover_sentinels_def discover_log_def)
qed

section \<open>Choosing a subscriber\<close>

datatype Subscriber = RedisSub RedisSubscriber | HTTPSub HTTPSubscriber

definition NewSubscriber :: "string \<Rightarrow> RedisConfig \<Rightarrow> HTTPConfig \<Rightarrow> error + Subscriber" where
  "NewSubscriber adapter redis http =
     (if adapter = ''redis'' then Inr (RedisSub (NewRedisSubscriber redis))
      else if adapter = ''http'' then Inr (HTTPSub (NewHTTPSubscriber http))
      else Inl (Err (''Unknown adapter type: '' @ adapter)))"

section \<open>Subscribers keep the handler's state well-formed\<close>

context pubsub_handler
begin

lemma HTTP_Handler_safe: "ok n \<Longrightarrow> safely (\<lambda>(_, n). ok n) (HTTP_Handler handle s r n)"
  by (auto simp: HTTP_Handler_def split: prod.split intro!: safely_gbindI [OF handle_safe])

lemma listen_events_safe: "ok n \<Longrightarrow> safely (\<lambda>(n, _). ok n) (listen_events handle pinging es n)"
proof (induction es arbitrary: pinging n)
  case (Cons e es)
  then show ?case by (cases e) (auto intro!: safely_gbindI [OF handle_safe])
qed simp

lemma listen_safe:
  assumes "ok n" "0 < rs_pingInterval s"
  shows "safely (\<lambda>(s', n, _). ok n \<and> rs_pingInterval s' = rs_pingInterval s) (listen handle rd s n)"
  using assms
  by (auto simp: listen_def Let_def intro!: safely_gbindI [OF listen_events_safe])

lemma redis_loop_safe:
  "ok n \<Longrightarrow> 0 < rs_pingInterval s \<Longrightarrow> safely (\<lambda>(_, n, _). ok n) (redis_loop handle at_host rds s n)"
proof (induction rds arbitrary: s n)
  case (Cons rd rds)
  show ?case
  proof (cases "if rs_sentinels s \<noteq> [] then rd_master rd else Inr []")
    case (Inr addr)
    let ?s = "if rs_sentinels s \<noteq> [] then s\<lparr>rs_url := at_host addr\<rparr> else s"
    have "0 < rs_pingInterval ?s" using Cons.prems by simp
    from listen_safe [OF Cons.prems(1) this, of rd] Inr Cons.prems Cons.IH show ?thesis
      by (auto simp: Let_def intro!: safely_gbindI [OF listen_safe] safely_gbindI [OF Cons.IH] split: if_splits)
  qed (use Cons.prems in auto)
qed simp

end

interpretation node_handler: pubsub_handler HandlePubSub node_ok
  by unfold_locales (rule HandlePubSub_safe)

text \<open>
  C25. The HTTP endpoint hands the body of a request to the node exactly when the request is a POST,
  carries the configured secret, if there is one, as a bearer token, and can be read. Then it
  answers 201 and the node is what handling the body makes of it; in every other case it answers
  401 or 422 and the node is untouched. On a node that has been started it never panics.
\<close>

theorem http_broadcast_authorized:
  assumes "reachable node_started node_step n"
  shows "HTTP_Handler HandlePubSub (NewHTTPSubscriber cfg) r n \<noteq> Panic p \<and>
    (HTTP_Handler HandlePubSub (NewHTTPSubscriber cfg) r n = Ret (st, n') \<longrightarrow>
      (st = 201 \<longleftrightarrow> req_Method r = ''POST'' \<and>
         (http_Secret cfg = [] \<or> Header_Get r ''Authorization'' = ''Bearer '' @ http_Secret cfg) \<and>
         snd (req_Body r) = None) \<and>
      (if st = 201 then HandlePubSub (case fst (req_Body r) of Some b \<Rightarrow> b | None \<Rightarrow> []) n = Ret n'
       else n' = n \<and> st \<in> {401, 422}))"
proof (intro conjI impI)
  show "HTTP_Handler HandlePubSub (NewHTTPSubscriber cfg) r n \<noteq> Panic p"
    using node_handler.HTTP_Handler_safe [OF node_machine.inv_reachable [OF assms]]
    unfolding safely_iff by blast
  obtain body err where body: "req_Body r = (body, err)" by fastforce
  assume h: "HTTP_Handler HandlePubSub (NewHTTPSubscriber cfg) r n = Ret (st, n')"
  show "st = 201 \<longleftrightarrow> req_Method r = ''POST'' \<and>
         (http_Secret cfg = [] \<or> Header_Get r ''Authorization'' = ''Bearer '' @ http_Secret cfg) \<and>
         snd (req_Body r) = None"
    using h body by (auto simp: HTTP_Handler_def NewHTTPSubscriber_def gbind_Ret_iff split: if_splits)
  show "if st = 201 then HandlePubSub (case fst (req_Body r) of Some b \<Rightarrow> b | None \<Rightarrow> []) n = Ret n'
       else n' = n \<and> st \<in> {401, 422}"
    using h body by (auto simp: HTTP_Handler_def NewHTTPSubscriber_def gbind_Ret_iff split: if_splits)
qed

theorem http_broadcast_authorized_witness:
  "\<exists>n. reachable node_started node_step n \<and>
     \<not> (req_Method (demo_request\<lparr>req_Method := ''POST''\<rparr>) = ''POST'' \<and>
        (''s3'' = [] \<or> Header_Get (demo_request\<lparr>req_Method := ''POST''\<rparr>) ''Authorization'' = ''Bearer s3'')) \<and>
     HTTP_Handler HandlePubSub (NewHTTPSubscriber \<lparr>http_Port = 8090, http_Path = ''/_b'', http_Secret = ''s3''\<rparr>)
       (demo_request\<lparr>req_Method := ''POST''\<rparr>) n = Ret (401, n)"
proof -
  obtain n where "node_started n" using small_node_started by blast
  then have n: "reachable node_started node_step n" by (rule reach_init)
  let ?cfg = "\<lparr>http_Port = 8090, http_Path = ''/_b'', http_Secret = ''s3''\<rparr>"
  let ?r = "demo_request\<lparr>req_Method := ''POST''\<rparr>"
  have "Header_Get ?r ''Authorization'' = []" by code_simp
  then have h: "HTTP_Handler HandlePubSub (NewHTTPSubscriber ?cfg) ?r n = Ret (401, n)"
    by (simp add: HTTP_Handler_def NewHTTPSubscriber_def)
  have b: "snd (req_Body ?r) = None" by (simp add: demo_request_def)
  have "\<not> (req_Method ?r = ''POST'' \<and>
      (''s3'' = [] \<or> Header_Get ?r ''Authorization'' = ''Bearer s3''))"
    using http_broadcast_authorized [OF n, of ?cfg ?r _ 401 n] b by (simp add: h)
  with n h show ?thesis by (intro exI [of _ n] conjI)
qed

section \<open>Redis rounds\<close>

text \<open>The messages of a round reach the handler in the order in which they arrive, until the connection fails.\<close>

fun messages_of :: "RedisEvent list \<Rightarrow> string list" where
  "messages_of [] = []"
| "messages_of (RMessage d # es) = d # messages_of es"
| "messages_of (_ # es) = messages_of es"

lemma listen_events_in_order:
  assumes "\<forall>e. RError e \<notin> set es"
  shows "listen_events handle pinging (es @ RError e # rest) n =
     gbind (gfor (messages_of es) handle n) (\<lambda>n. Ret (n, Some e))"
  using assms
proof (induction es arbitrary: pinging n)
  case (Cons x es)
  then have IH: "listen_events handle p (es @ RError e # rest) n =
     gbind (gfor (messages_of es) handle n) (\<lambda>n. Ret (n, Some e))" for p n by simp
  show ?case
  proof (cases x)
    case (RMessage d)
    then show ?thesis by (cases "handle d n") (simp_all add: IH)
  next
    case (RError e')
    with Cons.prems show ?thesis by auto
  qed (simp_all add: IH)
qed simp

definition redis_subscribed :: "string \<Rightarrow> RedisRound \<Rightarrow> bool" where
  "redis_subscribed sentinels rd \<longleftrightarrow>
     rd_dial rd = None \<and> (sentinels = [] \<or> rd_role rd) \<and> rd_subscribe rd = None"

lemma listen_Ret:
  assumes "listen handle rd s n = Ret (s', n', err)"
  shows "s' = (if redis_subscribed (rs_sentinels s) rd then s\<lparr>reconnectAttempt := 0\<rparr> else s) \<and>
     (\<not> redis_subscribed (rs_sentinels s) rd \<longrightarrow> n' = n)"
  using assms
  by (auto simp: listen_def redis_subscribed_def Let_def gbind_Ret_iff split: if_splits)

lemma listen_unsubscribed:
  "\<not> redis_subscribed (rs_sentinels s) rd \<Longrightarrow> \<exists>err. listen handle rd s n = Ret (s, n, err)"
  by (auto simp: listen_def redis_subscribed_def)

text \<open>The number of attempts after some rounds.\<close>

fun attempts_after :: "string \<Rightarrow> nat \<Rightarrow> RedisRound list \<Rightarrow> nat" where
  "attempts_after sn a [] = a"
| "attempts_after sn a (rd # rds) =
     attempts_after sn (if redis_subscribed sn rd then 1 else Suc a) rds"

lemma attempts_after_bound:
  "attempts_after sn a rds \<le>
     Suc (length (takeWhile (\<lambda>rd. \<not> redis_subscribed sn rd) (rev rds))) \<or>
   (\<forall>rd \<in> set rds. \<not> redis_subscribed sn rd) \<and> attempts_after sn a rds = a + length rds"
proof (induction rds arbitrary: a)
  case (Cons rd rds)
  have len: "length (takeWhile (\<lambda>rd. \<not> redis_subscribed sn rd) (rev rds)) \<le> length rds"
    using length_takeWhile_le [of _ "rev rds"] by simp
  show ?case
  proof (cases "redis_subscribed sn rd")
    case True
    then show ?thesis using Cons.IH [of 1] len by (auto simp: takeWhile_append)
  next
    case False
    then show ?thesis using Cons.IH [of "Suc a"] len by (auto simp: takeWhile_append)
  qed
qed simp

lemma nextRetry_bounds:
  assumes "1 \<le> step" "step \<le> 4"
  shows "1 \<le> nextRetry rand step" "nextRetry rand step \<le> 91"
proof -
  have "rand mod (step * 4) \<le> 15" using assms mod_less_divisor [of "step * 4" rand] by linarith
  then have "(rand mod (step * 4)) * (step + 1) \<le> 15 * 5" using assms by (intro mult_le_mono) auto
  moreover have "step * step \<le> 4 * 4" using assms by (intro mult_le_mono) auto
  ultimately show "nextRetry rand step \<le> 91" by (simp add: nextRetry_def)
  have "1 * 1 \<le> step * step" using assms by (intro mult_le_mono) auto
  then show "1 \<le> nextRetry rand step" unfolding nextRetry_def by linarith
qed

lemma redis_loop_ends:
  assumes "redis_loop handle at_host rds s n = Ret (s', n', err, delays)"
    and "err = Err ''Redis reconnect attempts exceeded''" "rs_sentinels s = []" "reconnectAttempt s \<le> 4"
  shows "(\<exists>used rest. rds = used @ rest \<and> length used = Suc (length delays) \<and>
      attempts_after [] (reconnectAttempt s) used = 5) \<and> (\<forall>d \<in> set delays. 1 \<le> d \<and> d \<le> 91)"
  using assms
proof (induction rds arbitrary: s n delays)
  case (Cons rd rds)
  from Cons.prems(1,3) obtain s1 n1 e1 where l: "listen handle rd s n = Ret (s1, n1, e1)"
    and rest: "(let s = s1\<lparr>reconnectAttempt := Suc (reconnectAttempt s1)\<rparr> in
            if maxReconnectAttempts \<le> reconnectAttempt s
            then Ret (s, n1, Err ''Redis reconnect attempts exceeded'', [])
            else gbind (redis_loop handle at_host rds s n1) (\<lambda>(s', n, err, delays).
                 Ret (s', n, err, nextRetry (rd_rand rd) (reconnectAttempt s) # delays))) = Ret (s', n', err, delays)"
    by (auto simp: gbind_Ret_iff)
  define a where "a = (if redis_subscribed [] rd then 1 else Suc (reconnectAttempt s))"
  have s1: "rs_sentinels s1 = []" "Suc (reconnectAttempt s1) = a"
    using listen_Ret [OF l] Cons.prems(3) by (auto simp: a_def)
  have a: "1 \<le> a" "a \<le> 5" using Cons.prems(4) by (auto simp: a_def)
  show ?case
  proof (cases "5 \<le> a")
    case True
    with rest s1 have "delays = []" by (simp add: Let_def maxReconnectAttempts_def)
    moreover have "attempts_after [] (reconnectAttempt s) [rd] = 5" using True a by (simp flip: a_def)
    ultimately show ?thesis
      by (intro conjI exI [of _ "[rd]"] exI [of _ rds]) simp_all
  next
    case False
    let ?s = "s1\<lparr>reconnectAttempt := a\<rparr>"
    from False rest s1 obtain ds where
      ds: "redis_loop handle at_host rds ?s n1 = Ret (s', n', err, ds)" "delays = nextRetry (rd_rand rd) a # ds"
      by (auto simp: Let_def maxReconnectAttempts_def gbind_Ret_iff)
    from Cons.IH [OF ds(1) Cons.prems(2)] s1 False obtain used rest' where
      u: "rds = used @ rest'" "length used = Suc (length ds)" "attempts_after [] a used = 5"
        "\<forall>d \<in> set ds. 1 \<le> d \<and> d \<le> 91" by auto
    have "attempts_after [] (reconnectAttempt s) (rd # used) = 5" using u(3) by (simp flip: a_def)
    then show ?thesis
      using u ds(2) nextRetry_bounds [of a "rd_rand rd"] a False
      by (intro conjI exI [of _ "rd # used"] exI [of _ rest']) auto
  qed
qed simp

lemma five_failures:
  assumes "rs_sentinels s = []" "reconnectAttempt s = 0"
    and "rds = r1 # r2 # r3 # r4 # r5 # rest" "\<forall>rd \<in> {r1, r2, r3, r4, r5}. \<not> redis_subscribed [] rd"
  shows "\<exists>s' delays. redis_loop handle at_host rds s n =
     Ret (s', n, Err ''Redis reconnect attempts exceeded'', delays)"
proof -
  have *: "\<exists>e. listen handle rd (s\<lparr>reconnectAttempt := a\<rparr>) n = Ret (s\<lparr>reconnectAttempt := a\<rparr>, n, e)"
    if "rd \<in> {r1, r2, r3, r4, r5}" for rd a
    using listen_unsubscribed [of "s\<lparr>reconnectAttempt := a\<rparr>" rd handle n] assms(1,4) that by auto
  have s: "s\<lparr>reconnectAttempt := 0\<rparr> = s" using assms(2) by simp
  from * [of r1 0] * [of r2 1] * [of r3 2] * [of r4 3] * [of r5 4] show ?thesis
    using assms(1,2,3) by (auto simp: s Let_def maxReconnectAttempts_def eval_nat_numeral)
qed

text \<open>
  C26. When the Redis subscriber gives up. Without sentinels it reports that its attempts are
  exceeded only after four rounds in a row that did not get as far as a subscription, having waited
  between 1 and 91 seconds between any two rounds; and five such rounds in a row from its start make
  it give up, with the node untouched. In particular every subscription that succeeds starts the
  count again.
\<close>

theorem redis_gives_up:
  assumes "rs_sentinels s = []" "reconnectAttempt s = 0"
  shows "(redis_loop handle at_host rds s n = Ret (s', n', Err ''Redis reconnect attempts exceeded'', delays) \<longrightarrow>
      (\<exists>used rest. rds = used @ rest \<and> length used = Suc (length delays) \<and>
         4 \<le> length (takeWhile (\<lambda>rd. \<not> redis_subscribed [] rd) (rev used))) \<and>
      (\<forall>d \<in> set delays. 1 \<le> d \<and> d \<le> 91)) \<and>
    (5 \<le> length rds \<and> (\<forall>rd \<in> set (take 5 rds). \<not> redis_subscribed [] rd) \<longrightarrow>
      (\<exists>s' delays. redis_loop handle at_host rds s n =
         Ret (s', n, Err ''Redis reconnect attempts exceeded'', delays)))"
proof (intro conjI impI)
  assume r: "redis_loop handle at_host rds s n = Ret (s', n', Err ''Redis reconnect attempts exceeded'', delays)"
  from redis_loop_ends [OF r refl assms(1)] assms(2) obtain used rest where
    u: "rds = used @ rest" "length used = Suc (length delays)" "attempts_after [] 0 used = 5"
      "\<forall>d \<in> set delays. 1 \<le> d \<and> d \<le> 91" by auto
  have all: "takeWhile (\<lambda>rd. \<not> redis_subscribed [] rd) (rev used) = rev used"
    if "\<forall>rd \<in> set used. \<not> redis_subscribed [] rd" using that by simp
  have "4 \<le> length (takeWhile (\<lambda>rd. \<not> redis_subscribed [] rd) (rev used))"
    using attempts_after_bound [of "[]" 0 used] u(3) by (auto simp: all)
  with u show "\<exists>used rest. rds = used @ rest \<and> length used = Suc (length delays) \<and>
      4 \<le> length (takeWhile (\<lambda>rd. \<not> redis_subscribed [] rd) (rev used))"
    and "\<forall>d \<in> set delays. 1 \<le> d \<and> d \<le> 91" by blast+
next
  assume f: "5 \<le> length rds \<and> (\<forall>rd \<in> set (take 5 rds). \<not> redis_subscribed [] rd)"
  then obtain r1 r2 r3 r4 r5 rest where r: "rds = r1 # r2 # r3 # r4 # r5 # rest"
    by (auto simp: eval_nat_numeral Suc_le_length_iff)
  with f have "\<forall>rd \<in> {r1, r2, r3, r4, r5}. \<not> redis_subscribed [] rd" by simp
  from five_failures [OF assms r this]
  show "\<exists>s' delays. redis_loop handle at_host rds s n =
         Ret (s', n, Err ''Redis reconnect attempts exceeded'', delays)" .
qed

theorem redis_gives_up_witness:
  "\<exists>s' delays. redis_loop (\<lambda>_ n. Ret n) (\<lambda>h. h)
     (replicate 5 \<lparr>rd_master = Inr [], rd_dial = Some (Err ''refused''), rd_role = True, rd_subscribe = None,
        rd_events = [], rd_rand = 3\<rparr>) (NewRedisSubscriber NewRedisConfig) (0 :: nat) =
     Ret (s', 0, Err ''Redis reconnect attempts exceeded'', delays)"
  using redis_gives_up [of "NewRedisSubscriber NewRedisConfig" "\<lambda>_ n. Ret n" "\<lambda>h. h"
      "replicate 5 \<lparr>rd_master = Inr [], rd_dial = Some (Err ''refused''), rd_role = True,
        rd_subscribe = None, rd_events = [], rd_rand = 3\<rparr>" "0 :: nat"]
  by (simp add: NewRedisSubscriber_def NewRedisConfig_def redis_subscribed_def)

end
