(* ===== verification/Metrics_Run.thy ===== *)
theory Metrics_Run
  imports Metrics Server
begin

text \<open>
  The metrics service: its configuration (\<^verbatim>\<open>metrics/config.go\<close>), its creation, its loop and its
  shutdown (\<^verbatim>\<open>metrics/metrics.go\<close>), and the printers (\<^verbatim>\<open>metrics/printer.go\<close>,
  \<^verbatim>\<open>metrics/custom_printer.go\<close>, \<^verbatim>\<open>metrics/custom_printer_unsupported.go\<close>).

  The goroutine that runs the service is a machine whose phases are the places where it waits: for
  its HTTP server to end, in its \<^verbatim>\<open>select\<close>, and between a rotation and the writes. The
  \<^verbatim>\<open>select\<close> evaluates the field \<^verbatim>\<open>shutdownCh\<close> anew in every turn, so the phase records whether
  it found a channel or nil. The embedded Ruby is a parameter.
\<close>

section \<open>Configuration and printers\<close>

record metrics_Config =
  m_Log :: bool
  m_LogInterval :: int
  m_RotateInterval :: int
  m_LogFormatter :: string
  m_HTTP :: string
  m_Host :: string
  m_Port :: int

definition metrics_NewConfig :: metrics_Config where
  "metrics_NewConfig = \<lparr>m_Log = False, m_LogInterval = 0, m_RotateInterval = 0, m_LogFormatter = [],
     m_HTTP = [], m_Host = [], m_Port = 0\<rparr>"

definition LogFormatterEnabled :: "metrics_Config \<Rightarrow> bool" where
  "LogFormatterEnabled c \<longleftrightarrow> m_LogFormatter c \<noteq> []"

definition LogEnabled :: "metrics_Config \<Rightarrow> bool" where
  "LogEnabled c \<longleftrightarrow> m_Log c \<or> LogFormatterEnabled c"

definition HTTPEnabled :: "metrics_Config \<Rightarrow> bool" where
  "HTTPEnabled c \<longleftrightarrow> m_HTTP c \<noteq> []"

datatype IntervalWriter = BasePrinter | RubyPrinter string

text \<open>Programs built without mruby have no custom printers.\<close>

definition NewCustomPrinter :: "bool \<Rightarrow> string \<Rightarrow> error + IntervalWriter" where
  "NewCustomPrinter mrb path = (if mrb then Inr (RubyPrinter path) else Inl (Err ''Not supported''))"

definition NewBasePrinter :: IntervalWriter where
  "NewBasePrinter = BasePrinter"

text \<open>\<open>load_script\<close> loads the file into the Ruby engine.\<close>

fun Writer_Run :: "(string \<Rightarrow> error option) \<Rightarrow> IntervalWriter \<Rightarrow> int \<Rightarrow> error option" where
  "Writer_Run load_script BasePrinter interval = None"
| "Writer_Run load_script (RubyPrinter path) interval = load_script path"

datatype LogField = FText string | FNum "64 word"

definition BasePrinter_Print :: "(string, 64 word) gomap \<Rightarrow> (string, LogField) gomap" where
  "BasePrinter_Print snapshot =
     fold (\<lambda>(k, v) fields. mput k (FNum v) fields) snapshot (mput ''context'' (FText ''metrics'') [])"

text \<open>What a writer logs: the fields, or what the script makes of the snapshot.\<close>

datatype LogLine = Fields "(string, LogField) gomap" | Scripted string "(string, 64 word) gomap"

fun Writer_Write :: "IntervalWriter \<Rightarrow> Metrics \<Rightarrow> LogLine" where
  "Writer_Write BasePrinter m = Fields (BasePrinter_Print (IntervalSnapshot m))"
| "Writer_Write (RubyPrinter path) m = Scripted path (IntervalSnapshot m)"

section \<open>The service\<close>

definition DefaultRotateInterval :: int where
  "DefaultRotateInterval = 15"

record MetricsService =
  registry :: Metrics
  writers :: "IntervalWriter list"
  ms_server :: "srvref option"
  httpPath :: string
  rotateInterval :: int
  ms_shutdownCh :: bool
  shutdown_closed :: bool
  logged :: "LogLine list"

definition NewMetrics :: "IntervalWriter list \<Rightarrow> int \<Rightarrow> MetricsService" where
  "NewMetrics ws seconds =
     \<lparr>registry = \<lparr>counters = [], gauges = []\<rparr>, writers = ws, ms_server = None, httpPath = [],
      rotateInterval = seconds, ms_shutdownCh = True, shutdown_closed = False, logged = []\<rparr>"

definition RegisterWriter :: "IntervalWriter \<Rightarrow> MetricsService \<Rightarrow> MetricsService" where
  "RegisterWriter w m = m\<lparr>writers := writers m @ [w]\<rparr>"

definition config_writers :: "bool \<Rightarrow> metrics_Config \<Rightarrow> error + IntervalWriter list" where
  "config_writers mrb c =
     (if LogEnabled c then
        (if LogFormatterEnabled c then map_sum id (\<lambda>w. [w]) (NewCustomPrinter mrb (m_LogFormatter c))
         else Inr [NewBasePrinter])
      else Inr [])"

text \<open>The server the metrics are served by: one of their own for another host, else the shared one.\<close>

definition config_server ::
  "(string \<Rightarrow> string \<Rightarrow> error option) \<Rightarrow> metrics_Config \<Rightarrow> Servers \<Rightarrow> Servers \<times> (error + srvref)" where
  "config_server load c env =
     (if m_Host c \<noteq> [] \<and> m_Host c \<noteq> srv_Host env then
        (case NewServer load (m_Host c) (int_text (m_Port c)) (srv_SSL env) 0 of
           Inl err \<Rightarrow> (env, Inl err)
         | Inr s \<Rightarrow> (let (p, env) = new_server s env in (env, Inr p)))
      else ForPort load (int_text (m_Port c)) env)"

definition FromConfig ::
  "bool \<Rightarrow> (string \<Rightarrow> string \<Rightarrow> error option) \<Rightarrow> metrics_Config \<Rightarrow> Servers \<Rightarrow> (Servers \<times> (error + MetricsService)) go" where
  "FromConfig mrb load c env = (case config_writers mrb c of
     Inl err \<Rightarrow> Ret (env, Inl err)
   | Inr ws \<Rightarrow>
       (let instance = NewMetrics ws (m_RotateInterval c) in
        if HTTPEnabled c then
          (case config_server load c env of
             (env, Inl err) \<Rightarrow> Ret (env, Inl err)
           | (env, Inr p) \<Rightarrow>
               gbind (Mux_Handle (m_HTTP c) PrometheusMount (srv_store env p)) (\<lambda>s.
               Ret (on_server p (\<lambda>_. s) env, Inr (instance\<lparr>ms_server := Some p, httpPath := m_HTTP c\<rparr>))))
        else Ret (env, Inr instance)))"

section \<open>Running and shutting down\<close>

datatype MetricsPhase =
    MServing "error option"
  | MWriters
  | MSelect bool
  | MRotated
  | MReturned "error option"

text \<open>
  The server is started by whoever comes first, and starting it returns only when serving has
  ended: \<open>MServing\<close> holds what it will end with.
\<close>

definition Run_start ::
  "(string \<Rightarrow> error option) \<Rightarrow> (bool \<Rightarrow> int option \<Rightarrow> error) \<Rightarrow> Servers \<Rightarrow> MetricsService \<Rightarrow> Servers \<times> MetricsPhase" where
  "Run_start listen serve env m = (case ms_server m of
     None \<Rightarrow> (env, MWriters)
   | Some p \<Rightarrow>
       (let (s, err, listened) = StartAndAnnounce listen serve (srv_store env p)
        in (on_server p (\<lambda>_. s) env, if listened then MServing err else MWriters)))"

definition Run_served :: "error option \<Rightarrow> Servers \<Rightarrow> MetricsService \<Rightarrow> MetricsPhase" where
  "Run_served err env m = (case (err, ms_server m) of
     (Some e, Some p) \<Rightarrow>
       if Stopped (srv_store env p) then MWriters
       else MReturned (Some (Err (''Metrics HTTP server at '' @ Address (srv_store env p) @ '' stopped: '' @ error_text e)))
   | _ \<Rightarrow> MWriters)"

fun run_writers :: "(string \<Rightarrow> error option) \<Rightarrow> int \<Rightarrow> IntervalWriter list \<Rightarrow> error option" where
  "run_writers load_script interval [] = None"
| "run_writers load_script interval (w # ws) = (case Writer_Run load_script w interval of
     Some err \<Rightarrow> Some err
   | None \<Rightarrow> run_writers load_script interval ws)"

definition Run_begin :: "(string \<Rightarrow> error option) \<Rightarrow> MetricsService \<Rightarrow> MetricsService \<times> MetricsPhase" where
  "Run_begin load_script m =
     (if writers m = [] then (m, MReturned None)
      else
        (let m = (if rotateInterval m = 0 then m\<lparr>rotateInterval := DefaultRotateInterval\<rparr> else m)
         in case run_writers load_script (rotateInterval m) (writers m) of
           Some err \<Rightarrow> (m, MReturned (Some err))
         | None \<Rightarrow> (m, MSelect (ms_shutdownCh m))))"

definition Run_tick :: "MetricsService \<Rightarrow> MetricsService" where
  "Run_tick m = m\<lparr>registry := rotate_metrics (registry m)\<rparr>"

definition Run_write :: "MetricsService \<Rightarrow> MetricsService \<times> MetricsPhase" where
  "Run_write m =
     (m\<lparr>logged := logged m @ map (\<lambda>w. Writer_Write w (registry m)) (writers m)\<rparr>, MSelect (ms_shutdownCh m))"

text \<open>Stopping a printer does nothing.\<close>

definition Metrics_Shutdown :: "error option \<Rightarrow> Servers \<Rightarrow> MetricsService \<Rightarrow> Servers \<times> MetricsService" where
  "Metrics_Shutdown down env m =
     (if \<not> ms_shutdownCh m then (env, m)
      else
        (case ms_server m of None \<Rightarrow> env | Some p \<Rightarrow> on_server p (\<lambda>s. fst (Server_Shutdown down s)) env,
         m\<lparr>shutdown_closed := True, ms_shutdownCh := False\<rparr>))"

inductive metrics_step ::
  "Servers \<times> MetricsService \<times> MetricsPhase \<Rightarrow> Servers \<times> MetricsService \<times> MetricsPhase \<Rightarrow> bool" where
  served: "metrics_step (env, m, MServing err) (env, m, Run_served err env m)"
| begun: "Run_begin load_script m = (m', ph) \<Longrightarrow> metrics_step (env, m, MWriters) (env, m', ph)"
| ticked: "metrics_step (env, m, MSelect ch) (env, Run_tick m, MRotated)"
| written: "Run_write m = (m', ph) \<Longrightarrow> metrics_step (env, m, MRotated) (env, m', ph)"
| stopped: "shutdown_closed m \<Longrightarrow> metrics_step (env, m, MSelect True) (env, m, MReturned None)"
| shut: "Metrics_Shutdown down env m = (env', m') \<Longrightarrow> metrics_step (env, m, ph) (env', m', ph)"
| counted: "metrics_step (env, m, ph) (env, m\<lparr>registry := r\<rparr>, ph)"

section \<open>Rotation\<close>

text \<open>What one counter is reported with, interval by interval: the additions, the rotation, the snapshot.\<close>

fun intervals :: "string \<Rightarrow> 64 word list \<Rightarrow> Metrics \<Rightarrow> 64 word option list go" where
  "intervals name [] m = Ret []"
| "intervals name (n # ns) m = gbind (counter_add name n m) (\<lambda>m.
     let m = rotate_metrics m in
     gbind (intervals name ns m) (\<lambda>rs. Ret (map_of (IntervalSnapshot m) name # rs)))"

lemma map_of_IntervalSnapshot:
  assumes "gomap (counters m)" "gomap (gauges m)" "map_of (gauges m) name = None"
  shows "map_of (IntervalSnapshot m) name = map_option Counter_IntervalValue (map_of (counters m) name)"
  using assms by (simp add: IntervalSnapshot_def map_of_fold_mput split: option.split)

lemma map_of_rotate: "map_of (counters (rotate_metrics m)) name = map_option Counter_UpdateDelta (map_of (counters m) name)"
  by (simp add: rotate_metrics_def map_of_map)

lemma gomap_rotate: "gomap (counters (rotate_metrics m)) = gomap (counters m)" "gauges (rotate_metrics m) = gauges m"
  by (simp_all add: rotate_metrics_def comp_def case_prod_unfold)

lemma intervals_exact:
  assumes "map_of (counters m) name = Some c" "lastIntervalValue c = c_value c"
    and "gomap (counters m)" "gomap (gauges m)" "map_of (gauges m) name = None"
    and "unat (c_value c) + sum_list (map unat ns) < 2 ^ 64"
  shows "intervals name ns m = Ret (map Some ns)"
  using assms
proof (induction ns arbitrary: m c)
  case (Cons n ns)
  define c' m' where "c' = Counter_UpdateDelta (Counter_Add n c)"
    and "m' = rotate_metrics (m\<lparr>counters := mput name (Counter_Add n c) (counters m)\<rparr>)"
  have bound: "unat (c_value c) + unat n < 2 ^ 64" using Cons.prems(6) by simp
  then have sum: "unat (c_value c + n) = unat (c_value c) + unat n" by (simp add: unat_word_ariths)
  have m': "map_of (counters m') name = Some c'" "gomap (counters m')" "gauges m' = gauges m"
    using Cons.prems(3) by (simp_all add: m'_def c'_def map_of_rotate gomap_rotate gomap_simps)
  have c': "lastIntervalValue c' = c_value c'" "unat (c_value c') = unat (c_value c) + unat n"
    using sum by (simp_all add: c'_def Counter_UpdateDelta_def Counter_Add_def Let_def)
  have "Counter_IntervalValue c' = n"
  proof (cases "c_value c + n = 0")
    case True
    then have "unat (c_value c) + unat n = 0" using sum by simp
    then have "n = 0" by (simp add: unat_eq_zero)
    with True show ?thesis
      by (simp add: c'_def Counter_IntervalValue_def Counter_Value_def Counter_UpdateDelta_def Counter_Add_def Let_def)
  next
    case False
    then show ?thesis
      using Cons.prems(2) by (simp add: c'_def Counter_IntervalValue_def Counter_UpdateDelta_def Counter_Add_def Let_def)
  qed
  then have "map_of (IntervalSnapshot m') name = Some n"
    using m' Cons.prems(4,5) by (simp add: map_of_IntervalSnapshot)
  moreover have "intervals name ns m' = Ret (map Some ns)"
    using Cons.prems(4-6) m' c' by (intro Cons.IH [where c = c']) simp_all
  ultimately show ?case
    using Cons.prems(1) by (simp add: counter_add_def m'_def Let_def)
qed simp



text \<open>
  A counter that was zero at its rotation is read as its current value: what is added between the
  rotation and the snapshot is reported, and reported again for the next interval.
\<close>

lemma interval_counted_twice:
  assumes "c_value c = 0" "lastIntervalValue c = 0" "n \<noteq> 0"
  shows "Counter_IntervalValue (Counter_Add n (Counter_UpdateDelta c)) = n \<and>
     Counter_IntervalValue (Counter_UpdateDelta (Counter_Add n (Counter_UpdateDelta c))) = n"
  using assms by (simp add: Counter_IntervalValue_def Counter_Value_def Counter_UpdateDelta_def Counter_Add_def Let_def)

section \<open>Shutdown\<close>

interpretation late_shutdown: invariant_of
  "\<lambda>(env, m, ph). \<not> ms_shutdownCh m \<and> ph = MRotated" metrics_step
  "\<lambda>(env, m, ph). \<not> ms_shutdownCh m \<and> (ph = MRotated \<or> ph = MSelect False)"
proof
  fix s s' :: "Servers \<times> MetricsService \<times> MetricsPhase"
  assume "metrics_step s s'"
    and "case s of (env, m, ph) \<Rightarrow> \<not> ms_shutdownCh m \<and> (ph = MRotated \<or> ph = MSelect False)"
  then show "case s' of (env, m, ph) \<Rightarrow> \<not> ms_shutdownCh m \<and> (ph = MRotated \<or> ph = MSelect False)"
    by cases (auto simp: Run_tick_def Run_write_def Metrics_Shutdown_def split: if_splits)
qed auto

text \<open>
  A shutdown stops the metrics loop only when it finds it waiting. In its \<^verbatim>\<open>select\<close> the loop sees
  the closed channel and returns. When the shutdown comes between a rotation and the end of the
  writes, the loop finds nil in the field afterwards and never returns, whatever happens later.
\<close>

theorem metrics_shutdown:
  assumes "ms_shutdownCh m" "Metrics_Shutdown down env m = (env', m')"
  shows "metrics_step (env', m', MSelect True) (env', m', MReturned None) \<and>
    (reachable (\<lambda>s. s = (env', m', MRotated)) metrics_step (env'', m'', ph) \<longrightarrow> ph \<noteq> MReturned err)"
proof (intro conjI impI)
  have m': "m' = m\<lparr>shutdown_closed := True, ms_shutdownCh := False\<rparr>"
    using assms by (auto simp: Metrics_Shutdown_def split: if_splits)
  then show "metrics_step (env', m', MSelect True) (env', m', MReturned None)"
    by (intro metrics_step.stopped) simp
  assume r: "reachable (\<lambda>s. s = (env', m', MRotated)) metrics_step (env'', m'', ph)"
  have "reachable (\<lambda>(env, m, ph). \<not> ms_shutdownCh m \<and> ph = MRotated) metrics_step s"
    if "reachable (\<lambda>s. s = (env', m', MRotated)) metrics_step s" for s
    using that by induction (auto simp: m' intro: reach_init reach_step)
  from late_shutdown.inv_reachable [OF this [OF r]] show "ph \<noteq> MReturned err" by auto
qed

theorem metrics_shutdown_witness:
  "\<exists>m'. Metrics_Shutdown None demo_servers (NewMetrics [BasePrinter] 15) = (demo_servers, m') \<and>
     metrics_step (demo_servers, m', MSelect True) (demo_servers, m', MReturned None)"
proof -
  obtain m' where m': "Metrics_Shutdown None demo_servers (NewMetrics [BasePrinter] 15) = (demo_servers, m')"
    by (simp add: Metrics_Shutdown_def NewMetrics_def)
  moreover have "ms_shutdownCh (NewMetrics [BasePrinter] 15)" by (simp add: NewMetrics_def)
  ultimately show ?thesis using metrics_shutdown [OF _ m'] by blast
qed

end
