(* ===== verification/Options.thy ===== *)
theory Options
  imports Rpc Pubsub Metrics_Run
begin

text \<open>
  The configuration (\<^verbatim>\<open>config/config.go\<close>) and the command line (\<^verbatim>\<open>cli/options.go\<close>): the defaults
  the flags are registered with, which depend on two environment variables, and what is derived from
  the parsed values. The flag library is a parameter: \<open>parse\<close> sets the variables from the arguments
  and the environment, or fails. Of its registration only the documented effect is used, that the
  variable gets the default. The usage is the text that \<^verbatim>\<open>PrintHelp\<close> prints.
\<close>

section \<open>Configuration\<close>

record AppConfig =
  App :: Config
  cfg_RPC :: rpc_Config
  cfg_Redis :: RedisConfig
  cfg_HTTPPubSub :: HTTPConfig
  cfg_Host :: string
  cfg_Port :: int
  cfg_MaxConn :: int
  BroadcastAdapter :: string
  cfg_Path :: string
  HealthPath :: string
  cfg_Headers :: "string list"
  cfg_SSL :: SSLConfig
  cfg_WS :: ws_Config
  cfg_MaxMessageSize :: int
  DisconnectorDisabled :: bool
  cfg_DisconnectQueue :: DisconnectQueueConfig
  LogLevel :: string
  LogFormat :: string
  cfg_Metrics :: metrics_Config

definition config_New :: AppConfig where
  "config_New =
     \<lparr>App = NewConfig, cfg_RPC = rpc_NewConfig, cfg_Redis = NewRedisConfig,
      cfg_HTTPPubSub = NewHTTPConfig, cfg_Host = [], cfg_Port = 0, cfg_MaxConn = 0,
      BroadcastAdapter = [], cfg_Path = [], HealthPath = [], cfg_Headers = [],
      cfg_SSL = NewSSLConfig, cfg_WS = ws_NewConfig, cfg_MaxMessageSize = 0,
      DisconnectorDisabled = False, cfg_DisconnectQueue = NewDisconnectQueueConfig, LogLevel = [],
      LogFormat = [], cfg_Metrics = metrics_NewConfig\<rparr>"

section \<open>Flags\<close>

text \<open>\<^verbatim>\<open>strconv.Atoi\<close>: an optional sign and decimal digits, within 64 bits.\<close>

definition Atoi :: "string \<Rightarrow> int option" where
  "Atoi s =
     (let sign = (if take 1 s = ''-'' then - 1 else 1);
          ds = (if take 1 s = ''-'' \<or> take 1 s = ''+'' then drop 1 s else s);
          v = sign * int (foldl (\<lambda>n c. 10 * n + (byte c - 48)) 0 ds)
      in if ds = [] \<or> \<not> list_all is_digit ds then None
         else if v < - (2 ^ 63) \<or> 2 ^ 63 - 1 < v then None
         else Some v)"

record CliVars =
  defaults :: AppConfig
  headers :: string
  showVersion :: bool
  showHelp :: bool
  debugMode :: bool

definition port_default :: "(string \<Rightarrow> string) \<Rightarrow> int" where
  "port_default Getenv =
     (if Getenv ''PORT'' \<noteq> [] then (case Atoi (Getenv ''PORT'') of Some i \<Rightarrow> i | None \<Rightarrow> 8080) else 8080)"

definition redis_default :: "(string \<Rightarrow> string) \<Rightarrow> string" where
  "redis_default Getenv =
     (if Getenv ''REDIS_URL'' \<noteq> [] then Getenv ''REDIS_URL'' else ''redis://localhost:6379/5'')"

text \<open>
  A flag has a name, a default and a variable to store values in; registering it stores the
  default.
\<close>

datatype FlagValue = StringFlag string | IntFlag int | BoolFlag bool

record Flag =
  flag_name :: string
  flag_default :: FlagValue
  flag_store :: "FlagValue \<Rightarrow> CliVars \<Rightarrow> CliVars"

definition StringVar :: "(string \<Rightarrow> CliVars \<Rightarrow> CliVars) \<Rightarrow> string \<Rightarrow> string \<Rightarrow> Flag" where
  "StringVar var name value = \<lparr>flag_name = name, flag_default = StringFlag value,
     flag_store = (\<lambda>x. case x of StringFlag s \<Rightarrow> var s | _ \<Rightarrow> id)\<rparr>"

definition IntVar :: "(int \<Rightarrow> CliVars \<Rightarrow> CliVars) \<Rightarrow> string \<Rightarrow> int \<Rightarrow> Flag" where
  "IntVar var name value = \<lparr>flag_name = name, flag_default = IntFlag value,
     flag_store = (\<lambda>x. case x of IntFlag i \<Rightarrow> var i | _ \<Rightarrow> id)\<rparr>"

definition BoolVar :: "(bool \<Rightarrow> CliVars \<Rightarrow> CliVars) \<Rightarrow> string \<Rightarrow> bool \<Rightarrow> Flag" where
  "BoolVar var name value = \<lparr>flag_name = name, flag_default = BoolFlag value,
     flag_store = (\<lambda>x. case x of BoolFlag b \<Rightarrow> var b | _ \<Rightarrow> id)\<rparr>"

definition on_config :: "('x \<Rightarrow> AppConfig \<Rightarrow> AppConfig) \<Rightarrow> 'x \<Rightarrow> CliVars \<Rightarrow> CliVars" where
  "on_config f x v = v\<lparr>defaults := f x (defaults v)\<rparr>"

definition cli_flags :: "(string \<Rightarrow> string) \<Rightarrow> Flag list" where
  "cli_flags Getenv =
     [StringVar (on_config (\<lambda>x c. c\<lparr>cfg_Host := x\<rparr>)) ''host'' ''localhost'',
      IntVar (on_config (\<lambda>x c. c\<lparr>cfg_Port := x\<rparr>)) ''port'' (port_default Getenv),
      IntVar (on_config (\<lambda>x c. c\<lparr>cfg_MaxConn := x\<rparr>)) ''max-conn'' 0,
      StringVar (on_config (\<lambda>x c. c\<lparr>cfg_Path := x\<rparr>)) ''path'' ''/cable'',
      StringVar (on_config (\<lambda>x c. c\<lparr>HealthPath := x\<rparr>)) ''health-path'' ''/health'',
      StringVar (on_config (\<lambda>x c. c\<lparr>cfg_SSL := (cfg_SSL c)\<lparr>CertPath := x\<rparr>\<rparr>)) ''ssl_cert'' [],
      StringVar (on_config (\<lambda>x c. c\<lparr>cfg_SSL := (cfg_SSL c)\<lparr>KeyPath := x\<rparr>\<rparr>)) ''ssl_key'' [],
      StringVar (on_config (\<lambda>x c. c\<lparr>BroadcastAdapter := x\<rparr>)) ''broadcast_adapter'' ''redis'',
      StringVar (on_config (\<lambda>x c. c\<lparr>cfg_Redis := (cfg_Redis c)\<lparr>redis_URL := x\<rparr>\<rparr>)) ''redis_url'' (redis_default Getenv),
      StringVar (on_config (\<lambda>x c. c\<lparr>cfg_Redis := (cfg_Redis c)\<lparr>redis_Channel := x\<rparr>\<rparr>)) ''redis_channel'' ''__anycable__'',
      StringVar (on_config (\<lambda>x c. c\<lparr>cfg_Redis := (cfg_Redis c)\<lparr>redis_Sentinels := x\<rparr>\<rparr>)) ''redis_sentinels'' [],
      IntVar (on_config (\<lambda>x c. c\<lparr>cfg_Redis := (cfg_Redis c)\<lparr>redis_SentinelDiscoveryInterval := x\<rparr>\<rparr>)) ''redis_sentinel_discovery_interval'' 30,
      IntVar (on_config (\<lambda>x c. c\<lparr>cfg_Redis := (cfg_Redis c)\<lparr>redis_KeepalivePingInterval := x\<rparr>\<rparr>)) ''redis_keepalive_interval'' 30,
      IntVar (on_config (\<lambda>x c. c\<lparr>cfg_HTTPPubSub := (cfg_HTTPPubSub c)\<lparr>http_Port := x\<rparr>\<rparr>)) ''http_broadcast_port'' 8090,
      StringVar (on_config (\<lambda>x c. c\<lparr>cfg_HTTPPubSub := (cfg_HTTPPubSub c)\<lparr>http_Path := x\<rparr>\<rparr>)) ''http_broadcast_path'' ''/_broadcast'',
      StringVar (on_config (\<lambda>x c. c\<lparr>cfg_HTTPPubSub := (cfg_HTTPPubSub c)\<lparr>http_Secret := x\<rparr>\<rparr>)) ''http_broadcast_secret'' [],
      StringVar (on_config (\<lambda>x c. c\<lparr>cfg_RPC := (cfg_RPC c)\<lparr>Host := x\<rparr>\<rparr>)) ''rpc_host'' ''localhost:50051'',
      IntVar (on_config (\<lambda>x c. c\<lparr>cfg_RPC := (cfg_RPC c)\<lparr>Concurrency := x\<rparr>\<rparr>)) ''rpc_concurrency'' 28,
      BoolVar (on_config (\<lambda>x c. c\<lparr>cfg_RPC := (cfg_RPC c)\<lparr>EnableTLS := x\<rparr>\<rparr>)) ''rpc_enable_tls'' False,
      IntVar (on_config (\<lambda>x c. c\<lparr>cfg_RPC := (cfg_RPC c)\<lparr>MaxRecvSize := x\<rparr>\<rparr>)) ''rpc_max_call_recv_size'' 0,
      IntVar (on_config (\<lambda>x c. c\<lparr>cfg_RPC := (cfg_RPC c)\<lparr>MaxSendSize := x\<rparr>\<rparr>)) ''rpc_max_call_send_size'' 0,
      StringVar (\<lambda>x v. v\<lparr>headers := x\<rparr>) ''headers'' ''cookie'',
      IntVar (on_config (\<lambda>x c. c\<lparr>cfg_WS := (cfg_WS c)\<lparr>ReadBufferSize := x\<rparr>\<rparr>)) ''read_buffer_size'' 1024,
      IntVar (on_config (\<lambda>x c. c\<lparr>cfg_WS := (cfg_WS c)\<lparr>WriteBufferSize := x\<rparr>\<rparr>)) ''write_buffer_size'' 1024,
      IntVar (on_config (\<lambda>x c. c\<lparr>cfg_WS := (cfg_WS c)\<lparr>MaxMessageSize := x\<rparr>\<rparr>)) ''max_message_size'' 65536,
      BoolVar (on_config (\<lambda>x c. c\<lparr>cfg_WS := (cfg_WS c)\<lparr>EnableCompression := x\<rparr>\<rparr>)) ''enable_ws_compression'' False,
      StringVar (on_config (\<lambda>x c. c\<lparr>cfg_WS := (cfg_WS c)\<lparr>AllowedOrigins := x\<rparr>\<rparr>)) ''allowed_origins'' [],
      IntVar (on_config (\<lambda>x c. c\<lparr>cfg_DisconnectQueue := (cfg_DisconnectQueue c)\<lparr>cfg_Rate := x\<rparr>\<rparr>)) ''disconnect_rate'' 100,
      IntVar (on_config (\<lambda>x c. c\<lparr>cfg_DisconnectQueue := (cfg_DisconnectQueue c)\<lparr>cfg_ShutdownTimeout := x\<rparr>\<rparr>)) ''disconnect_timeout'' 5,
      BoolVar (on_config (\<lambda>x c. c\<lparr>DisconnectorDisabled := x\<rparr>)) ''disable_disconnect'' False,
      StringVar (on_config (\<lambda>x c. c\<lparr>LogLevel := x\<rparr>)) ''log_level'' ''info'',
      StringVar (on_config (\<lambda>x c. c\<lparr>LogFormat := x\<rparr>)) ''log_format'' ''text'',
      BoolVar (\<lambda>x v. v\<lparr>debugMode := x\<rparr>) ''debug'' False,
      BoolVar (on_config (\<lambda>x c. c\<lparr>cfg_Metrics := (cfg_Metrics c)\<lparr>m_Log := x\<rparr>\<rparr>)) ''metrics_log'' False,
      IntVar (on_config (\<lambda>x c. c\<lparr>cfg_Metrics := (cfg_Metrics c)\<lparr>m_RotateInterval := x\<rparr>\<rparr>)) ''metrics_rotate_interval'' 0,
      IntVar (on_config (\<lambda>x c. c\<lparr>cfg_Metrics := (cfg_Metrics c)\<lparr>m_LogInterval := x\<rparr>\<rparr>)) ''metrics_log_interval'' (- 1),
      StringVar (on_config (\<lambda>x c. c\<lparr>cfg_Metrics := (cfg_Metrics c)\<lparr>m_LogFormatter := x\<rparr>\<rparr>)) ''metrics_log_formatter'' [],
      StringVar (on_config (\<lambda>x c. c\<lparr>cfg_Metrics := (cfg_Metrics c)\<lparr>m_HTTP := x\<rparr>\<rparr>)) ''metrics_http'' [],
      StringVar (on_config (\<lambda>x c. c\<lparr>cfg_Metrics := (cfg_Metrics c)\<lparr>m_Host := x\<rparr>\<rparr>)) ''metrics_host'' [],
      IntVar (on_config (\<lambda>x c. c\<lparr>cfg_Metrics := (cfg_Metrics c)\<lparr>m_Port := x\<rparr>\<rparr>)) ''metrics_port'' 0,
      IntVar (on_config (\<lambda>x c. c\<lparr>App := (App c)\<lparr>PingInterval := x\<rparr>\<rparr>)) ''ping_interval'' 3,
      StringVar (on_config (\<lambda>x c. c\<lparr>App := (App c)\<lparr>PingTimestampPrecision := x\<rparr>\<rparr>)) ''ping_timestamp_precision'' ''s'',
      IntVar (on_config (\<lambda>x c. c\<lparr>App := (App c)\<lparr>StatsRefreshInterval := x\<rparr>\<rparr>)) ''stats_refresh_interval'' 5,
      IntVar (on_config (\<lambda>x c. c\<lparr>App := (App c)\<lparr>HubGopoolSize := x\<rparr>\<rparr>)) ''hub_gopool_size'' 16,
      BoolVar (\<lambda>x v. v\<lparr>showHelp := x\<rparr>) ''h'' False,
      BoolVar (\<lambda>x v. v\<lparr>showVersion := x\<rparr>) ''v'' False]"

definition cli_init :: "(string \<Rightarrow> string) \<Rightarrow> CliVars" where
  "cli_init Getenv =
     fold (\<lambda>f. flag_store f (flag_default f)) (cli_flags Getenv)
       \<lparr>defaults = config_New, headers = [], showVersion = False, showHelp = False, debugMode = False\<rparr>"

definition parseHeaders :: "string \<Rightarrow> string list" where
  "parseHeaders str = map ToLower (split_at (CHR '','') str)"

definition prepareComplexDefaults :: "CliVars \<Rightarrow> CliVars" where
  "prepareComplexDefaults v =
     (let c = defaults v;
          c = c\<lparr>cfg_Headers := parseHeaders (headers v)\<rparr>;
          c = (if debugMode v then c\<lparr>LogLevel := ''debug'', LogFormat := ''text''\<rparr> else c);
          c = (if m_Port (cfg_Metrics c) = 0
               then c\<lparr>cfg_Metrics := (cfg_Metrics c)\<lparr>m_Port := cfg_Port c\<rparr>\<rparr> else c);
          c = (if 0 < m_LogInterval (cfg_Metrics c) \<and> m_RotateInterval (cfg_Metrics c) = 0
               then c\<lparr>cfg_Metrics := (cfg_Metrics c)\<lparr>m_RotateInterval := m_LogInterval (cfg_Metrics c)\<rparr>\<rparr> else c)
      in v\<lparr>defaults := c\<rparr>)"

text \<open>What \<^verbatim>\<open>prepareComplexDefaults\<close> prints, line by line.\<close>

definition deprecation_warning :: "CliVars \<Rightarrow> string list" where
  "deprecation_warning v =
     (if 0 < m_LogInterval (cfg_Metrics (defaults v))
      then [''DEPRECATION WARNING: metrics_log_interval option is deprecated'',
            ''and will be deleted in the next major release of anycable-go.'',
            ''Use metrics_rotate_interval instead.'']
      else [])"

definition cli_Config ::
  "(string list \<Rightarrow> CliVars \<Rightarrow> error + CliVars) \<Rightarrow> string list \<Rightarrow> CliVars \<Rightarrow> error + CliVars" where
  "cli_Config parse args v = (case parse args v of
     Inl err \<Rightarrow> Inl err
   | Inr v \<Rightarrow> Inr (prepareComplexDefaults v))"

section \<open>Usage\<close>

text \<open>
  The options as the usage describes them, in its groups: the name, the description, the default
  where one is given, and the environment variables.
\<close>

definition usage_options :: "(string \<times> string \<times> string option \<times> string list) list list" where
  \<open>usage_options = [
      [(''host'', ''Server host'', Some ''localhost'', [''ANYCABLE_HOST'']),
       (''port'', ''Server port'', Some ''8080'', [''ANYCABLE_PORT'', ''PORT'']),
       (''max-conn'', ''Limit simultaneous server connections (0 '' @ [CHR 0xE2, CHR 0x80, CHR 0x93] @ '' without limit)'', Some ''0'', [''ANYCABLE_MAX_CONN'']),
       (''path'', ''WebSocket endpoint path'', Some ''/cable'', [''ANYCABLE_PATH'']),
       (''health-path'', ''HTTP health endpoint path'', Some ''/health'', [''ANYCABLE_HEALTH_PATH''])],
      [(''ssl_cert'', ''SSL certificate path'', None, [''ANYCABLE_SSL_CERT'']),
       (''ssl_key'', ''SSL private key path'', None, [''ANYCABLE_SSL_KEY''])],
      [(''broadcast_adapter'', ''Broadcasting adapter to use (redis or http)'', Some ''redis'', [''ANYCABLE_BROADCAST_ADAPTER''])],
      [(''redis_url'', ''Redis url'', Some ''redis://localhost:6379/5'', [''ANYCABLE_REDIS_URL'', ''REDIS_URL'']),
       (''redis_channel'', ''Redis channel for broadcasts'', Some ''__anycable__'', [''ANYCABLE_REDIS_CHANNEL'']),
       (''redis_sentinels'', ''Comma separated list of sentinel hosts, format: '' @ [CHR 0x27] @ ''hostname:port,..'' @ [CHR 0x27], None, [''ANYCABLE_REDIS_SENTINELS'']),
       (''redis_sentinel_discovery_interval'', ''Interval to rediscover sentinels in seconds'', Some ''30'', [''ANYCABLE_REDIS_SENTINEL_DISCOVERY_INTERVAL'']),
       (''redis_keeepalive_interval'', ''Interval to periodically ping Redis to make sure it'' @ [CHR 0x27] @ ''s alive'', Some ''30'', [''ANYCABLE_REDIS_KEEPALIVE_INTERVAL''])],
      [(''http_broadcast_port'', ''HTTP pub/sub server port'', Some ''8090'', [''ANYCABLE_HTTP_BROADCAST_PORT'']),
       (''http_broadcast_path'', ''HTTP pub/sub endpoint path'', Some ''/_broadcast'', [''ANYCABLE_HTTP_BROADCAST_PATH'']),
       (''http_broadcast_secret'', ''HTTP pub/sub authorization secret'', Some ''"" (disabled)'', [''ANYCABLE_HTTP_BROADCAST_SECRET''])],
      [(''rpc_host'', ''RPC service address'', Some ''localhost:50051'', [''ANYCABLE_RPC_HOST'']),
       (''rpc_concurrency'', ''Max number of concurrent RPC request; should be slightly less than the RPC server concurrency'', Some ''28'', [''ANYCABLE_RPC_CONCURRENCY'']),
       (''rpc_enable_tls'', ''Enable client-side TLS with the RPC server'', Some ''false'', [''ANYCABLE_RPC_ENABLE_TLS'']),
       (''rpc_max_call_recv_size'', ''Override default MaxCallRecvMsgSize for RPC client (bytes)'', Some ''none'', [''ANYCABLE_RPC_MAX_CALL_RECV_SIZE'']),
       (''rpc_max_call_send_size'', ''Override default MaxCallSendMsgSize for RPC client (bytes)'', Some ''none'', [''ANYCABLE_RPC_MAX_CALL_SEND_SIZE'']),
       (''headers'', ''List of headers to proxy to RPC'', Some ''cookie'', [''ANYCABLE_HEADERS''])],
      [(''disconnect_rate'', ''Max number of Disconnect calls per second'', Some ''100'', [''ANYCABLE_DISCONNECT_RATE'']),
       (''disconnect_timeout'', ''Graceful shutdown timeouts (in seconds)'', Some ''5'', [''ANYCABLE_DISCONNECT_TIMEOUT'']),
       (''disable_disconnect'', ''Disable calling Disconnect callback'', Some ''false'', [''ANYCABLE_DISABLE_DISCONNECT''])],
      [(''log_level'', ''Set logging level (debug/info/warn/error/fatal)'', Some ''info'', [''ANYCABLE_LOG_LEVEL'']),
       (''log_format'', ''Set logging format (text, json)'', Some ''text'', [''ANYCABLE_LOG_FORMAT'']),
       (''debug'', ''Enable debug mode (more verbose logging)'', Some ''false'', [''ANYCABLE_DEBUG''])],
      [(''metrics_log'', ''Enable metrics logging (with info level)'', Some ''false'', [''ANYCABLE_METRICS_LOG'']),
       (''metrics_rotate_interval'', ''Specify how often flush metrics to writers (logs, statsd) (in seconds)'', Some ''15'', [''ANYCABLE_METRICS_ROTATE_INTERVAL'']),
       (''metrics_log_interval'', ''DEPRECATED. Specify how often flush metrics logs (in seconds)'', Some ''15'', [''ANYCABLE_METRICS_LOG_INTERVAL'']),
       (''metrics_log_formatter'', ''Specify the path to custom Ruby formatter script (only supported on MacOS and Linux)'', Some ''"" (none)'', [''ANYCABLE_METRICS_LOG_FORMATTER'']),
       (''metrics_http'', ''Enable HTTP metrics endpoint at the specified path'', Some ''"" (disabled)'', [''ANYCABLE_METRICS_HTTP'']),
       (''metrics_host'', ''Server host for metrics endpoint'', Some ''the same as for main server'', [''ANYCABLE_METRICS_HOST'']),
       (''metrics_port'', ''Server port for metrics endpoint'', Some ''the same as for main server'', [''ANYCABLE_METRICS_PORT''])],
      [(''read_buffer_size'', ''WebSocket connection read buffer size'', Some ''1024'', [''ANYCABLE_READ_BUFFER_SIZE'']),
       (''write_buffer_size'', ''WebSocket connection write buffer size'', Some ''1024'', [''ANYCABLE_WRITE_BUFFER_SIZE'']),
       (''max_message_size'', ''Maximum size of a message in bytes'', Some ''65536'', [''ANYCABLE_MAX_MESSAGE_SIZE'']),
       (''enable_ws_compression'', ''Enable experimental WebSocket per message compression'', Some ''false'', [''ANYCABLE_ENABLE_WS_COMPRESSION'']),
       (''hub_gopool_size'', ''The size of the goroutines pool to broadcast messages'', Some ''16'', [''ANYCABLE_HUB_GOPOOL_SIZE'']),
       (''allowed_origins'', ''Accept requests only from specified origins, e.g., "www.example.com,*example.io". No check is performed if empty'', Some ''""'', [''ANYCABLE_ALLOWED_ORIGINS''])],
      [(''ping_interval'', ''Action Cable ping interval (in seconds)'', Some ''3'', [''ANYCABLE_PING_INTERVAL'']),
       (''ping_timestamp_precision'', ''Precision for timestamps in ping messages (s, ms, ns)'', Some ''s'', [''ANYCABLE_PING_TIMESTAMP_PRECISION'']),
       (''stats_refresh_interval'', ''How often to refresh the server stats (in seconds)'', Some ''5'', [''ANYCABLE_STATS_REFRESH_INTERVAL''])]]\<close>

definition usage_line :: "string \<times> string \<times> string option \<times> string list \<Rightarrow> string" where
  "usage_line = (\<lambda>(name, desc, default_text, envs).
     ''  --'' @ name @ replicate (37 - length name) (CHR '' '') @ desc @
     (case default_text of None \<Rightarrow> [] | Some d \<Rightarrow> '', default: '' @ d) @ '', env: '' @ join '', '' envs)"

definition usage :: string where
  "usage = concat (map (\<lambda>l. l @ [CHR 0x0A])
     ([''AnyCable-Go, The WebSocket server for https://anycable.io'', [], ''USAGE'',
       ''  anycable-go [options]'', [], ''OPTIONS''] @
      concat (map (\<lambda>os. map usage_line os @ [[]]) usage_options) @
      [''  -h                       This help screen'', ''  -v                       Show version'', []]))"

definition PrintHelp :: string where
  "PrintHelp = usage"

text \<open>
  The usage and the flags name the same options, save one: the interval of the Redis pings is
  documented under a name that is not a flag.
\<close>

lemma usage_names_flags:
  "set (map fst (concat usage_options)) - set (map flag_name (cli_flags Getenv)) = {''redis_keeepalive_interval''}"
  "set (map flag_name (cli_flags Getenv)) - set (map fst (concat usage_options)) =
     {''redis_keepalive_interval'', ''h'', ''v''}"
  by (simp_all add: usage_options_def cli_flags_def StringVar_def IntVar_def BoolVar_def insert_Diff_if)

section \<open>What the configuration comes out as\<close>

text \<open>The settings of a program that is given no options.\<close>

lemma cli_init_values:
  "cli_init Getenv =
     \<lparr>defaults = config_New
       \<lparr>App := \<lparr>PingInterval = 3, StatsRefreshInterval = 5, HubGopoolSize = 16, PingTimestampPrecision = ''s''\<rparr>,
        cfg_RPC := \<lparr>Host = ''localhost:50051'', Concurrency = 28, EnableTLS = False, MaxRecvSize = 0, MaxSendSize = 0\<rparr>,
        cfg_Redis := \<lparr>redis_URL = redis_default Getenv, redis_Channel = ''__anycable__'', redis_Sentinels = [],
          redis_SentinelDiscoveryInterval = 30, redis_KeepalivePingInterval = 30\<rparr>,
        cfg_HTTPPubSub := \<lparr>http_Port = 8090, http_Path = ''/_broadcast'', http_Secret = []\<rparr>,
        cfg_Host := ''localhost'', cfg_Port := port_default Getenv, cfg_MaxConn := 0,
        BroadcastAdapter := ''redis'', cfg_Path := ''/cable'', HealthPath := ''/health'',
        cfg_SSL := \<lparr>CertPath = [], KeyPath = []\<rparr>,
        cfg_WS := \<lparr>ReadBufferSize = 1024, WriteBufferSize = 1024, MaxMessageSize = 65536,
          EnableCompression = False, AllowedOrigins = []\<rparr>,
        DisconnectorDisabled := False,
        cfg_DisconnectQueue := \<lparr>cfg_Rate = 100, cfg_ShutdownTimeout = 5\<rparr>,
        LogLevel := ''info'', LogFormat := ''text'',
        cfg_Metrics := \<lparr>m_Log = False, m_LogInterval = - 1, m_RotateInterval = 0, m_LogFormatter = [],
          m_HTTP = [], m_Host = [], m_Port = 0\<rparr>\<rparr>,
      headers = ''cookie'', showVersion = False, showHelp = False, debugMode = False\<rparr>"
  by (simp add: cli_init_def cli_flags_def StringVar_def IntVar_def BoolVar_def on_config_def config_New_def
      NewConfig_def rpc_NewConfig_def NewRedisConfig_def NewHTTPConfig_def NewSSLConfig_def ws_NewConfig_def
      NewDisconnectQueueConfig_def metrics_NewConfig_def)

lemma split_at_never_empty: "split_at c s \<noteq> []"
  by (induction c s rule: split_at.induct) (auto split: list.splits)

lemma Atoi_range: "Atoi s = Some v \<Longrightarrow> - (2 ^ 63) \<le> v \<and> v < 2 ^ 63"
  by (auto simp: Atoi_def Let_def split: if_splits)

end
