(* ===== verification/Rpc_Spec.thy ===== *)
theory Rpc_Spec
  imports Rpc Node_Safety
begin

text \<open>
  What the RPC controller guarantees: a call ends after a bounded number of attempts and a bounded
  time asleep, with the answer of the attempt that decided it; no more calls are in flight than the
  configuration allows; and the controller is one the node can rely on.
\<close>

section \<open>Retrying\<close>

lemma rpc_count_Ret:
  "rpc_count name c = Ret c' \<Longrightarrow>
   \<exists>m. counter_inc name (rpc_metrics c) = Ret m \<and> c' = c\<lparr>rpc_metrics := m\<rparr>"
  by (auto simp: rpc_count_def gbind_Ret_iff)

lemma rpc_count_ok:
  assumes "has_counter (rpc_metrics c) name"
  obtains m where "rpc_count name c = Ret (c\<lparr>rpc_metrics := m\<rparr>)"
    "\<And>x. has_counter m x \<longleftrightarrow> has_counter (rpc_metrics c) x" "gauges m = gauges (rpc_metrics c)"
proof -
  from assms obtain m where m: "counter_inc name (rpc_metrics c) = Ret m"
    by (metis counter_add_returns returns_def)
  then have "gauges m = gauges (rpc_metrics c)" by (auto simp: counter_add_Ret_iff)
  with m show ?thesis by (intro that [of m]) (auto simp: rpc_count_def counter_add_keeps)
qed

text \<open>What a call leaves alone: the semaphore, the configuration and the gauges.\<close>

definition same_tickets :: "RpcController \<Rightarrow> RpcController \<Rightarrow> bool" where
  "same_tickets c c' \<longleftrightarrow> rpc_sem c' = rpc_sem c \<and> config c' = config c \<and>
     gauges (rpc_metrics c') = gauges (rpc_metrics c) \<and>
     (\<forall>x. has_counter (rpc_metrics c') x = has_counter (rpc_metrics c) x) \<and>
     (clientState c' = None \<longleftrightarrow> clientState c = None)"

lemma same_tickets_refl [simp]: "same_tickets c c"
  by (simp add: same_tickets_def)

lemma same_tickets_trans: "same_tickets a b \<Longrightarrow> same_tickets b c \<Longrightarrow> same_tickets a c"
  by (simp add: same_tickets_def)

lemma rpc_count_same: "rpc_count name c = Ret c' \<Longrightarrow> same_tickets c c'"
  by (auto dest!: rpc_count_Ret simp: same_tickets_def counter_add_keeps counter_add_Ret_iff)

lemma retry_turn_Done:
  assumes "retry_turn state callback age attempt ex c = Ret (Done (c', x))"
  shows "clientState c \<noteq> None \<and> (\<exists>h. c' = c\<lparr>clientState := Some h\<rparr>)"
proof (cases "clientState c")
  case None
  with assms show ?thesis by (simp add: retry_turn_def)
next
  case (Some h)
  obtain h' stErr where rd: "Ready state h = (h', stErr)" by fastforce
  from assms Some rd show ?thesis
  proof (cases "stErr = None")
    case True
    with assms Some rd obtain r err where cb: "callback = Ret (r, err)"
      by (auto simp: retry_turn_def gbind_Ret_iff Let_def)
    from assms Some rd True cb show ?thesis
      by (cases err) (auto simp: retry_turn_def Let_def gbind_Ret_iff
          split: option.splits if_splits prod.splits)
  qed (auto simp: retry_turn_def)
qed

lemma retry_turn_same:
  "retry_turn state callback age attempt ex c = Ret (Done (c', x)) \<Longrightarrow> same_tickets c c'"
  "retry_turn state callback age attempt ex c = Ret (Again age' attempt' ex' c') \<Longrightarrow> same_tickets c c'"
  subgoal by (drule retry_turn_Done) (auto simp: same_tickets_def)
  subgoal
    by (erule retry_turn_Again)
      (auto simp: same_tickets_def counter_add_keeps counter_add_Ret_iff)
  done

lemma retry_loop_same:
  "retry_loop state_at callback k age attempt ex c = Ret (c', x) \<Longrightarrow> same_tickets c c'"
proof (induction state_at callback k age attempt ex c rule: retry_loop.induct)
  case (1 state_at callback k age attempt ex c)
  from "1.prems" obtain t where t: "retry_turn (state_at k) (callback k) age attempt ex c = Ret t"
    by (subst (asm) retry_loop.simps) (auto simp: gbind_Ret_iff)
  show ?case
  proof (cases t)
    case (Done r)
    with "1.prems" t show ?thesis
      by (subst (asm) retry_loop.simps) (auto intro: retry_turn_same(1))
  next
    case (Again age' attempt' ex' c1)
    with "1.prems" t
    have "retry_loop state_at callback (Suc k) age' attempt' ex' c1 = Ret (c', x)"
      by (subst (asm) retry_loop.simps) simp
    with "1.IH" [OF t Again] t Again show ?thesis
      by (auto intro: same_tickets_trans retry_turn_same(2))
  qed
qed

lemmas retry_same = retry_loop_same [of _ _ 0 0 0 False, folded retry_def]

text \<open>
  What decides a call after \<open>age\<close> milliseconds: an answer without error, an error that is not
  retried or comes too late, or a connection that is closed or still being recovered.
\<close>

definition decides :: "Response \<times> error option \<Rightarrow> nat \<Rightarrow> Response \<Rightarrow> error option \<Rightarrow> bool" where
  "decides answer age res err \<longleftrightarrow>
     err = None \<and> answer = (res, None) \<or>
     (\<exists>e. res = RNil \<and> err = Some e \<and> snd answer = Some e \<and>
        (retry_code e = None \<or> invokeTimeout < age)) \<or>
     res = RNil \<and> err \<in> {Some (Err ''grpc connection is closed''), Some (Err ''grpc connection is not ready'')}"

lemma Ready_error:
  "Ready state h = (h', Some e) \<Longrightarrow>
   Some e \<in> {Some (Err ''grpc connection is closed''), Some (Err ''grpc connection is not ready'')}"
  by (auto simp: Ready_def tryRecover_def split: if_splits)

lemma retry_turn_total:
  assumes h: "clientState c = Some h" and m: "has_counter (rpc_metrics c) metricsRPCRetries"
    and cb: "callback = Ret ans"
  shows "(\<exists>h' res err. retry_turn state callback age attempt ex c =
            Ret (Done (c\<lparr>clientState := Some h'\<rparr>, res, err)) \<and> decides ans age res err) \<or>
         (\<exists>age' a' ex' c'. retry_turn state callback age attempt ex c = Ret (Again age' a' ex' c'))"
proof -
  obtain h' stErr where rd: "Ready state h = (h', stErr)" by fastforce
  obtain r err where ans: "ans = (r, err)" by fastforce
  show ?thesis
  proof (cases stErr)
    case (Some e)
    with Ready_error [of state h h' e] h rd show ?thesis
      by (auto simp: retry_turn_def decides_def)
  next
    case None
    show ?thesis
    proof (cases err)
      case None
      with \<open>stErr = None\<close> h rd cb ans show ?thesis
        by (auto simp: retry_turn_def decides_def Let_def)
    next
      case (Some e)
      show ?thesis
      proof (cases "retry_code e = None \<or> invokeTimeout < age")
        case True
        with Some \<open>stErr = None\<close> h rd cb ans
        have "retry_turn state callback age attempt ex c = Ret (Done (c\<lparr>clientState := Some h'\<rparr>, RNil, Some e))"
          by (auto simp: retry_turn_def Let_def)
        moreover from True Some ans have "decides ans age RNil (Some e)" by (auto simp: decides_def)
        ultimately show ?thesis by blast
      next
        case False
        then obtain code where code: "retry_code e = Some code" "\<not> invokeTimeout < age" by auto
        obtain d a ex' where nd: "next_delay code attempt ex = (d, a, ex')" by (metis prod_cases3)
        obtain m' where "rpc_count metricsRPCRetries (c\<lparr>clientState := Some h'\<rparr>) =
            Ret (c\<lparr>clientState := Some h', rpc_metrics := m'\<rparr>)"
          using rpc_count_ok [of "c\<lparr>clientState := Some h'\<rparr>" metricsRPCRetries] m by auto
        with code Some \<open>stErr = None\<close> h rd cb ans nd
        have "retry_turn state callback age attempt ex c = Ret (Again (age + d) (Suc a) ex'
            (c\<lparr>clientState := Some h', rpc_metrics := m', slept := slept c + d\<rparr>))"
          by (simp add: retry_turn_def Let_def)
        then show ?thesis by blast
      qed
    qed
  qed
qed

lemma retry_loop_outcome:
  assumes "clientState c \<noteq> None" "has_counter (rpc_metrics c) metricsRPCRetries"
    and "\<And>j. callback j = Ret (answer j)"
    and "2 ^ attempt * (if ex then 10 else 100) \<le> age + (if ex then 10 else (100 :: nat))"
    and "age \<le> 6100"
  shows "\<exists>n t c' res err. retry_loop state_at callback k age attempt ex c = Ret (c', res, err) \<and>
     k \<le> n \<and> (n = k \<or> 10 * (n - k - 1) + age \<le> invokeTimeout) \<and> slept c' = slept c + t \<and> age + t \<le> 6100 \<and>
     (\<forall>j. k \<le> j \<and> j < n \<longrightarrow> (\<exists>e. snd (answer j) = Some e \<and> retry_code e \<noteq> None)) \<and>
     decides (answer n) (age + t) res err"
  using assms
proof (induction state_at callback k age attempt ex c rule: retry_loop.induct)
  case (1 state_at callback k age attempt ex c)
  note simps = retry_loop.simps [of state_at callback k age attempt ex c]
  from "1.prems"(1) obtain h where h: "clientState c = Some h" by blast
  from retry_turn_total [OF h "1.prems"(2) "1.prems"(3) [of k], of "state_at k" age attempt ex] show ?case
  proof (elim disjE exE conjE)
    fix h' res err
    assume "retry_turn (state_at k) (callback k) age attempt ex c =
        Ret (Done (c\<lparr>clientState := Some h'\<rparr>, res, err))" "decides (answer k) age res err"
    with simps "1.prems"(5) show ?thesis
      by (intro exI [of _ k] exI [of _ 0] exI [of _ "c\<lparr>clientState := Some h'\<rparr>"]) auto
  next
    fix age' a' ex' c'
    assume t: "retry_turn (state_at k) (callback k) age attempt ex c = Ret (Again age' a' ex' c')"
    then obtain h0 h' r e d a m where turn: "callback k = Ret (r, Some e)" "retry_code e \<noteq> None"
      "age \<le> invokeTimeout" "age' = age + d" "10 \<le> d" "a' = Suc a" "a = (if ex' = ex then attempt else 0)"
      "d = 2 ^ a * (if ex' then 10 else 100)"
      "c' = c\<lparr>clientState := Some h', rpc_metrics := m, slept := slept c + d\<rparr>"
      by (rule retry_turn_Again)
    have same: "same_tickets c c'" by (rule retry_turn_same(2) [OF t])
    have "d \<le> age + 100"
      using "1.prems"(4) turn(7,8) by (cases ex; cases ex'; simp)
    moreover have "2 ^ a' * (if ex' then 10 else 100) \<le> age' + (if ex' then 10 else (100 :: nat))"
      using "1.prems"(4) turn(4,6,7,8) by (cases ex; cases ex'; simp)
    moreover have "clientState c' \<noteq> None" "has_counter (rpc_metrics c') metricsRPCRetries"
      using same "1.prems"(1,2) by (simp_all add: same_tickets_def)
    ultimately obtain n t c'' res err where
      *: "retry_loop state_at callback (Suc k) age' a' ex' c' = Ret (c'', res, err)"
      "Suc k \<le> n" "n = Suc k \<or> 10 * (n - Suc k - 1) + age' \<le> invokeTimeout"
      "slept c'' = slept c' + t" "age' + t \<le> 6100"
      "\<forall>j. Suc k \<le> j \<and> j < n \<longrightarrow> (\<exists>e. snd (answer j) = Some e \<and> retry_code e \<noteq> None)"
      "decides (answer n) (age' + t) res err"
      using "1.IH" [OF t refl] "1.prems"(3) turn(3,4) unfolding invokeTimeout_def by fastforce
    have "snd (answer k) = Some e" using "1.prems"(3) [of k] turn(1) by (cases "answer k") simp
    with *(6) turn(2)
    have "\<forall>j. k \<le> j \<and> j < n \<longrightarrow> (\<exists>e. snd (answer j) = Some e \<and> retry_code e \<noteq> None)"
      by (metis le_eq_less_or_eq Suc_leI)
    moreover have "10 * (n - k - 1) + age \<le> invokeTimeout"
      using *(2,3) turn(3,4,5) by auto
    moreover have "slept c'' = slept c + (d + t)" "age + (d + t) \<le> 6100"
      using *(4,5) turn(4,9) by simp_all
    moreover have "retry_loop state_at callback k age attempt ex c = Ret (c'', res, err)"
      using simps t *(1) by simp
    moreover have "decides (answer n) (age + (d + t)) res err"
      using *(7) turn(4) by (simp add: add.assoc)
    ultimately show ?thesis using *(2) Suc_leD by blast
  qed
qed

lemma retry_outcome:
  assumes "clientState c \<noteq> None" "has_counter (rpc_metrics c) metricsRPCRetries"
    and "\<forall>k. callback k = Ret (answer k)"
  shows "\<exists>n t c' res err. retry state_at callback c = Ret (c', res, err) \<and>
     n \<le> 301 \<and> slept c' = slept c + t \<and> t \<le> 6100 \<and>
     (\<forall>k<n. \<exists>e. snd (answer k) = Some e \<and> retry_code e \<noteq> None) \<and>
     decides (answer n) t res err"
proof -
  have "\<And>k. callback k = Ret (answer k)" using assms(3) by blast
  moreover have "2 ^ 0 * (if False then 10 else 100) \<le> 0 + (if False then 10 else (100 :: nat))" "(0 :: nat) \<le> 6100"
    by simp_all
  ultimately
  obtain n t c' res err where "retry_loop state_at callback 0 0 0 False c = Ret (c', res, err)"
    "n = 0 \<or> 10 * (n - 0 - 1) + 0 \<le> invokeTimeout" "slept c' = slept c + t" "0 + t \<le> 6100"
    "\<forall>j. 0 \<le> j \<and> j < n \<longrightarrow> (\<exists>e. snd (answer j) = Some e \<and> retry_code e \<noteq> None)"
    "decides (answer n) (0 + t) res err"
    using retry_loop_outcome [of c callback answer 0 False 0 state_at 0] assms(1,2) by blast
  moreover from this(2) have "n \<le> 301" by (auto simp: invokeTimeout_def)
  ultimately show ?thesis unfolding retry_def by auto
qed

text \<open>
  C15. Every RPC call ends: when the calls of the client return at all, the retry loop returns after
  at most 302 attempts and 6.1 seconds asleep. All attempts but the last one failed with a code
  that is retried, and the last one decides: its answer is returned if it has no error, otherwise
  its error, which is either not retried or came after the 3 seconds given to a call; a connection
  that is closed, or that was already being recovered, ends the call with an error of its own.
\<close>

theorem retry_ends:
  assumes "clientState c \<noteq> None" "has_counter (rpc_metrics c) metricsRPCRetries"
    and "\<forall>k. callback k = Ret (answer k)"
  shows "\<exists>n t c' res err. retry state_at callback c = Ret (c', res, err) \<and>
     n \<le> 301 \<and> slept c' = slept c + t \<and> t \<le> 6100 \<and>
     (\<forall>k<n. \<exists>e. snd (answer k) = Some e \<and> retry_code e \<noteq> None) \<and>
     decides (answer n) t res err"
  using assms by (rule retry_outcome)

text \<open>A started controller, for the witnesses.\<close>

definition demo_dialer :: "rpc_Config \<Rightarrow> grpcClientHelper option \<times> error option" where
  "demo_dialer = defaultDialer (\<lambda>_ _. None)"

definition demo_rpc :: RpcController where
  "demo_rpc = (NewController \<lparr>counters = [], gauges = []\<rparr> rpc_NewConfig)
     \<lparr>rpc_sem := Some (28, 28),
      clientState := Some \<lparr>recovering = False, backoff_resets = 0, conn_closed = False\<rparr>\<rparr>"

lemma demo_rpc_started:
  "Start demo_dialer (NewController \<lparr>counters = [], gauges = []\<rparr> rpc_NewConfig) = Ret (demo_rpc, None)"
  by (simp add: Start_def demo_dialer_def defaultDialer_def initSemaphore_def demo_rpc_def
      NewController_def rpc_NewConfig_def)

lemma NewController_counters:
  "has_counter (rpc_metrics (NewController m cfg)) x"
  if "x \<in> {metricsRPCCalls, metricsRPCRetries, metricsRPCFailures}"
  using that
  by (auto simp: NewController_def Let_def RegisterCounter_def RegisterGauge_def has_counter_def
      gomap_simps)

lemma demo_rpc_ok:
  "clientState demo_rpc \<noteq> None" "has_counter (rpc_metrics demo_rpc) metricsRPCRetries"
  "has_counter (rpc_metrics demo_rpc) metricsRPCCalls"
  "has_counter (rpc_metrics demo_rpc) metricsRPCFailures"
  using NewController_counters [of _ "\<lparr>counters = [], gauges = []\<rparr>" rpc_NewConfig]
  by (simp_all add: demo_rpc_def)

theorem retry_ends_witness:
  "\<exists>n t c' res err. retry (\<lambda>_. Conn_Ready)
       (\<lambda>k. Ret (if k < 2 then (RNil, Some (GrpcErr 14 ''down'')) else (RBool True, None))) demo_rpc =
       Ret (c', res, err) \<and> n \<le> (301 :: nat) \<and> slept c' = slept demo_rpc + t \<and> t \<le> 6100 \<and>
     decides (if n < 2 then (RNil, Some (GrpcErr 14 ''down'')) else (RBool True, None)) t res err"
  using retry_ends [OF demo_rpc_ok(1,2),
      of "\<lambda>k. Ret (if k < 2 then (RNil, Some (GrpcErr 14 ''down'')) else (RBool True, None))"
         "\<lambda>k. if k < 2 then (RNil, Some (GrpcErr 14 ''down'')) else (RBool True, None)"
         "\<lambda>_. Conn_Ready"] by blast

section \<open>Tickets\<close>

text \<open>
  Calls interleave: \<open>waiting\<close> of them have announced themselves and hold no ticket yet, \<open>running\<close>
  hold one. A running call counts and retries; the parts of calls are those of \<open>with_ticket\<close>.
\<close>

record RpcCalls =
  rpc :: RpcController
  waiting :: nat
  running :: nat

inductive rpc_step :: "RpcCalls \<Rightarrow> RpcCalls \<Rightarrow> bool" where
  announced: "begin_call (rpc s) = Ret c \<Longrightarrow> rpc_step s (s\<lparr>rpc := c, waiting := Suc (waiting s)\<rparr>)"
| admitted: "waiting s = Suc w \<Longrightarrow> take_ticket (rpc s) = Ret c
    \<Longrightarrow> rpc_step s (s\<lparr>rpc := c, waiting := w, running := Suc (running s)\<rparr>)"
| counted: "rpc_count name (rpc s) = Ret c \<Longrightarrow> rpc_step s (s\<lparr>rpc := c\<rparr>)"
| retried: "0 < running s \<Longrightarrow> retry state_at callback (rpc s) = Ret (c, x) \<Longrightarrow> rpc_step s (s\<lparr>rpc := c\<rparr>)"
| finished: "running s = Suc r \<Longrightarrow> give_ticket (rpc s) = Ret c \<Longrightarrow> rpc_step s (s\<lparr>rpc := c, running := r\<rparr>)"

definition rpc_created :: "RpcCalls \<Rightarrow> bool" where
  "rpc_created s \<longleftrightarrow> waiting s = 0 \<and> running s = 0 \<and>
     (\<exists>dialer m cfg err. Start dialer (NewController m cfg) = Ret (rpc s, err))"

definition pending_gauge :: "RpcController \<Rightarrow> 64 word option" where
  "pending_gauge c = map_option g_value (map_of (gauges (rpc_metrics c)) metricsRPCPending)"

definition tickets_ok :: "RpcCalls \<Rightarrow> bool" where
  "tickets_ok s \<longleftrightarrow>
     (\<exists>t cap. rpc_sem (rpc s) = Some (t, cap) \<and> int cap = Concurrency (config (rpc s)) \<and>
        t + running s = cap) \<and>
     pending_gauge (rpc s) = Some (of_nat (waiting s))"

lemma rpc_gauge_Ret:
  "rpc_gauge f c = Ret c' \<Longrightarrow>
   \<exists>g. map_of (gauges (rpc_metrics c)) metricsRPCPending = Some g \<and>
       rpc_sem c' = rpc_sem c \<and> config c' = config c \<and> pending_gauge c' = Some (g_value (f g))"
  by (auto simp: rpc_gauge_def with_gauge_def gbind_Ret_iff pending_gauge_def gomap_simps
      split: option.splits)

lemma tickets_ok_step: "rpc_step s s' \<Longrightarrow> tickets_ok s \<Longrightarrow> tickets_ok s'"
proof (induction rule: rpc_step.induct)
  case (announced s c)
  then show ?case
    by (auto simp: begin_call_def tickets_ok_def Gauge_Inc_def pending_gauge_def dest!: rpc_gauge_Ret)
next
  case (admitted s w c)
  then show ?case
    by (auto simp: take_ticket_def tickets_ok_def Gauge_Dec_def pending_gauge_def
        dest!: rpc_gauge_Ret split: if_splits)
next
  case (counted name s c)
  from rpc_count_same [OF counted(1)] counted(2) show ?case
    by (simp add: tickets_ok_def same_tickets_def pending_gauge_def)
next
  case (retried s state_at callback c x)
  from retry_same [OF retried(2)] retried(3) show ?case
    by (simp add: tickets_ok_def same_tickets_def pending_gauge_def)
next
  case (finished s r c)
  then show ?case
    by (auto simp: give_ticket_def tickets_ok_def pending_gauge_def split: if_splits)
qed

lemma Start_Ret:
  "Start dialer c = Ret (c', err) \<Longrightarrow> 0 \<le> Concurrency (config c) \<and>
     c' = c\<lparr>rpc_sem := Some (nat (Concurrency (config c)), nat (Concurrency (config c))),
             clientState := fst (dialer (config c))\<rparr> \<and> err = snd (dialer (config c))"
  by (cases "dialer (config c)") (auto simp: Start_def initSemaphore_def split: if_splits)

lemma tickets_ok_created: "rpc_created s \<Longrightarrow> tickets_ok s"
  by (auto simp: rpc_created_def tickets_ok_def NewController_def Let_def
      pending_gauge_def RegisterGauge_def RegisterCounter_def NewGauge_def gomap_simps
      dest!: Start_Ret)

interpretation rpc_machine: invariant_of rpc_created rpc_step tickets_ok
  by unfold_locales (fact tickets_ok_created, rule tickets_ok_step)

text \<open>
  C16. However calls interleave, at most the configured number of them is in flight, the number
  \<^verbatim>\<open>busy\<close> reports is the number in flight, the gauge of pending calls shows the calls that wait
  for a ticket, and a call that is done gives its ticket back without waiting.
\<close>

theorem rpc_concurrency:
  assumes "reachable rpc_created rpc_step s"
  shows "int (running s) \<le> Concurrency (config (rpc s)) \<and> busy (rpc s) = int (running s) \<and>
     pending_gauge (rpc s) = Some (of_nat (waiting s)) \<and>
     (0 < running s \<longrightarrow> (\<exists>c. give_ticket (rpc s) = Ret c))"
  using rpc_machine.inv_reachable [OF assms]
  by (auto simp: tickets_ok_def busy_def give_ticket_def)

theorem rpc_concurrency_witness:
  "busy demo_rpc = 0 \<and> pending_gauge demo_rpc = Some 0"
proof -
  have "rpc_created \<lparr>rpc = demo_rpc, waiting = 0, running = 0\<rparr>"
    unfolding rpc_created_def using demo_rpc_started by auto
  from rpc_concurrency [OF reach_init [of rpc_created, OF this]] show ?thesis by simp
qed

section \<open>Answers\<close>

lemma retry_answer:
  assumes "clientState c \<noteq> None" "has_counter (rpc_metrics c) metricsRPCRetries"
    and "\<forall>k. callback k = Ret (answer k)"
  obtains c' res err where "retry state_at callback c = Ret (c', res, err)" "same_tickets c c'"
    "err = None \<longrightarrow> (\<exists>k. answer k = (res, None))"
proof -
  from retry_outcome [OF assms, of state_at] obtain n t c' res err where
    r: "retry state_at callback c = Ret (c', res, err)" and "decides (answer n) t res err" by blast
  then show ?thesis using that [OF r retry_same [OF r]] by (auto simp: decides_def)
qed

definition rpc_counters :: "RpcController \<Rightarrow> bool" where
  "rpc_counters c \<longleftrightarrow>
     (\<forall>x \<in> {metricsRPCCalls, metricsRPCRetries, metricsRPCFailures}. has_counter (rpc_metrics c) x)"

lemma rpc_counters_same: "same_tickets c c' \<Longrightarrow> rpc_counters c' = rpc_counters c"
  by (simp add: rpc_counters_def same_tickets_def)

definition rpc_usable :: "RpcController \<Rightarrow> bool" where
  "rpc_usable c \<longleftrightarrow> clientState c \<noteq> None \<and>
     rpc_counters c \<and>
     (\<exists>g. map_of (gauges (rpc_metrics c)) metricsRPCPending = Some g) \<and>
     (\<exists>t cap. rpc_sem c = Some (t, cap) \<and> 0 < t \<and> t \<le> cap)"

lemma with_ticket_answer:
  assumes c: "rpc_usable c"
    and body: "\<And>c. clientState c \<noteq> None \<Longrightarrow>
      rpc_counters c \<Longrightarrow>
      \<exists>c' r. body c = Ret (c', r) \<and> same_tickets c c' \<and> P r"
  shows "\<exists>c' r. with_ticket body c = Ret (c', r) \<and> rpc_sem c' = rpc_sem c \<and> P r"
proof -
  from c obtain g t cap where g: "map_of (gauges (rpc_metrics c)) metricsRPCPending = Some g"
    and sem: "rpc_sem c = Some (t, cap)" "0 < t" "t \<le> cap" by (auto simp: rpc_usable_def)
  define gs where "gs = mput metricsRPCPending (Gauge_Inc g) (gauges (rpc_metrics c))"
  define gs' where "gs' = mput metricsRPCPending (Gauge_Dec (Gauge_Inc g)) gs"
  define c1 where "c1 = c\<lparr>rpc_metrics := rpc_metrics c\<lparr>gauges := gs\<rparr>\<rparr>"
  define c2 where "c2 = c\<lparr>rpc_metrics := rpc_metrics c\<lparr>gauges := gs'\<rparr>, rpc_sem := Some (t - 1, cap)\<rparr>"
  have 1: "begin_call c = Ret c1"
    by (simp add: begin_call_def rpc_gauge_def with_gauge_def g c1_def gs_def)
  have 2: "take_ticket c1 = Ret c2"
    using sem by (simp add: take_ticket_def rpc_gauge_def with_gauge_def c1_def c2_def gs_def gs'_def
        gomap_simps)
  have "clientState c2 \<noteq> None"
    "rpc_counters c2"
    using c by (simp_all add: rpc_usable_def rpc_counters_def c2_def has_counter_def)
  from body [OF this] obtain c3 r where 3: "body c2 = Ret (c3, r)" "same_tickets c2 c3" "P r" by blast
  have 4: "give_ticket c3 = Ret (c3\<lparr>rpc_sem := rpc_sem c\<rparr>)"
    using 3(2) sem by (simp add: give_ticket_def same_tickets_def c2_def)
  from 1 2 3 4 show ?thesis by (simp add: with_ticket_def)
qed

text \<open>An answer of the application to a call, or an error without an answer.\<close>

definition answered :: "(nat \<Rightarrow> 'o \<times> error option) \<Rightarrow> ('o \<Rightarrow> 'a result) \<Rightarrow> 'a result \<Rightarrow> bool" where
  "answered invoke parse r \<longleftrightarrow>
     fst r = None \<and> snd r \<noteq> None \<or> (\<exists>k out. invoke k = (out, None) \<and> r = parse out)"

lemma counted:
  assumes "rpc_counters c" "clientState c \<noteq> None"
    and "name \<in> {metricsRPCCalls, metricsRPCRetries, metricsRPCFailures}"
  obtains c' where "rpc_count name c = Ret c'" "same_tickets c c'" "clientState c' \<noteq> None" "rpc_counters c'"
proof -
  from assms(1,3) have "has_counter (rpc_metrics c) name" unfolding rpc_counters_def by (rule bspec)
  then obtain m where m: "rpc_count name c = Ret (c\<lparr>rpc_metrics := m\<rparr>)" by (rule rpc_count_ok)
  from rpc_count_same [OF m] assms show ?thesis
    by (intro that [OF m]) (simp_all add: same_tickets_def rpc_counters_def)
qed

lemma call_answer:
  assumes "rpc_counters c" "clientState c \<noteq> None" and op: "\<forall>k. op k = Ret (answer k)"
    and handle: "\<And>c res err. rpc_counters c \<Longrightarrow> clientState c \<noteq> None \<Longrightarrow>
      err = None \<longrightarrow> (\<exists>k. answer k = (res, None)) \<Longrightarrow>
      \<exists>c' r. handle res err c = Ret (c', r) \<and> same_tickets c c' \<and> P r"
  shows "\<exists>c' r. gbind (retry state_at op c) (\<lambda>(c, res, err). handle res err c) = Ret (c', r) \<and>
     same_tickets c c' \<and> P r"
proof -
  from assms(1) have "has_counter (rpc_metrics c) metricsRPCRetries" by (simp add: rpc_counters_def)
  from retry_answer [OF assms(2) this op, of state_at] obtain c1 res err where
    r: "retry state_at op c = Ret (c1, res, err)" "same_tickets c c1"
      "err = None \<longrightarrow> (\<exists>k. answer k = (res, None))" by blast
  from r(2) assms(1,2) have "rpc_counters c1" "clientState c1 \<noteq> None"
    by (simp_all add: same_tickets_def rpc_counters_def)
  from handle [OF this r(3)] r(1,2) show ?thesis by (auto intro: same_tickets_trans)
qed

lemma counted_call_answer:
  assumes "rpc_counters c" "clientState c \<noteq> None" and "\<forall>k. op k = Ret (answer k)"
    and "\<And>c res err. rpc_counters c \<Longrightarrow> clientState c \<noteq> None \<Longrightarrow>
      err = None \<longrightarrow> (\<exists>k. answer k = (res, None)) \<Longrightarrow>
      \<exists>c' r. handle res err c = Ret (c', r) \<and> same_tickets c c' \<and> P r"
  shows "\<exists>c' r. gbind (rpc_count metricsRPCCalls c) (\<lambda>c.
       gbind (retry state_at op c) (\<lambda>(c, res, err). handle res err c)) = Ret (c', r) \<and>
     same_tickets c c' \<and> P r"
proof -
  from counted [OF assms(1,2), of metricsRPCCalls] obtain c0 where
    c0: "rpc_count metricsRPCCalls c = Ret c0" "same_tickets c c0" "clientState c0 \<noteq> None" "rpc_counters c0"
    by blast
  from call_answer [where handle = handle and P = P, OF c0(4,3) assms(3,4), of state_at] c0(1,2)
  show ?thesis by (auto intro: same_tickets_trans)
qed

lemma failed_call:
  assumes "rpc_counters c" "clientState c \<noteq> None"
  obtains c' where "rpc_count metricsRPCFailures c = Ret c'" "same_tickets c c'"
  using counted [OF assms, of metricsRPCFailures] by blast

lemma connect_response_answer:
  assumes "rpc_counters c" "clientState c \<noteq> None"
    and ans: "err = None \<longrightarrow> (\<exists>k. (let (r, err) = rPCClient_Connect cc ctx req k in (RConnection r, err)) = (res, None))"
  shows "\<exists>c' r. connect_response res err c = Ret (c', r) \<and> same_tickets c c' \<and>
     answered (Invoke_Connect cc ctx ''/anycable.RPC/Connect'' req) ParseConnectResponse r"
proof (cases err)
  case None
  with ans obtain k out where "Invoke_Connect cc ctx ''/anycable.RPC/Connect'' req k = (out, None)"
    "res = RConnection (Some out)"
    by (auto simp: rPCClient_Connect_def split: prod.splits if_splits)
  with None show ?thesis by (auto simp: connect_response_def answered_def)
next
  case (Some e)
  with assms(1,2) show ?thesis
    by (auto elim!: failed_call simp: connect_response_def answered_def)
qed

lemma parseCommandResponse_answer:
  assumes ok: "rpc_counters c" "clientState c \<noteq> None"
    and ans: "err = None \<longrightarrow> (\<exists>k. (let (r, err) = rPCClient_Command cc ctx req k in (RCommand r, err)) = (res, None))"
  shows "\<exists>c' r. parseCommandResponse res err c = Ret (c', r) \<and> same_tickets c c' \<and>
     answered (Invoke_Command cc ctx ''/anycable.RPC/Command'' req) ParseCommandResponse r"
proof -
  from counted [OF ok, of metricsRPCCalls] obtain c1 where
    c1: "rpc_count metricsRPCCalls c = Ret c1" "same_tickets c c1" "clientState c1 \<noteq> None" "rpc_counters c1"
    by blast
  show ?thesis
  proof (cases err)
    case None
    with ans obtain k out where "Invoke_Command cc ctx ''/anycable.RPC/Command'' req k = (out, None)"
      "res = RCommand (Some out)"
      by (auto simp: rPCClient_Command_def split: prod.splits if_splits)
    with None c1 show ?thesis by (auto simp: parseCommandResponse_def answered_def)
  next
    case (Some e)
    from failed_call [OF c1(4,3)] obtain c2 where
      "rpc_count metricsRPCFailures c1 = Ret c2" "same_tickets c1 c2" by blast
    with Some c1 show ?thesis
      by (auto simp: parseCommandResponse_def answered_def intro: same_tickets_trans)
  qed
qed

lemma disconnect_response_answer:
  assumes "rpc_counters c" "clientState c \<noteq> None"
    and ans: "err = None \<longrightarrow> (\<exists>k. (let (r, err) = rPCClient_Disconnect cc ctx req k in (RDisconnect r, err)) = (res, None))"
  shows "\<exists>c' r. disconnect_response res err c = Ret (c', r) \<and> same_tickets c c' \<and>
     (r \<noteq> None \<or> (\<exists>k out. Invoke_Disconnect cc ctx ''/anycable.RPC/Disconnect'' req k = (out, None) \<and>
                   ParseDisconnectResponse out = None))"
proof (cases err)
  case None
  with ans obtain k out where out: "Invoke_Disconnect cc ctx ''/anycable.RPC/Disconnect'' req k = (out, None)"
    "res = RDisconnect (Some out)"
    by (auto simp: rPCClient_Disconnect_def split: prod.splits if_splits)
  with None assms(1,2) show ?thesis
    by (cases "ParseDisconnectResponse out") (auto elim!: failed_call simp: disconnect_response_def)
next
  case (Some e)
  with assms(1,2) show ?thesis by (auto elim!: failed_call simp: disconnect_response_def)
qed

lemma rpc_Authenticate_answer:
  assumes "rpc_usable c" and req: "NewConnectMessage e = Ret req"
  shows "\<exists>c' r. rpc_Authenticate state_at (NewRPCClient cc) sid e c = Ret (c', r) \<and>
     rpc_sem c' = rpc_sem c \<and>
     answered (Invoke_Connect cc (newContext sid) ''/anycable.RPC/Connect'' req) ParseConnectResponse r"
  unfolding rpc_Authenticate_def Let_def
  by (rule with_ticket_answer [OF assms(1)], rule counted_call_answer [rotated 3, OF connect_response_answer])
    (auto simp: req NewRPCClient_def split: prod.split)

lemma command_call_answer:
  assumes "rpc_usable c" and req: "msg = Ret req"
  shows "\<exists>c' r. command_call state_at (NewRPCClient cc) sid msg c = Ret (c', r) \<and>
     rpc_sem c' = rpc_sem c \<and>
     answered (Invoke_Command cc (newContext sid) ''/anycable.RPC/Command'' req) ParseCommandResponse r"
  unfolding command_call_def Let_def
  by (rule with_ticket_answer [OF assms(1)], rule call_answer [rotated 3, OF parseCommandResponse_answer])
    (auto simp: req NewRPCClient_def split: prod.split)

lemma rpc_Disconnect_answer:
  assumes "rpc_usable c" and req: "NewDisconnectMessage e idents chs = Ret req"
  shows "\<exists>c' r. rpc_Disconnect state_at (NewRPCClient cc) sid e idents chs c = Ret (c', r) \<and>
     rpc_sem c' = rpc_sem c \<and>
     (r \<noteq> None \<or> (\<exists>k out. Invoke_Disconnect cc (newContext sid) ''/anycable.RPC/Disconnect'' req k = (out, None) \<and>
                   ParseDisconnectResponse out = None))"
  unfolding rpc_Disconnect_def Let_def
  by (rule with_ticket_answer [OF assms(1)], rule counted_call_answer [rotated 3, OF disconnect_response_answer])
    (auto simp: req NewRPCClient_def split: prod.split)

lemma buildEnv_Some: "Headers e \<noteq> None \<Longrightarrow> \<exists>p. buildEnv e = Ret p"
  by (auto simp: buildEnv_def)

lemma messages_built:
  assumes "Headers e \<noteq> None"
  shows "\<exists>req. NewConnectMessage e = Ret req" "\<exists>req. NewCommandMessage e cmd ch idents data = Ret req"
    "\<exists>req. NewDisconnectMessage e idents chs = Ret req"
  using buildEnv_Some [OF assms]
  by (auto simp: NewConnectMessage_def NewCommandMessage_def NewDisconnectMessage_def
      buildChannelEnv_def buildDisconnectEnv_def Let_def)


definition demo_conn :: ClientConn where
  "demo_conn = \<lparr>Invoke_Connect = (\<lambda>_ _ _ _. (\<lparr>cr_Status = 1, cr_Identifiers = ''u1'', cr_Transmissions = [],
       cr_ErrorMsg = [], cr_Env = None\<rparr>, None)),
     Invoke_Command = (\<lambda>_ _ _ _. (\<lparr>co_Status = 2, co_Disconnect = False, co_StopStreams = False, co_Streams = [],
       co_Transmissions = [], co_ErrorMsg = [], co_Env = None, co_StoppedStreams = []\<rparr>, None)),
     Invoke_Disconnect = (\<lambda>_ _ _ _. (\<lparr>dresp_Status = 1, dresp_ErrorMsg = []\<rparr>, None))\<rparr>"

lemma demo_rpc_usable: "rpc_usable demo_rpc"
  using demo_rpc_ok
  by (simp add: rpc_usable_def rpc_counters_def)
    (simp add: demo_rpc_def NewController_def Let_def RegisterGauge_def RegisterCounter_def gomap_simps)


section \<open>Shutting down\<close>

text \<open>
  Shutting down does not wait for the calls in flight. When there are some and the connection
  is ready, the first look at them already ends the retry loop, since its error carries no gRPC
  code: the error is returned without sleeping at all, and the connection is closed under the calls.
\<close>

theorem shutdown_does_not_wait:
  assumes "clientState c = Some h" "0 < busy_at 0" "state_at 0 \<in> {Conn_Idle, Conn_Connecting, Conn_Ready}"
  shows "\<exists>c' h'. rpc_Shutdown state_at busy_at c = Ret (c', Some (connections_left (busy_at 0))) \<and>
     slept c' = slept c \<and> clientState c' = Some h' \<and> conn_closed h'"
  using assms
  by (auto simp: rpc_Shutdown_def retry_def retry_loop.simps [of _ _ 0] retry_turn_def Ready_def
      retry_code_def connections_left_def helper_Close_def Let_def)

theorem shutdown_does_not_wait_witness:
  "\<exists>c' h'. rpc_Shutdown (\<lambda>_. Conn_Ready) (\<lambda>k. if k = 0 then 3 else 0) demo_rpc =
      Ret (c', Some (connections_left 3)) \<and> slept c' = slept demo_rpc \<and> clientState c' = Some h' \<and> conn_closed h'"
proof -
  have "clientState demo_rpc = Some \<lparr>recovering = False, backoff_resets = 0, conn_closed = False\<rparr>"
    by (simp add: demo_rpc_def)
  from shutdown_does_not_wait [OF this, of "\<lambda>k. if k = 0 then 3 else 0" "\<lambda>_. Conn_Ready"]
  show ?thesis by simp
qed

section \<open>The controller the node relies on\<close>

text \<open>
  The controller of the node, in a given state: the results its calls return. A call that does not
  return has no result for the node to act on; it stands as an error here.
\<close>

definition result_of :: "(RpcController \<times> 'a result) go \<Rightarrow> 'a result" where
  "result_of m = (case m of Ret (_, r) \<Rightarrow> r | _ \<Rightarrow> (None, Some (Err ''no reply'')))"

definition rpc_controller :: "(nat \<Rightarrow> Connectivity) \<Rightarrow> RPCClient \<Rightarrow> RpcController \<Rightarrow> Controller" where
  "rpc_controller state_at cl c =
     \<lparr>ctl_Authenticate = (\<lambda>sid e. result_of (rpc_Authenticate state_at cl sid e c)),
      ctl_Subscribe = (\<lambda>sid e idents ch. result_of (rpc_Subscribe state_at cl sid e idents ch c)),
      ctl_Unsubscribe = (\<lambda>sid e idents ch. result_of (rpc_Unsubscribe state_at cl sid e idents ch c)),
      ctl_Perform = (\<lambda>sid e idents ch d. result_of (rpc_Perform state_at cl sid e idents ch d c)),
      ctl_Disconnect = (\<lambda>sid e idents chs. case rpc_Disconnect state_at cl sid e idents chs c of
        Ret (_, err) \<Rightarrow> err | _ \<Rightarrow> Some (Err ''no reply''))\<rparr>"

lemma connect_response_result: "connect_response res err c = Ret (c', (r, None)) \<Longrightarrow> r \<noteq> None"
  by (auto simp: connect_response_def gbind_Ret_iff dest: ParseConnectResponse_result
      split: if_splits Response.splits option.splits)

lemma parseCommandResponse_result: "parseCommandResponse res err c = Ret (c', (r, None)) \<Longrightarrow> r \<noteq> None"
  by (auto simp: parseCommandResponse_def gbind_Ret_iff dest: ParseCommandResponse_result
      split: if_splits Response.splits option.splits)

lemma rpc_Authenticate_result:
  "result_of (rpc_Authenticate state_at cl sid e c) = (r, None) \<Longrightarrow> r \<noteq> None"
  by (auto simp: result_of_def rpc_Authenticate_def with_ticket_def Let_def gbind_Ret_iff
      dest: connect_response_result split: go.splits)

lemma command_call_result:
  "result_of (command_call state_at cl sid msg c) = (r, None) \<Longrightarrow> r \<noteq> None"
  by (auto simp: result_of_def command_call_def with_ticket_def Let_def gbind_Ret_iff
      dest: parseCommandResponse_result split: go.splits)

interpretation rpc_ctl: controller "rpc_controller state_at cl c" for state_at cl c
  by unfold_locales
    (auto simp: rpc_controller_def rpc_Subscribe_def rpc_Unsubscribe_def rpc_Perform_def
      dest: rpc_Authenticate_result command_call_result)

text \<open>
  A node driven by the RPC controller never panics: in every state such a node can reach, and
  whatever state the controller is in, whatever its connection does and whatever the application
  answers, neither the authentication of a session nor a message of a client panics. Executors other
  than the node keep their contract.
\<close>

theorem rpc_node_never_panics:
  assumes "reachable node_started node_step n" "\<forall>k. command_executor (custom k)"
  shows "node_do (Authenticated (rpc_controller state_at cl c) s) n \<noteq> Panic p \<and>
     node_do (ReadFrom custom (rpc_controller state_at cl c) s input) n \<noteq> Panic p"
  using node_do_safe [OF node_machine.inv_reachable [OF assms(1)],
      of "Authenticated (rpc_controller state_at cl c) s"]
    node_do_safe [OF node_machine.inv_reachable [OF assms(1)],
      of "ReadFrom custom (rpc_controller state_at cl c) s input"]
  using assms(2) by (auto simp: rpc_ctl.controller_axioms)

theorem rpc_node_never_panics_witness:
  "\<exists>n. reachable node_started node_step n \<and>
     node_do (Authenticated (rpc_controller (\<lambda>_. Conn_Ready) (NewRPCClient demo_conn) demo_rpc) 0) n \<noteq> Panic nil_deref"
proof -
  obtain n where "node_started n" using small_node_started by blast
  then have n: "reachable node_started node_step n" by (rule reach_init)
  have "\<forall>k. command_executor (node_executors k)"
    by (simp add: node_executors_def silent.node_executor.command_executor_axioms)
  with n rpc_node_never_panics [OF n] show ?thesis by blast
qed

end
