(* ===== verification/Gobench.thy ===== *)
theory Gobench
  imports Json_Roundtrip Metrics
begin

text \<open>
  The controller of the benchmark server \<^verbatim>\<open>gobench-cable\<close>, from \<^verbatim>\<open>gobench/gobench.go\<close>: it answers
  every call itself. Its state is the registry of metrics; the random id is a parameter, as is
  \<open>f64\<close> of theory \<open>Go_Json\<close>.
\<close>

section \<open>The calls\<close>

definition metricsCalls :: string where
  "metricsCalls = ''gochannels_call_total''"

definition bench_identifier :: string where
  \<open>bench_identifier = ''{"channel":"BenchmarkChannel"}''\<close>

definition welcomeMessage :: string where
  \<open>welcomeMessage = ''{"type":"welcome"}''\<close>

definition confirmationMessage :: string where
  \<open>confirmationMessage = ''{"type":"confirm_subscription","identifier":'' @ quote bench_identifier @ ''}''\<close>

definition gobench_NewController :: "Metrics \<Rightarrow> Metrics" where
  "gobench_NewController m = RegisterCounter metricsCalls ''The total number of Go channels calls'' m"

definition gobench_Start :: "error option" where
  "gobench_Start = None"

definition gobench_Shutdown :: "error option" where
  "gobench_Shutdown = None"

definition gobench_Authenticate ::
  "(error + string) \<Rightarrow> Metrics \<Rightarrow> (Metrics \<times> ConnectResult result) go" where
  "gobench_Authenticate nanoid m = gbind (counter_inc metricsCalls m) (\<lambda>m. Ret (m, case nanoid of
     Inl err \<Rightarrow> (None, Some err)
   | Inr ident \<Rightarrow>
       (Some \<lparr>conn_Identifier = object_text [(''id'', quote ident)], conn_Transmissions = [welcomeMessage],
          conn_Broadcasts = [], conn_CState = None, conn_IState = None, conn_Status = 0\<rparr>, None)))"

definition command_result ::
  "bool \<Rightarrow> string list \<Rightarrow> string list \<Rightarrow> StreamMessage list \<Rightarrow> CommandResult" where
  "command_result stop streams transmissions broadcasts =
     \<lparr>StopAllStreams = stop, cmd_Disconnect = False, Streams = streams, StoppedStreams = [],
      cmd_Transmissions = transmissions, cmd_Broadcasts = broadcasts, cmd_CState = None,
      cmd_IState = None, cmd_Status = 0\<rparr>"

definition gobench_Subscribe :: "Metrics \<Rightarrow> (Metrics \<times> CommandResult result) go" where
  "gobench_Subscribe m = gbind (counter_inc metricsCalls m) (\<lambda>m.
     Ret (m, Some (command_result False [''all''] [confirmationMessage] []), None))"

definition gobench_Unsubscribe :: "Metrics \<Rightarrow> (Metrics \<times> CommandResult result) go" where
  "gobench_Unsubscribe m = gbind (counter_inc metricsCalls m) (\<lambda>m.
     Ret (m, Some (command_result True [] [] []), None))"

text \<open>
  \<^verbatim>\<open>json.Unmarshal\<close> into a \<^verbatim>\<open>map[string]interface{}\<close>: null leaves the map nil, which reads as
  empty.
\<close>

definition decode_map :: "(string \<Rightarrow> string option) \<Rightarrow> string \<Rightarrow> error + (string, jvalue) gomap" where
  "decode_map f64 data = (case json_parse data of
     None \<Rightarrow> Inl json_syntax_error
   | Some JNull \<Rightarrow> Inr []
   | Some (JObj ms) \<Rightarrow>
       (case any_of f64 (JObj ms) of
          JObj kvs \<Rightarrow> if any_ok f64 (JObj ms) then Inr kvs else Inl json_type_error
        | _ \<Rightarrow> Inl json_type_error)
   | Some _ \<Rightarrow> Inl json_type_error)"

definition not_a_string :: string where
  "not_a_string = ''interface conversion: interface {} is not string''"

text \<open>The keys of a map are written in sorted order: \<^verbatim>\<open>identifier\<close> before \<^verbatim>\<open>message\<close>.\<close>

definition bench_response :: "(string, jvalue) gomap \<Rightarrow> string" where
  "bench_response payload =
     jtext (JObj [(''message'', JObj payload), (''identifier'', JStr bench_identifier)])"

definition perform_action :: "(string, jvalue) gomap \<Rightarrow> CommandResult result go" where
  "perform_action payload = (case map_of payload ''action'' of
     Some (JStr action) \<Rightarrow>
       Ret (Some
         (if action = ''echo'' then command_result False [] [bench_response payload] []
          else if action = ''broadcast'' then
            (let broadcast = \<lparr>sm_Stream = ''all'', sm_Data = jtext (JObj payload)\<rparr>;
                 payload = mput ''action'' (JStr ''broadcastResult'') payload
             in command_result False [] [bench_response payload] [broadcast])
          else command_result False [] [] []), None)
   | _ \<Rightarrow> Panic not_a_string)"

definition gobench_Perform ::
  "(string \<Rightarrow> string option) \<Rightarrow> string \<Rightarrow> Metrics \<Rightarrow> (Metrics \<times> CommandResult result) go" where
  "gobench_Perform f64 data m = gbind (counter_inc metricsCalls m) (\<lambda>m.
     case decode_map f64 data of
       Inl err \<Rightarrow> Ret (m, None, Some err)
     | Inr payload \<Rightarrow> gbind (perform_action payload) (\<lambda>r. Ret (m, r)))"

definition gobench_Disconnect :: "Metrics \<Rightarrow> (Metrics \<times> error option) go" where
  "gobench_Disconnect m = gbind (counter_inc metricsCalls m) (\<lambda>m. Ret (m, None))"

section \<open>What a client can make it do\<close>

lemma gobench_counted: "\<exists>m'. counter_inc metricsCalls (gobench_NewController m) = Ret m'"
  using counter_add_returns [of metricsCalls 1 "gobench_NewController m"]
  by (auto simp: gobench_NewController_def RegisterCounter_def has_counter_def gomap_simps returns_def)

lemma decode_map_readable:
  assumes "\<forall>t t'. f64 t = Some t' \<longrightarrow> number_literal t'" "decode_map f64 data = Inr payload"
  shows "readable 0 (JObj payload)"
proof -
  from assms(2) consider "payload = []"
    | ms where "json_parse data = Some (JObj ms)" "any_of f64 (JObj ms) = JObj payload"
    by (auto simp: decode_map_def split: option.splits jvalue.splits if_splits)
  then show ?thesis
  proof cases
    case 2
    with any_of_readable [OF assms(1) json_parse_readable [OF 2(1)]] show ?thesis by simp
  qed (simp add: readable_JObj)
qed

lemma bench_response_parses:
  assumes "readable 1 (JObj payload)"
  shows "json_parse (bench_response payload) =
     Some (JObj [(''identifier'', JStr bench_identifier), (''message'', in_order (JObj payload))])"
proof -
  have "readable 0 (JObj [(''message'', JObj payload), (''identifier'', JStr bench_identifier)])"
    using assms by (simp add: readable_JObj [of 0] readable_JStr bench_identifier_def del: in_order.simps)
  from json_parse_jtext [OF this] have "json_parse (bench_response payload) =
      Some (in_order (JObj [(''message'', JObj payload), (''identifier'', JStr bench_identifier)]))"
    by (simp only: bench_response_def)
  moreover have "sort_key fst [(''message'', a), (''identifier'', b)] = [(''identifier'', b), (''message'', a)]"
    for a b :: jvalue by (simp add: less_eq_list_code less_eq_char_def)
  ultimately show ?thesis by (simp only: in_order.simps list.map map_prod_simp id_apply)
qed

lemma readable_mput:
  assumes "readable d (JObj payload)" "valid_utf8 k" "readable (Suc d) v"
  shows "readable d (JObj (mput k v payload))"
  using assms set_mput [of k v payload] by (auto simp: readable_JObj)

text \<open>
  What a client's message makes the benchmark controller do. An \<^verbatim>\<open>echo\<close> is answered with one
  transmission, a JSON object with the channel's identifier and the payload; a \<^verbatim>\<open>broadcast\<close> is
  published to the stream \<^verbatim>\<open>all\<close> as the JSON text of the payload, and answered with the payload
  whose action is now \<^verbatim>\<open>broadcastResult\<close>; other actions do nothing. A message without an action,
  or with one that is not a string, panics, and with it the whole server, because the type
  assertion on it is not checked.
\<close>

theorem gobench_perform:
  assumes "\<forall>t t'. f64 t = Some t' \<longrightarrow> number_literal t'"
    and "decode_map f64 data = Inr payload" "jdepth (JObj payload) < 10000"
  shows "case map_of payload ''action'' of
     Some (JStr action) \<Rightarrow>
       (\<exists>m' r. gobench_Perform f64 data (gobench_NewController m) = Ret (m', Some r, None) \<and>
         (if action = ''echo'' then
            \<exists>t. cmd_Transmissions r = [t] \<and> cmd_Broadcasts r = [] \<and> json_parse t =
              Some (JObj [(''identifier'', JStr bench_identifier), (''message'', in_order (JObj payload))])
          else if action = ''broadcast'' then
            \<exists>t d. cmd_Transmissions r = [t] \<and> cmd_Broadcasts r = [\<lparr>sm_Stream = ''all'', sm_Data = d\<rparr>] \<and>
              json_parse d = Some (in_order (JObj payload)) \<and> json_parse t =
                Some (JObj [(''identifier'', JStr bench_identifier),
                  (''message'', in_order (JObj (mput ''action'' (JStr ''broadcastResult'') payload)))])
          else cmd_Transmissions r = [] \<and> cmd_Broadcasts r = []))
   | _ \<Rightarrow> gobench_Perform f64 data (gobench_NewController m) = Panic not_a_string"
proof -
  obtain m' where m': "counter_inc metricsCalls (gobench_NewController m) = Ret m'" using gobench_counted by blast
  have r0: "readable 0 (JObj payload)" using assms(1,2) by (rule decode_map_readable)
  then have r1: "readable 1 (JObj payload)" using assms(3) by (simp add: readable_def)
  have r2: "readable 1 (JObj (mput ''action'' (JStr ''broadcastResult'') payload))"
    using r1 by (intro readable_mput) (simp_all add: readable_JStr)
  have perform: "gobench_Perform f64 data (gobench_NewController m) =
      gbind (perform_action payload) (\<lambda>r. Ret (m', r))"
    using m' assms(2) by (simp add: gobench_Perform_def)
  show ?thesis
  proof (cases "\<exists>action. map_of payload ''action'' = Some (JStr action)")
    case True
    then obtain action where a: "map_of payload ''action'' = Some (JStr action)" by blast
    show ?thesis
      using a bench_response_parses [OF r1] bench_response_parses [OF r2] json_parse_jtext [OF r0]
      by (simp add: perform perform_action_def command_result_def Let_def del: in_order.simps jtext.simps)
  next
    case False
    then show ?thesis by (auto simp: perform perform_action_def split: option.split jvalue.split)
  qed
qed

theorem gobench_perform_witness:
  "gobench_Perform (\<lambda>_. None) ''{}'' (gobench_NewController \<lparr>counters = [], gauges = []\<rparr>) = Panic not_a_string"
proof -
  have "decode_map (\<lambda>_. None) ''{}'' = Inr []"
    by (simp add: decode_map_def json_parse_def skip_ws_def is_ws_def eval_nat_numeral)
  from gobench_perform [OF _ this, of "\<lparr>counters = [], gauges = []\<rparr>"] show ?thesis by simp
qed

end
