(* ===== verification/Logging.thy ===== *)
theory Logging
  imports Go_Json
begin

text \<open>
  The setup of the logger and the text of a log line, from \<^verbatim>\<open>utils/logging.go\<close> and
  \<^verbatim>\<open>utils/log_handler.go\<close>, and the open file limit of \<^verbatim>\<open>utils/os_limits.go\<close>. The parser of level
  names, the terminal check, the JSON handler and the format of the time stamp belong to libraries
  and are parameters or results of parameters; the values of the fields are given as text.
\<close>

datatype LogLevel = DebugLevel | InfoLevel | WarnLevel | ErrorLevel | FatalLevel

fun level_Colors :: "LogLevel \<Rightarrow> string" where
  "level_Colors DebugLevel = ''37''"
| "level_Colors InfoLevel = ''34''"
| "level_Colors WarnLevel = ''33''"
| "level_Colors ErrorLevel = ''31''"
| "level_Colors FatalLevel = ''31''"

fun level_Strings :: "LogLevel \<Rightarrow> string" where
  "level_Strings DebugLevel = ''DEBUG''"
| "level_Strings InfoLevel = ''INFO''"
| "level_Strings WarnLevel = ''WARN''"
| "level_Strings ErrorLevel = ''ERROR''"
| "level_Strings FatalLevel = ''FATAL''"

fun level_Chars :: "LogLevel \<Rightarrow> string" where
  "level_Chars DebugLevel = ''D''"
| "level_Chars InfoLevel = ''I''"
| "level_Chars WarnLevel = ''W''"
| "level_Chars ErrorLevel = ''E''"
| "level_Chars FatalLevel = ''F''"

record LogHandler =
  tty :: bool

datatype Handler = TextHandler LogHandler | JSONHandler

text \<open>Widths in a format count runes; a byte that is not valid UTF-8 counts as one.\<close>

function rune_count :: "string \<Rightarrow> nat" where
  "rune_count [] = 0"
| "rune_count (c # r) = Suc (rune_count (drop ((if byte c < 128 then 1 else max 1 (utf8_size (c # r))) - 1) r))"
  by pat_completeness auto
termination
  by (relation "measure length") auto

definition pad_left :: "nat \<Rightarrow> string \<Rightarrow> string" where
  "pad_left w s = replicate (w - rune_count s) (CHR '' '') @ s"

definition pad_right :: "nat \<Rightarrow> string \<Rightarrow> string" where
  "pad_right w s = s @ replicate (w - rune_count s) (CHR '' '')"

definition colored :: "string \<Rightarrow> string \<Rightarrow> string" where
  "colored color s = CHR 0x1B # ''['' @ color @ ''m'' @ s @ CHR 0x1B # ''[0m''"

text \<open>A log entry: its level, its message and its fields in the order of their names.\<close>

record LogEntry =
  e_Level :: LogLevel
  e_Message :: string
  e_Fields :: "(string \<times> string) list"

definition HandleLog :: "LogHandler \<Rightarrow> string \<Rightarrow> LogEntry \<Rightarrow> string" where
  "HandleLog h ts e =
     (if tty h then
        (let color = level_Colors (e_Level e) in
         colored color (pad_left 6 (level_Strings (e_Level e))) @ '' '' @ ts @
         concat (map (\<lambda>(name, v). '' '' @ colored color name @ ''='' @ v) (e_Fields e)) @
         '' '' @ colored color (pad_right 25 (e_Message e)) @ [CHR 0x0A])
      else
        level_Chars (e_Level e) @ '' '' @ ts @
        concat (map (\<lambda>(name, v). '' '' @ name @ ''='' @ v) (e_Fields e)) @
        '' '' @ pad_right 25 (e_Message e) @ [CHR 0x0A])"

text \<open>The logger that is set up: its level and its handler.\<close>

record Logger =
  log_level :: "LogLevel option"
  log_handler :: "Handler option"

definition unknown_level :: "string \<Rightarrow> error" where
  "unknown_level level = Err (''Unknown log level: '' @ level @ ''.'' @ [CHR 0x0A] @
     ''Available levels are: debug, info, warn, error, fatal'')"

definition unknown_format :: "string \<Rightarrow> error" where
  "unknown_format format = Err (''Unknown log format: '' @ format @ ''.'' @ [CHR 0x0A] @
     ''Avaialable formats are: text, json'')"

definition InitLogger ::
  "(string \<Rightarrow> LogLevel option) \<Rightarrow> bool \<Rightarrow> string \<Rightarrow> string \<Rightarrow> Logger \<Rightarrow> Logger \<times> error option" where
  "InitLogger parse_level isTTY format level l = (case parse_level level of
     None \<Rightarrow> (l, Some (unknown_level level))
   | Some lv \<Rightarrow>
       (let l = l\<lparr>log_level := Some lv\<rparr> in
        if format = ''text'' then (l\<lparr>log_handler := Some (TextHandler \<lparr>tty = isTTY\<rparr>)\<rparr>, None)
        else if format = ''json'' then (l\<lparr>log_handler := Some JSONHandler\<rparr>, None)
        else (l, Some (unknown_format format))))"

definition OpenFileLimit :: "string option \<Rightarrow> string" where
  "OpenFileLimit cur = (case cur of None \<Rightarrow> ''unknown'' | Some n \<Rightarrow> n)"

lemma InitLogger_ok:
  "snd (InitLogger parse_level isTTY format level l) = None \<longleftrightarrow>
     parse_level level \<noteq> None \<and> format \<in> {''text'', ''json''}"
  by (auto simp: InitLogger_def Let_def split: option.split)

end
