(* ===== verification/Commands.thy ===== *)
theory Commands
  imports Broadcast
begin

text \<open>
  The commands of a client: what \<^verbatim>\<open>Authenticate\<close>, \<^verbatim>\<open>Subscribe\<close>, \<^verbatim>\<open>Unsubscribe\<close> and \<^verbatim>\<open>Perform\<close> do
  on every branch to the session, the hub and the client's connection, and how they interleave with
  the hub's loop. The relation \<open>keeps\<close> says what applying a reply of the controller leaves alone.
\<close>

section \<open>What a reply leaves alone\<close>

definition keeps_session :: "Session \<Rightarrow> Session \<Rightarrow> bool" where
  "keeps_session x y \<longleftrightarrow> UID y = UID x \<and> Identifiers y = Identifiers x \<and>
     subscriptions y = subscriptions x \<and> encoder y = encoder x"

definition keeps :: "sref set \<Rightarrow> Node \<Rightarrow> Node \<Rightarrow> bool" where
  "keeps S n n' \<longleftrightarrow> (\<forall>t. keeps_session (heap n t) (heap n' t)) \<and> next_session n' = next_session n \<and>
     sessions (hub n') = sessions (hub n) \<and> identifiers (hub n') = identifiers (hub n) \<and>
     subscribe_ch (hub n') = subscribe_ch (hub n) \<and> hub_running (hub n') = hub_running (hub n) \<and>
     (\<exists>rs. register_ch (hub n') = register_ch (hub n) @ rs \<and> (\<forall>r \<in> set rs. hr_session r \<in> S))"

lemma keeps_refl: "reflp (keeps S)"
  by (auto intro!: reflpI simp: keeps_def keeps_session_def)

lemma keeps_trans: "transp (keeps S)"
proof (rule transpI)
  fix x y z
  assume "keeps S x y" "keeps S y z"
  moreover then obtain as bs where "register_ch (hub z) = register_ch (hub x) @ as @ bs"
    and "\<forall>r \<in> set (as @ bs). hr_session r \<in> S"
    unfolding keeps_def by (metis Un_iff append_assoc set_append)
  ultimately show "keeps S x z" unfolding keeps_def keeps_session_def by metis
qed

lemma touches_keeps: "touches S n n' \<Longrightarrow> keeps S n n'"
  by (auto simp: touches_def keeps_def same_session_def keeps_session_def hub_requests_only_def)

lemma moves_keeps: "moves (touches S) n m \<Longrightarrow> moves (keeps S) n m"
  by (auto simp: moves_def intro: touches_keeps)

lemmas keeps_gbind = moves_gbind [OF keeps_trans]

lemmas keeps_gfor = moves_gfor [OF keeps_refl keeps_trans]

lemma keeps_SetEnv: "keeps S n (SetEnv e s n)"
  by (auto simp: keeps_def SetEnv_def keeps_session_def on_session_def)

lemma keeps_hub:
  "sessions h = sessions (hub n) \<Longrightarrow> identifiers h = identifiers (hub n) \<Longrightarrow>
   subscribe_ch h = subscribe_ch (hub n) \<Longrightarrow>
   hub_running h = hub_running (hub n) \<Longrightarrow> register_ch h = register_ch (hub n) \<Longrightarrow> keeps S n (n\<lparr>hub := h\<rparr>)"
  by (auto simp: keeps_def keeps_session_def)

lemma Broadcast_keeps: "moves (keeps S) n (Broadcast msg n)"
  unfolding Broadcast_def
  by (rule keeps_gbind [OF moves_keeps [OF add_counter_touches]])
    (auto simp: moves_def BroadcastMessage_def go_simps intro!: keeps_hub)

lemma transmit_keeps: "moves (keeps {s}) n (transmit s ts n)"
  unfolding transmit_def by (rule keeps_gfor) (rule moves_keeps [OF SendJSONTransmission_touches])

lemma merge_keeps:
  "moves (keeps S) n (merge_connection_state s cs n)"
  "moves (keeps S) n (merge_channel_state s ident st n)"
  using reflpD [OF keeps_refl, of S n]
  by (auto simp: merge_connection_state_def merge_channel_state_def moves_def go_simps keeps_SetEnv
      split: option.splits)

lemma handleCallReply_keeps: "moves (keeps {s}) n (handleCallReply s reply n)"
  unfolding handleCallReply_def
  by (intro keeps_gbind merge_keeps keeps_gfor Broadcast_keeps transmit_keeps)

lemma subscribeSession_plumbing:
  "same_plumbing h (subscribeSession sid stream ident h)"
  using same_plumbing_hub_op [of h "OpSubscribe sid stream ident"] by simp

lemma start_streams_keeps: "keeps S n (start_streams s ident reply n)"
  unfolding start_streams_def
proof (induction "Streams reply" arbitrary: reply n)
  case Nil
  then show ?case using reflpD [OF keeps_refl] by simp
next
  case (Cons st sts)
  let ?n = "n\<lparr>hub := subscribeSession (UID (heap n s)) st ident (hub n)\<rparr>"
  have "keeps S n ?n"
    using subscribeSession_plumbing [of "hub n"] by (intro keeps_hub) (simp_all add: same_plumbing_def)
  moreover have "keeps S ?n (fold (\<lambda>stream n. n\<lparr>hub := subscribeSession (UID (heap n s)) stream ident (hub n)\<rparr>) sts ?n)"
    using Cons.hyps(1) [of "reply\<lparr>Streams := sts\<rparr>" ?n] by simp
  ultimately have "keeps S n (fold (\<lambda>stream n. n\<lparr>hub := subscribeSession (UID (heap n s)) stream ident (hub n)\<rparr>) sts ?n)"
    by (rule transpD [OF keeps_trans])
  then show ?case using Cons.hyps(2) [symmetric] by simp
qed

text \<open>Applying a reply after its streams were stopped.\<close>

definition rest_of_reply :: "sref \<Rightarrow> Message \<Rightarrow> CommandResult \<Rightarrow> Node \<Rightarrow> Node go" where
  "rest_of_reply s msg reply n =
     gbind (merge_channel_state s (Identifier msg) (cmd_IState reply)
              (start_streams s (Identifier msg) reply n)) (\<lambda>n.
     gbind (handleCallReply s (CommandResult_ToCallResult reply) n) (\<lambda>n.
     if cmd_Disconnect reply then Disconnect ''Command Failed'' CloseAbnormalClosure s n
     else Ret n))"

lemma handleCommandReply_rest:
  "handleCommandReply s msg reply n =
     gbind (stop_streams s (Identifier msg) reply n) (rest_of_reply s msg reply)"
  by (simp add: handleCommandReply_def rest_of_reply_def [abs_def])

lemma rest_of_reply_keeps: "moves (keeps {s}) n (rest_of_reply s msg reply n)"
proof -
  let ?n = "start_streams s (Identifier msg) reply n"
  have "moves (keeps {s}) ?n (gbind (merge_channel_state s (Identifier msg) (cmd_IState reply) ?n) (\<lambda>n.
     gbind (handleCallReply s (CommandResult_ToCallResult reply) n) (\<lambda>n.
     if cmd_Disconnect reply then Disconnect ''Command Failed'' CloseAbnormalClosure s n
     else Ret n)))"
    by (intro keeps_gbind merge_keeps handleCallReply_keeps moves_if moves_keeps [OF Disconnect_touches])
      (simp add: reflpD [OF keeps_refl])
  with start_streams_keeps [of "{s}" n s "Identifier msg" reply] show ?thesis
    unfolding rest_of_reply_def by (auto simp: moves_def dest: transpD [OF keeps_trans])
qed

section \<open>Subscriptions of a session\<close>

lemma stop_streams_session:
  "stop_streams s ident reply n = Ret n' \<Longrightarrow> heap n' = heap n \<and> sessions (hub n') = sessions (hub n)"
proof (cases "StopAllStreams reply")
  case False
  have "gfor sts (\<lambda>stream n. gbind (RemoveSubscription (UID (heap n s)) ident stream (hub n))
      (\<lambda>h. Ret (n\<lparr>hub := h\<rparr>))) n = Ret n' \<Longrightarrow> heap n' = heap n \<and> sessions (hub n') = sessions (hub n)" for sts
    by (induction sts arbitrary: n) (auto simp: go_simps RemoveSubscription_def send_subscription_def)
  moreover assume "stop_streams s ident reply n = Ret n'"
  ultimately show ?thesis using False by (simp add: stop_streams_def)
qed (auto simp: stop_streams_def go_simps RemoveAllSubscriptions_def send_subscription_def)

lemma with_reply_subscriptions:
  assumes "with_reply s msg r n = Ret (n', r')"
  shows "r' = r \<and> (\<forall>t. subscriptions (heap n' t) = subscriptions (heap n t))"
proof (cases "fst r")
  case (Some res)
  with assms obtain n1 where n1: "stop_streams s (Identifier msg) res n = Ret n1"
    and n2: "rest_of_reply s msg res n1 = Ret n'" and "r' = r"
    by (auto simp: with_reply_def handleCommandReply_rest go_simps)
  with stop_streams_session [OF n1] movesD [OF rest_of_reply_keeps n2] show ?thesis
    by (simp add: keeps_def keeps_session_def)
qed (use assms in \<open>simp add: with_reply_def\<close>)

text \<open>
  C17. What \<^verbatim>\<open>Subscribe\<close> does to the session's subscriptions. A channel the session is already
  subscribed to is refused without asking the controller and nothing changes. Otherwise the
  controller's answer is returned, and the channel is recorded exactly when the answer has no error;
  no other subscription changes.
\<close>

theorem Subscribe_records:
  assumes "Subscribe ctl s msg n = Ret (n', (res, err))"
  shows "if mhas (subscriptions (heap n s)) (Identifier msg)
    then n' = n \<and> res = None \<and> err = Some (Err (''Already subscribed to '' @ Identifier msg))
    else (res, err) = ctl_Subscribe ctl (UID (heap n s)) (env (heap n s)) (Identifiers (heap n s)) (Identifier msg) \<and>
      (\<forall>k. mhas (subscriptions (heap n' s)) k \<longleftrightarrow>
         mhas (subscriptions (heap n s)) k \<or> err = None \<and> k = Identifier msg)"
proof (cases "mhas (subscriptions (heap n s)) (Identifier msg)")
  case False
  let ?r = "ctl_Subscribe ctl (UID (heap n s)) (env (heap n s)) (Identifiers (heap n s)) (Identifier msg)"
  let ?n = "if snd ?r = None
    then on_session s (\<lambda>x. x\<lparr>subscriptions := mput (Identifier msg) True (subscriptions x)\<rparr>) n else n"
  from assms False have w: "with_reply s msg ?r ?n = Ret (n', (res, err))"
    by (simp add: Subscribe_def Let_def)
  from with_reply_subscriptions [OF w] have r: "?r = (res, err)" by simp
  from with_reply_subscriptions [OF w] False show ?thesis by (auto simp: r gomap_simps)
qed (use assms in \<open>simp add: Subscribe_def Let_def\<close>)

definition chat_message :: "string \<Rightarrow> Message" where
  "chat_message cmd = \<lparr>Command = cmd, Identifier = ''chat'', Data = JNull\<rparr>"

lemma silent_Subscribe:
  "\<exists>n' r. Subscribe silent_controller 0 (chat_message ''subscribe'') small_node = Ret (n', (Some r, None))"
  by (simp add: Subscribe_def small_node_def small_session_def silent_controller_def Let_def mhas_def
      with_reply_def handleCommandReply_def stop_streams_def start_streams_def merge_channel_state_def
      handleCallReply_def merge_connection_state_def CommandResult_ToCallResult_def transmit_def)

theorem Subscribe_records_witness:
  "\<exists>n' r. Subscribe silent_controller 0 (chat_message ''subscribe'') small_node = Ret (n', r) \<and>
     mhas (subscriptions (heap n' 0)) ''chat''"
proof -
  obtain n' r where r: "Subscribe silent_controller 0 (chat_message ''subscribe'') small_node = Ret (n', (Some r, None))"
    using silent_Subscribe by blast
  have "\<not> mhas (subscriptions (heap small_node 0)) ''chat''"
    by (simp add: small_node_def small_session_def mhas_def)
  with Subscribe_records [OF r] r show ?thesis by (auto simp: chat_message_def)
qed

text \<open>
  A subscription the application rejects is recorded as one. When the controller answers with
  status \<^verbatim>\<open>FAILURE\<close> and no error, the session counts as subscribed to the channel afterwards: a new
  attempt to subscribe is refused as a duplicate.
\<close>

theorem rejected_subscription_recorded:
  assumes "\<not> mhas (subscriptions (heap n s)) (Identifier msg)"
    and "ctl_Subscribe ctl (UID (heap n s)) (env (heap n s)) (Identifiers (heap n s)) (Identifier msg) = (Some res, None)"
    and "cmd_Status res = FAILURE"
    and "Subscribe ctl s msg n = Ret (n', r)"
  shows "mhas (subscriptions (heap n' s)) (Identifier msg) \<and>
    Subscribe ctl' s msg n' = Ret (n', (None, Some (Err (''Already subscribed to '' @ Identifier msg))))"
proof -
  from assms(1,2,4) have w: "with_reply s msg (Some res, None)
      (on_session s (\<lambda>x. x\<lparr>subscriptions := mput (Identifier msg) True (subscriptions x)\<rparr>) n) = Ret (n', r)"
    by (simp add: Subscribe_def Let_def)
  have "r = (Some res, None) \<and> mhas (subscriptions (heap n' s)) (Identifier msg)"
    using with_reply_subscriptions [of s msg "(Some res, None)" _ n' r, OF w] by (simp add: gomap_simps)
  then show ?thesis by (simp add: Subscribe_def Let_def)
qed

definition rejection :: CommandResult where
  "rejection = \<lparr>StopAllStreams = False, cmd_Disconnect = False, Streams = [], StoppedStreams = [],
     cmd_Transmissions = [], cmd_Broadcasts = [], cmd_CState = None, cmd_IState = None,
     cmd_Status = FAILURE\<rparr>"

definition rejecting_controller :: Controller where
  "rejecting_controller = silent_controller\<lparr>ctl_Subscribe := (\<lambda>_ _ _ _. (Some rejection, None))\<rparr>"

theorem rejected_subscription_recorded_witness:
  "\<exists>n' r. Subscribe rejecting_controller 0 (chat_message ''subscribe'') small_node = Ret (n', r) \<and>
     mhas (subscriptions (heap n' 0)) ''chat''"
proof -
  obtain n' r where r: "Subscribe rejecting_controller 0 (chat_message ''subscribe'') small_node = Ret (n', r)"
    by (simp add: Subscribe_def small_node_def small_session_def rejecting_controller_def rejection_def Let_def mhas_def
      with_reply_def handleCommandReply_def stop_streams_def start_streams_def merge_channel_state_def
      handleCallReply_def merge_connection_state_def CommandResult_ToCallResult_def transmit_def)
  have "mhas (subscriptions (heap n' 0)) (Identifier (chat_message ''subscribe''))"
    by (rule conjunct1 [OF rejected_subscription_recorded [where res = rejection, OF _ _ _ r]])
      (simp_all add: small_node_def small_session_def mhas_def rejecting_controller_def rejection_def)
  with r show ?thesis by (auto simp: chat_message_def)
qed

lemma Unsubscribe_ok:
  assumes "Unsubscribe ctl s msg n = Ret (n', (res, None))" "mhas (subscriptions (heap n s)) (Identifier msg)"
  shows "subscriptions (heap n' s) = mdel (Identifier msg) (subscriptions (heap n s)) \<and>
    subscribe_ch (hub n') = subscribe_ch (hub n) @
      [\<lparr>hs_event = ''removeAll'', hs_session = UID (heap n s), hs_stream = [], hs_identifier = Identifier msg\<rparr>] \<and>
    UID (heap n' s) = UID (heap n s) \<and> (node_ok n \<longrightarrow> node_ok n')"
proof -
  let ?n = "on_session s (\<lambda>x. x\<lparr>subscriptions := mdel (Identifier msg) (subscriptions x)\<rparr>) n"
  obtain res0 err0 where r: "ctl_Unsubscribe ctl (UID (heap n s)) (env (heap n s)) (Identifiers (heap n s))
      (Identifier msg) = (res0, err0)" by fastforce
  have "err0 = None"
    using assms r with_reply_subscriptions by (fastforce simp: Unsubscribe_def Let_def split: if_splits)
  with assms r obtain c where
    w: "with_reply s msg (Some (c\<lparr>StopAllStreams := True\<rparr>), None) ?n = Ret (n', (res, None))"
    by (auto simp: Unsubscribe_def Let_def split: option.splits)
  then obtain n1 where n1: "stop_streams s (Identifier msg) (c\<lparr>StopAllStreams := True\<rparr>) ?n = Ret n1"
    and n2: "rest_of_reply s msg (c\<lparr>StopAllStreams := True\<rparr>) n1 = Ret n'"
    by (auto simp: with_reply_def handleCommandReply_rest go_simps)
  have "subscribe_ch (hub n1) = subscribe_ch (hub n) @
      [\<lparr>hs_event = ''removeAll'', hs_session = UID (heap n s), hs_stream = [], hs_identifier = Identifier msg\<rparr>]"
    using n1 by (auto simp: stop_streams_def RemoveAllSubscriptions_def send_subscription_def go_simps)
  moreover have "node_ok n \<Longrightarrow> node_ok ?n" by (simp add: node_ok_on_session node_ok_session)
  then have "node_ok n \<Longrightarrow> node_ok n'"
    using with_reply_safe [of ?n s msg "(Some (c\<lparr>StopAllStreams := True\<rparr>), None)"] w by simp
  ultimately show ?thesis
    using movesD [OF rest_of_reply_keeps n2] with_reply_subscriptions [OF w] stop_streams_session [OF n1]
    by (simp add: keeps_def keeps_session_def)
qed

text \<open>
  C18. What \<^verbatim>\<open>Unsubscribe\<close> does to the session's subscriptions. An unknown channel is refused without
  asking the controller. Otherwise the channel is forgotten exactly when the controller's answer has
  no error, and then the hub has been asked to stop all its streams; no other subscription changes.
\<close>

theorem Unsubscribe_releases:
  assumes "Unsubscribe ctl s msg n = Ret (n', (res, err))"
  shows "if \<not> mhas (subscriptions (heap n s)) (Identifier msg)
    then n' = n \<and> res = None \<and> err = Some (Err (''Unknown subscription '' @ Identifier msg))
    else (\<forall>k. mhas (subscriptions (heap n' s)) k \<longleftrightarrow>
         mhas (subscriptions (heap n s)) k \<and> \<not> (err = None \<and> k = Identifier msg)) \<and>
      (err = None \<longrightarrow> subscribe_ch (hub n') = subscribe_ch (hub n) @
         [\<lparr>hs_event = ''removeAll'', hs_session = UID (heap n s), hs_stream = [], hs_identifier = Identifier msg\<rparr>])"
proof (cases "mhas (subscriptions (heap n s)) (Identifier msg)")
  case True
  show ?thesis
  proof (cases err)
    case None
    with Unsubscribe_ok [of ctl s msg n n' res] assms True show ?thesis by (auto simp: gomap_simps)
  next
    case (Some e)
    with assms True have "subscriptions (heap n' s) = subscriptions (heap n s)"
      by (auto simp: Unsubscribe_def Let_def split: prod.splits option.splits if_splits
          dest!: with_reply_subscriptions)
    with Some True show ?thesis by simp
  qed
qed (use assms in \<open>simp add: Unsubscribe_def Let_def\<close>)

definition subscribed_node :: Node where
  "subscribed_node = on_session 0 (\<lambda>x. x\<lparr>subscriptions := [(''chat'', True)]\<rparr>) small_node"

lemma silent_Unsubscribe:
  "\<exists>n' r. Unsubscribe silent_controller 0 (chat_message ''unsubscribe'') subscribed_node = Ret (n', (Some r, None))"
  by (simp add: Unsubscribe_def subscribed_node_def chat_message_def small_node_def small_session_def
      silent_controller_def Let_def mhas_def with_reply_def handleCommandReply_def stop_streams_def
      start_streams_def merge_channel_state_def handleCallReply_def merge_connection_state_def
      CommandResult_ToCallResult_def transmit_def RemoveAllSubscriptions_def send_subscription_def
      chan_send_def small_hub_def)

theorem Unsubscribe_releases_witness:
  "\<exists>n' r. Unsubscribe silent_controller 0 (chat_message ''unsubscribe'') subscribed_node = Ret (n', r) \<and>
     \<not> mhas (subscriptions (heap n' 0)) ''chat'' \<and> length (subscribe_ch (hub n')) = 1"
proof -
  obtain n' r where r: "Unsubscribe silent_controller 0 (chat_message ''unsubscribe'') subscribed_node =
      Ret (n', (Some r, None))"
    using silent_Unsubscribe by blast
  have "mhas (subscriptions (heap subscribed_node 0)) ''chat''" "subscribe_ch (hub subscribed_node) = []"
    by (simp_all add: subscribed_node_def small_node_def small_hub_def mhas_def)
  with Unsubscribe_releases [OF r] r show ?thesis by (auto simp: chat_message_def)
qed

text \<open>
  \<^verbatim>\<open>Perform\<close> asks the controller only for a channel the session is subscribed to and only with
  text data; otherwise it reports an error and changes nothing. It never changes the subscriptions.
\<close>

theorem Perform_guarded:
  assumes "Perform ctl s msg n = Ret (n', (res, err))"
  shows "(\<not> mhas (subscriptions (heap n s)) (Identifier msg) \<longrightarrow>
      n' = n \<and> err = Some (Err (''Unknown subscription '' @ Identifier msg))) \<and>
    (mhas (subscriptions (heap n s)) (Identifier msg) \<and> (\<forall>data. Data msg \<noteq> JStr data) \<longrightarrow> n' = n \<and> err \<noteq> None) \<and>
    (\<forall>data. mhas (subscriptions (heap n s)) (Identifier msg) \<and> Data msg = JStr data \<longrightarrow>
      (res, err) = ctl_Perform ctl (UID (heap n s)) (env (heap n s)) (Identifiers (heap n s)) (Identifier msg) data) \<and>
    (\<forall>t. subscriptions (heap n' t) = subscriptions (heap n t))"
  using assms
  by (cases "Data msg")
    (auto simp: Perform_def Let_def dest: with_reply_subscriptions split: if_splits)

theorem Perform_guarded_witness:
  "\<exists>n' r. Perform silent_controller 0 (chat_message ''message'') subscribed_node = Ret (n', r) \<and>
     n' = subscribed_node \<and> snd r \<noteq> None"
proof -
  obtain n' res err where r: "Perform silent_controller 0 (chat_message ''message'') subscribed_node =
      Ret (n', (res, err))"
    by (simp add: Perform_def chat_message_def Let_def subscribed_node_def mhas_def)
  have "mhas (subscriptions (heap subscribed_node 0)) ''chat''" "Data (chat_message ''message'') = JNull"
    "Identifier (chat_message ''message'') = ''chat''"
    by (simp_all add: subscribed_node_def mhas_def chat_message_def)
  with Perform_guarded [OF r] r show ?thesis by auto
qed

section \<open>Subscribing again before the hub has caught up\<close>

text \<open>
  C34. A channel that is unsubscribed and subscribed again can lose its streams. Unsubscribing only
  queues the removal of the channel's streams, subscribing adds the new ones at once: when the hub
  then takes the queued request, it removes the streams of the new subscription, and the session
  receives nothing although it counts as subscribed.
\<close>

theorem resubscription_lost:
  assumes "node_ok n" and "mhas (subscriptions (heap n s)) (Identifier msg)" and "subscribe_ch (hub n) = []"
    and "Unsubscribe ctl s msg n = Ret (n1, (r1, None))"
    and "ctl_Subscribe ctl' (UID (heap n1 s)) (env (heap n1 s)) (Identifiers (heap n1 s)) (Identifier msg) = (Some res, None)"
    and "\<not> StopAllStreams res" and "StoppedStreams res = []"
    and "Subscribe ctl' s msg n1 = Ret (n2, r2)"
  shows "mhas (subscriptions (heap n2 s)) (Identifier msg) \<and>
    (\<exists>r rs. subscribe_ch (hub n2) = r # rs \<and>
      (\<forall>stream. \<not> subscribed (on_subscribe r (hub n2)) stream (UID (heap n2 s)) (Identifier msg)))"
proof -
  let ?req = "\<lparr>hs_event = ''removeAll'', hs_session = UID (heap n s), hs_stream = [], hs_identifier = Identifier msg\<rparr>"
  let ?n = "on_session s (\<lambda>x. x\<lparr>subscriptions := mput (Identifier msg) True (subscriptions x)\<rparr>) n1"
  have n1: "\<not> mhas (subscriptions (heap n1 s)) (Identifier msg)" "subscribe_ch (hub n1) = [?req]"
    "UID (heap n1 s) = UID (heap n s)" "node_ok n1"
    using Unsubscribe_ok [OF assms(4,2)] assms(1,3) by (simp_all add: gomap_simps)
  with assms(5,8) have w: "with_reply s msg (Some res, None) ?n = Ret (n2, r2)"
    by (simp add: Subscribe_def Let_def)
  with assms(6,7) have r: "rest_of_reply s msg res ?n = Ret n2"
    by (auto simp: with_reply_def handleCommandReply_rest stop_streams_def go_simps)
  have "node_ok n2"
    using with_reply_safe [of ?n s msg "(Some res, None)"] n1(4) w
    by (simp add: node_ok_on_session node_ok_session)
  then have "indexed (hub n2)" by (simp add: node_ok_def hub_ok_def hub_inv_def)
  with movesD [OF rest_of_reply_keeps r] n1(2,3) with_reply_subscriptions [OF w]
    subscribed_unsubscribeSessionFromChannel [of "hub n2"] show ?thesis
    by (auto simp: keeps_def keeps_session_def on_subscribe_def gomap_simps)
qed

lemma subscribed_node_ok: "node_ok subscribed_node"
  unfolding subscribed_node_def by (simp add: node_ok_on_session small_node_ok node_ok_session)

definition confirmation :: CommandResult where
  "confirmation = rejection\<lparr>Streams := [''news''], cmd_Status := SUCCESS\<rparr>"

definition news_controller :: Controller where
  "news_controller = silent_controller\<lparr>ctl_Subscribe := (\<lambda>_ _ _ _. (Some confirmation, None))\<rparr>"

theorem resubscription_lost_witness:
  "\<exists>n1 r1 n2 r2. Unsubscribe silent_controller 0 (chat_message ''unsubscribe'') subscribed_node = Ret (n1, r1) \<and>
     Subscribe news_controller 0 (chat_message ''unsubscribe'') n1 = Ret (n2, r2) \<and>
     mhas (subscriptions (heap n2 0)) ''chat'' \<and>
     (\<exists>r rs. subscribe_ch (hub n2) = r # rs \<and>
        \<not> subscribed (on_subscribe r (hub n2)) ''news'' (UID (heap n2 0)) ''chat'')"
proof -
  let ?msg = "chat_message ''unsubscribe''"
  obtain n1 r1 where n1: "Unsubscribe silent_controller 0 ?msg subscribed_node = Ret (n1, (Some r1, None))"
    using silent_Unsubscribe by blast
  have sub: "mhas (subscriptions (heap subscribed_node 0)) (Identifier ?msg)"
    "subscribe_ch (hub subscribed_node) = []"
    by (simp_all add: subscribed_node_def mhas_def chat_message_def small_node_def small_hub_def)
  have "\<not> mhas (subscriptions (heap n1 0)) (Identifier ?msg)"
    using Unsubscribe_ok [OF n1 sub(1)] by (simp add: gomap_simps)
  then obtain n2 r2 where n2: "Subscribe news_controller 0 ?msg n1 = Ret (n2, r2)"
    by (simp add: Subscribe_def Let_def news_controller_def confirmation_def rejection_def
        with_reply_def handleCommandReply_def stop_streams_def start_streams_def merge_channel_state_def
        handleCallReply_def merge_connection_state_def CommandResult_ToCallResult_def transmit_def)
  have lost: "mhas (subscriptions (heap n2 0)) (Identifier ?msg) \<and>
      (\<exists>r rs. subscribe_ch (hub n2) = r # rs \<and>
        (\<forall>stream. \<not> subscribed (on_subscribe r (hub n2)) stream (UID (heap n2 0)) (Identifier ?msg)))"
    by (rule resubscription_lost [where res = confirmation, OF subscribed_node_ok sub n1 _ _ _ n2])
      (simp_all add: news_controller_def confirmation_def rejection_def)
  have "Identifier ?msg = ''chat''" by (simp add: chat_message_def)
  with n1 n2 lost show ?thesis by metis
qed

section \<open>Authentication\<close>

lemma SendJSONTransmission_deliver:
  "encoder (heap n s) = JSON f64 \<Longrightarrow> room_for 1 (heap n s) \<Longrightarrow>
   SendJSONTransmission msg s n = Ret (deliver s [text_frame msg] n)"
  using send_result_deliver [of "JSON_EncodeTransmission msg" n s]
  by (simp add: SendJSONTransmission_def JSON_EncodeTransmission_def result_frames_def)

lemma transmit_deliver:
  "encoder (heap n s) = JSON f64 \<Longrightarrow> room_for (length ts) (heap n s) \<Longrightarrow>
   transmit s ts n = Ret (deliver s (map text_frame ts) n)"
  unfolding transmit_def
proof (induction ts arbitrary: n)
  case (Cons t ts)
  have "room_for 1 (heap n s)" using Cons.prems(2) by (rule room_for_mono) simp
  moreover have "room_for (length ts) (heap (deliver s [text_frame t] n) s)"
    using Cons.prems(2) by (intro room_for_deliver) simp
  ultimately show ?case
    using Cons by (simp add: SendJSONTransmission_deliver deliver_append [symmetric])
qed simp

lemma merge_connection_state_returns:
  assumes "node_ok n"
  obtains e where "merge_connection_state s cs n = Ret (SetEnv e s n)" "env_ok e"
proof (cases cs)
  case None
  show thesis
    by (rule that [of "env (heap n s)"])
      (use None node_ok_env [OF assms] in \<open>simp_all add: merge_connection_state_def SetEnv_def on_session_def\<close>)
next
  case (Some st)
  obtain e where "MergeConnectionState (env (heap n s)) st = Ret e" "env_ok e"
    using MergeConnectionState_ok [OF node_ok_env [OF assms]] by blast
  with Some show thesis by (intro that [of e]) (simp_all add: merge_connection_state_def)
qed

text \<open>A reply without broadcasts: the environment is merged and the transmissions are delivered.\<close>

lemma handleCallReply_deliver:
  assumes "node_ok n" "encoder (heap n s) = JSON f64" "call_Broadcasts reply = []"
    and "room_for (length (call_Transmissions reply)) (heap n s)"
  obtains e where "handleCallReply s reply n =
    Ret (deliver s (map text_frame (call_Transmissions reply)) (SetEnv e s n))" "env_ok e"
proof (rule merge_connection_state_returns [OF assms(1), of s "call_CState reply"])
  fix e
  assume e: "merge_connection_state s (call_CState reply) n = Ret (SetEnv e s n)" "env_ok e"
  have "encoder (heap (SetEnv e s n) s) = JSON f64" "room_for (length (call_Transmissions reply)) (heap (SetEnv e s n) s)"
    using assms(2,4) by (simp_all add: SetEnv_def room_for_def)
  with e assms(3) show thesis by (intro that [of e]) (simp_all add: handleCallReply_def transmit_deliver)
qed

lemma Disconnect_deliver:
  assumes "\<not> Connected (heap n s)" "room_for 1 (heap n s)"
  shows "Disconnect reason code s n = Ret (close_session s (deliver s [close_frame reason code] n))"
  using assms
  by (subst Disconnect.simps)
    (simp add: sendFrame_deliver on_session_def)

text \<open>
  C6. A connection that the application rejects gets the application's last words and is closed,
  in that order, and is never registered. When the session has room for them, the frames queued are
  the transmissions of the answer followed by one close frame; the session is closed, the hub is
  unchanged, and the counter of failed authentications goes up exactly for the status
  \<^verbatim>\<open>FAILURE\<close>.
\<close>

theorem Authenticate_rejected:
  assumes "node_ok n" and "\<not> Connected (heap n s)" and "encoder (heap n s) = JSON f64" and "sendCh (heap n s)"
    and "ctl_Authenticate ctl (UID (heap n s)) (env (heap n s)) = (Some c, None)"
    and "conn_Status c \<noteq> SUCCESS" and "conn_Broadcasts c = []"
    and "length (sendBuf (heap n s)) + length (conn_Transmissions c) < 256"
  shows "\<exists>n'. Authenticate ctl s n = Ret (n', (Some c, None)) \<and> hub n' = hub n \<and> closed (heap n' s) \<and>
    sendBuf (heap n' s) = sendBuf (heap n s) @ map text_frame (conn_Transmissions c) @
      [close_frame ''Auth Failed'' CloseNormalClosure] \<and>
    counter_value metricsFailedAuths n' =
      counter_value metricsFailedAuths n + (if conn_Status c = FAILURE then 1 else 0)"
proof -
  obtain n1 where n1: "(if conn_Status c = FAILURE then add_counter metricsFailedAuths 1 n else Ret n) = Ret n1"
    "node_ok n1" "heap n1 = heap n" "hub n1 = hub n"
    "counter_value metricsFailedAuths n1 =
      counter_value metricsFailedAuths n + (if conn_Status c = FAILURE then 1 else 0)"
  proof (cases "conn_Status c = FAILURE")
    case True
    obtain n1 where "add_counter metricsFailedAuths 1 n = Ret n1" "node_ok n1"
      by (rule add_counter_returns [OF assms(1), of metricsFailedAuths]) auto
    with True add_counter_node [OF this(1)] counter_value_add [OF this(1)] show thesis
      by (intro that [of n1]) simp_all
  qed (use assms(1) that in simp)
  let ?reply = "ConnectResult_ToCallResult c" and ?ts = "map text_frame (conn_Transmissions c)"
  have reply: "call_Broadcasts ?reply = []" "call_Transmissions ?reply = conn_Transmissions c"
    using assms(7) by (simp_all add: ConnectResult_ToCallResult_def)
  have open_ch: "\<not> sendClosed (heap n s)"
    using node_ok_session [OF assms(1), of s] assms(4) by (simp add: session_ok_def)
  then have room: "room_for (length (call_Transmissions ?reply)) (heap n1 s)"
    using assms(8) n1(3) by (simp add: room_for_def reply)
  obtain e where e: "handleCallReply s ?reply n1 = Ret (deliver s ?ts (SetEnv e s n1))"
    using handleCallReply_deliver [OF n1(2) _ reply(1) room, of f64] assms(3) n1(3) reply(2) by metis
  let ?n2 = "deliver s ?ts (SetEnv e s n1)"
  have n2: "\<not> Connected (heap ?n2 s)" "room_for 1 (heap ?n2 s)"
    using assms(2,8) n1(3) open_ch by (simp_all add: heap_deliver SetEnv_def room_for_def)
  have "Authenticate ctl s n =
      Ret (close_session s (deliver s [close_frame ''Auth Failed'' CloseNormalClosure] ?n2), (Some c, None))"
    using assms(5,6) n1(1) e Disconnect_deliver [OF n2] by (simp add: Authenticate_def)
  moreover have "counter_value metricsFailedAuths ?n2 = counter_value metricsFailedAuths n1"
    by (simp add: deliver_def push_def SetEnv_def)
  ultimately show ?thesis
    using n1 assms(4)
    by (simp add: heap_deliver SetEnv_def) (simp add: deliver_def push_def SetEnv_def)
qed

definition refusal :: ConnectResult where
  "refusal = \<lparr>conn_Identifier = [], conn_Transmissions = [''bye''], conn_Broadcasts = [],
     conn_CState = None, conn_IState = None, conn_Status = FAILURE\<rparr>"

definition refusing_controller :: Controller where
  "refusing_controller = silent_controller\<lparr>ctl_Authenticate := (\<lambda>_ _. (Some refusal, None))\<rparr>"

definition fresh_node :: Node where
  "fresh_node = on_session 0 (\<lambda>x. x\<lparr>Connected := False\<rparr>) small_node"

lemma fresh_node_ok: "node_ok fresh_node"
  unfolding fresh_node_def by (simp add: node_ok_on_session small_node_ok node_ok_session)

theorem Authenticate_rejected_witness:
  "\<exists>n'. Authenticate refusing_controller 0 fresh_node = Ret (n', (Some refusal, None)) \<and>
     sendBuf (heap n' 0) = [text_frame ''bye'', close_frame ''Auth Failed'' CloseNormalClosure]"
proof -
  have x: "\<not> Connected (heap fresh_node 0)" "encoder (heap fresh_node 0) = JSON (\<lambda>_. None)"
    "sendCh (heap fresh_node 0)" "sendBuf (heap fresh_node 0) = []"
    by (simp_all add: fresh_node_def small_node_def small_session_def)
  have c: "ctl_Authenticate refusing_controller u e = (Some refusal, None)" for u e
    by (simp add: refusing_controller_def)
  have "conn_Status refusal \<noteq> SUCCESS" "conn_Broadcasts refusal = []"
    "length (sendBuf (heap fresh_node 0)) + length (conn_Transmissions refusal) < 256"
    by (simp_all add: refusal_def status_defs x)
  from Authenticate_rejected [OF fresh_node_ok x(1-3) c this] show ?thesis
    by (auto simp: x(4) refusal_def)
qed

text \<open>
  C7. A connection that the application accepts is registered before the call returns: under its
  session id in the hub and as a client of the identifiers the application gave it. It is marked
  connected, the transmissions of the answer are queued in order, and nobody else's registration or
  subscription changes.
\<close>

theorem Authenticate_accepted:
  assumes "node_ok n" and "encoder (heap n s) = JSON f64" and "sendCh (heap n s)"
    and "ctl_Authenticate ctl (UID (heap n s)) (env (heap n s)) = (Some c, None)"
    and "conn_Status c = SUCCESS" and "conn_Broadcasts c = []"
    and "length (sendBuf (heap n s)) + length (conn_Transmissions c) \<le> 256"
  shows "\<exists>n'. Authenticate ctl s n = Ret (n', (Some c, None)) \<and>
    abs_hub (hub n') = abs_op (OpAdd s (UID (heap n s)) (conn_Identifier c)) (abs_hub (hub n)) \<and>
    Connected (heap n' s) \<and> Identifiers (heap n' s) = conn_Identifier c \<and>
    sendBuf (heap n' s) = sendBuf (heap n s) @ map text_frame (conn_Transmissions c)"
proof -
  let ?n = "register_session (conn_Identifier c) s n" and ?reply = "ConnectResult_ToCallResult c"
  let ?ts = "map text_frame (conn_Transmissions c)"
  have heap: "heap ?n = (heap n)(s := (heap n s)\<lparr>Identifiers := conn_Identifier c, Connected := True\<rparr>)"
    and hub: "hub ?n = addSession s (UID (heap n s)) (conn_Identifier c) (hub n)"
    by (simp_all add: register_session_def Let_def)
  have reply: "call_Broadcasts ?reply = []" "call_Transmissions ?reply = conn_Transmissions c"
    using assms(6) by (simp_all add: ConnectResult_ToCallResult_def)
  have "\<not> sendClosed (heap n s)"
    using node_ok_session [OF assms(1), of s] assms(3) by (simp add: session_ok_def)
  then have room: "room_for (length (call_Transmissions ?reply)) (heap ?n s)"
    using assms(7) by (simp add: heap room_for_def reply)
  obtain e where e: "handleCallReply s ?reply ?n = Ret (deliver s ?ts (SetEnv e s ?n))"
    using handleCallReply_deliver [OF register_session_ok [OF assms(1)] _ reply(1) room, of f64]
      assms(2) reply(2) by (auto simp: heap)
  have "hub_inv (hub n)" using assms(1) by (simp add: node_ok_def hub_ok_def)
  from abs_hub_op [OF this, of "OpAdd s (UID (heap n s)) (conn_Identifier c)"] e assms(3-5) show ?thesis
    by (simp add: Authenticate_def heap_deliver SetEnv_def hub heap)
qed

theorem Authenticate_accepted_witness:
  "\<exists>n' r. Authenticate silent_controller 0 fresh_node = Ret (n', r) \<and>
     a_sessions (abs_hub (hub n')) ''u'' = Some 0 \<and> ''u'' \<in> a_clients (abs_hub (hub n')) ''i'' \<and>
     sendBuf (heap n' 0) = [text_frame ''{}'']"
proof -
  let ?c = "\<lparr>conn_Identifier = ''i'', conn_Transmissions = [''{}''], conn_Broadcasts = [],
    conn_CState = None, conn_IState = None, conn_Status = SUCCESS\<rparr>"
  have x: "encoder (heap fresh_node 0) = JSON (\<lambda>_. None)" "sendCh (heap fresh_node 0)"
    "sendBuf (heap fresh_node 0) = []" "UID (heap fresh_node 0) = ''u''"
    by (simp_all add: fresh_node_def small_node_def small_session_def)
  have c: "ctl_Authenticate silent_controller u e = (Some ?c, None)" for u e
    by (simp add: silent_controller_def Let_def)
  have "conn_Status ?c = SUCCESS" "conn_Broadcasts ?c = []"
    "length (sendBuf (heap fresh_node 0)) + length (conn_Transmissions ?c) \<le> 256"
    by (simp_all add: x)
  from Authenticate_accepted [OF fresh_node_ok x(1-2) c this] show ?thesis by (auto simp: x)
qed

end
