(* ===== verification/Shutdown.thy ===== *)
theory Shutdown
  imports Commands
begin

text \<open>
  Closing many sessions at once: the shutdown of the node, and the task of a remote disconnect. Each
  session closed sends one removal request to the hub; during the shutdown the hub's loop has ended
  and nobody receives them. The lemmas count the requests.
\<close>

section \<open>One session\<close>

lemma sendFrame_hub:
  assumes "sendFrame f s n = Ret n'"
  shows "hub n' = hub n \<and> Connected (heap n' s) = Connected (heap n s) \<or>
    hub n' = remove_request s (heap n s) (hub n) \<and> \<not> Connected (heap n' s)"
proof (cases "sendCh (heap n s) \<and> \<not> sendClosed (heap n s) \<and> 256 \<le> length (sendBuf (heap n s))")
  case True
  let ?n = "on_session s (\<lambda>x. x\<lparr>sendClosed := True, sendCh := False\<rparr>) n"
  from True assms obtain n1 where "disconnectFromNode s ?n = Ret n1" "n' = close_session s n1"
    by (auto simp: sendFrame_full go_simps)
  with disconnectFromNode_hub [OF this(1)] show ?thesis by (simp add: remove_request_def)
next
  case False
  with assms show ?thesis by (subst (asm) sendFrame.simps) (auto split: if_splits)
qed

lemma Send_hub:
  assumes "Send m s n = Ret (n', m')"
  shows "hub n' = hub n \<and> Connected (heap n' s) = Connected (heap n s) \<or>
    hub n' = remove_request s (heap n s) (hub n) \<and> \<not> Connected (heap n' s)"
proof -
  from assms obtain r where "send_result r s n = Ret n'" by (auto simp: Send_def go_simps)
  then show ?thesis
    by (auto simp: send_result_def dest!: sendFrame_hub split: prod.splits option.splits)
qed

lemma notify_and_disconnect_hub:
  assumes "notify_and_disconnect msg reason code s n = Ret n'"
  shows "hub n' = remove_request s (heap n s) (hub n) \<and> \<not> Connected (heap n' s) \<and>
    shutdownCh n' = shutdownCh n \<and> (\<forall>t. t \<noteq> s \<longrightarrow> heap n' t = heap n t)"
proof -
  from assms obtain n1 m where n1: "Send (Plain (MDisconnect msg)) s n = Ret (n1, m)"
    and n2: "Disconnect reason code s n1 = Ret n'"
    by (auto simp: notify_and_disconnect_def go_simps)
  have "moves (touches {s}) n (Ret n1)"
    using Send_touches [of s n "Plain (MDisconnect msg)"] by (simp add: n1)
  moreover have "touches {s} n1 n'" by (rule movesD [OF Disconnect_touches n2])
  ultimately have "shutdownCh n' = shutdownCh n \<and> (\<forall>t. t \<noteq> s \<longrightarrow> heap n' t = heap n t)" by (simp add: touches_def)
  with Send_hub [OF n1] Disconnect_hub [OF n2] show ?thesis
    by (auto simp: remove_request_def)
qed

section \<open>Many sessions\<close>

lemma notify_loop_requests:
  assumes "gfor ss (notify_and_disconnect msg reason code) n = Ret n'" "distinct ss"
    and "\<forall>s \<in> set ss. Connected (heap n s)"
  shows "length (register_ch (hub n')) = length (register_ch (hub n)) + length ss"
  using assms
proof (induction ss arbitrary: n)
  case (Cons s ss)
  then obtain n1 where n1: "notify_and_disconnect msg reason code s n = Ret n1"
    and rest: "gfor ss (notify_and_disconnect msg reason code) n1 = Ret n'"
    by (auto simp: go_simps)
  from notify_and_disconnect_hub [OF n1] Cons.prems(2,3)
  have "length (register_ch (hub n1)) = Suc (length (register_ch (hub n)))"
    and "\<forall>t \<in> set ss. Connected (heap n1 t)"
    by (auto simp: remove_request_def)
  with Cons.IH [OF rest] Cons.prems(2) show ?case by simp
qed simp

lemma notify_loop_safe:
  "node_ok n \<Longrightarrow> safely node_ok (gfor ss (notify_and_disconnect msg reason code) n)"
  by (rule safely_gfor) (auto intro: notify_and_disconnect_safe)

lemma notify_loop_blocks:
  assumes "node_ok n" "distinct ss" "\<forall>s \<in> set ss. Connected (heap n s)"
    and "2048 < length (register_ch (hub n)) + length ss"
  shows "gfor ss (notify_and_disconnect msg reason code) n = Block"
proof (cases "gfor ss (notify_and_disconnect msg reason code) n")
  case (Ret n')
  then have "node_ok n'" using notify_loop_safe [OF assms(1), of ss msg reason code] by simp
  then have "length (register_ch (hub n')) \<le> 2048" by (simp add: node_ok_def hub_ok_def channels_ok_def)
  with notify_loop_requests [OF Ret assms(2,3)] assms(4) show ?thesis by simp
qed (use notify_loop_safe [OF assms(1), of ss msg reason code] in simp_all)

lemma stopped_node_ok:
  assumes "node_ok n" "hub_running (hub n)"
  shows "node_ok (n\<lparr>shutdownCh := False, hub := (hub n)\<lparr>hub_running := False\<rparr>\<rparr>)"
proof -
  have "hub_ok ((hub n)\<lparr>hub_running := False\<rparr>)"
    by (rule hub_ok_step [OF hub_ok_of_node [OF assms(1)] hub_step.stop])
      (simp add: Hub_Shutdown_def assms(2))
  with assms(1) show ?thesis by (simp add: node_ok_def)
qed

text \<open>
  C33. The shutdown of a node with more than 2048 connected sessions never returns. The hub's loop is
  stopped first; closing a session sends a removal request to a channel of capacity 2048 that nobody
  reads any more.
\<close>

theorem shutdown_hangs:
  assumes "node_ok n" and "shutdownCh n" and "hub_running (hub n)"
    and "distinct (map snd (sessions (hub n)))"
    and "\<forall>s \<in> snd ` set (sessions (hub n)). Connected (heap n s)"
    and "2048 < length (sessions (hub n))"
  shows "Node_Shutdown dshut cshut n = Block"
proof -
  let ?n = "n\<lparr>shutdownCh := False, hub := (hub n)\<lparr>hub_running := False\<rparr>\<rparr>"
  have ok: "node_ok ?n" by (rule stopped_node_ok [OF assms(1,3)])
  have "close_all ?n = Block"
    unfolding close_all_def close_one_def
    by (rule notify_loop_blocks [OF ok]) (use assms in auto)
  with assms(2,3,6) show ?thesis
    by (auto simp: Node_Shutdown_def shutdown_begin_def Hub_Shutdown_def Size_def Let_def)
qed

definition crowd_id :: "nat \<Rightarrow> string" where
  "crowd_id i = replicate i (CHR ''a'')"

definition crowd_hub :: "nat \<Rightarrow> Hub" where
  "crowd_hub k = fold (\<lambda>i. addSession i (crowd_id i) ''i'') [0..<k] small_hub"

definition crowd_node :: "nat \<Rightarrow> Node" where
  "crowd_node k = small_node\<lparr>hub := crowd_hub k, heap := (\<lambda>i. small_session\<lparr>UID := crowd_id i\<rparr>)\<rparr>"

lemma crowd_id_inject [simp]: "crowd_id i = crowd_id j \<longleftrightarrow> i = j"
  by (auto simp: crowd_id_def dest: arg_cong [of _ _ length])

lemma crowd_hub_ok: "hub_ok (crowd_hub k)"
proof (induction k)
  case (Suc k)
  then show ?case using hub_ok_hub_op [OF Suc, of "OpAdd k (crowd_id k) ''i''"] by (simp add: crowd_hub_def)
qed (simp add: crowd_hub_def small_hub_ok)

lemma mput_fresh: "\<not> mhas m k \<Longrightarrow> mput k v m = m @ [(k, v)]"
  by (induction m) (auto simp: mhas_Cons)

lemma crowd_hub_sessions:
  "sessions (crowd_hub k) = map (\<lambda>i. (crowd_id i, i)) [0..<k] \<and> hub_running (crowd_hub k) \<and>
   register_ch (crowd_hub k) = []"
proof (induction k)
  case (Suc k)
  have "\<not> mhas (sessions (crowd_hub k)) (crowd_id k)"
    using Suc by (auto simp: mhas_iff_key)
  with Suc show ?case
    by (simp add: crowd_hub_def mput_fresh) (simp add: addSession_def)
qed (simp add: crowd_hub_def small_hub_def)

lemma crowd_node_ok: "node_ok (crowd_node k)"
  using small_node_ok small_session_ok
  by (simp add: node_ok_def crowd_node_def crowd_hub_ok session_ok_def)

theorem shutdown_hangs_witness: "Node_Shutdown Ret (Ret ()) (crowd_node 2049) = Block"
proof (rule shutdown_hangs [OF crowd_node_ok])
  have ses: "sessions (hub (crowd_node 2049)) = map (\<lambda>i. (crowd_id i, i)) [0..<2049]"
    by (simp add: crowd_node_def crowd_hub_sessions)
  show "distinct (map snd (sessions (hub (crowd_node 2049))))"
    unfolding ses by (simp add: comp_def)
  show "2048 < length (sessions (hub (crowd_node 2049)))" unfolding ses by simp
  show "hub_running (hub (crowd_node 2049))" by (simp add: crowd_node_def crowd_hub_sessions)
qed (simp_all add: crowd_node_def small_node_def small_session_def)

section \<open>A shutdown with room for the requests\<close>

text \<open>Room for \<open>k\<close> more sessions to be closed: in the channel of removals and in the disconnect queue.\<close>

definition closing_room :: "nat \<Rightarrow> Node \<Rightarrow> bool" where
  "closing_room k n \<longleftrightarrow> length (register_ch (hub n)) + k \<le> 2048 \<and> (case disconnector n of
     Some (AnyDisconnectQueue d) \<Rightarrow> dq_isStopped d \<or> length (dq_disconnect d) + k \<le> 4096
   | _ \<Rightarrow> True)"

lemma closing_room_mono: "closing_room k n \<Longrightarrow> j \<le> k \<Longrightarrow> closing_room j n"
  by (auto simp: closing_room_def split: option.splits Disconnector.splits)

lemma closing_room_same:
  "hub n' = hub n \<Longrightarrow> disconnector n' = disconnector n \<Longrightarrow> closing_room k n' = closing_room k n"
  by (simp add: closing_room_def)

lemma closing_room_on_session [simp]: "closing_room k (on_session s f n) = closing_room k n"
  by (rule closing_room_same) (simp_all add: on_session_def)

lemma closing_room_close [simp]: "closing_room k (close_session s n) = closing_room k n"
  by (simp add: close_session_def)

lemma disconnectFromNode_room:
  assumes "node_ok n" "closing_room (k + of_bool (Connected (heap n s))) n"
  shows "\<exists>n'. disconnectFromNode s n = Ret n' \<and> closing_room k n' \<and> \<not> Connected (heap n' s)"
proof -
  from assms(1) obtain d where d: "disconnector n = Some d" by (auto simp: node_ok_def)
  show ?thesis
  proof (cases d)
    case (AnyDisconnectQueue q)
    with assms(2) d show ?thesis
      by (auto simp: disconnectFromNode_def Node_Disconnect_def RemoveSession_def chan_send_def
          closing_room_def Enqueue_def on_session_def split: if_splits)
  next
    case NoopDisconnectQueue
    with assms(2) d show ?thesis
      by (auto simp: disconnectFromNode_def Node_Disconnect_def RemoveSession_def chan_send_def
          closing_room_def on_session_def split: if_splits)
  qed
qed

lemma sendFrame_closing:
  assumes "node_ok n" "closing_room (k + of_bool (Connected (heap n s))) n"
  shows "\<exists>n'. sendFrame f s n = Ret n' \<and> closing_room (k + of_bool (Connected (heap n' s))) n'"
proof -
  have x: "session_ok (heap n s)" by (rule node_ok_session [OF assms(1)])
  consider "\<not> sendCh (heap n s)"
    | "sendCh (heap n s)" "length (sendBuf (heap n s)) < 256"
    | "sendCh (heap n s)" "256 \<le> length (sendBuf (heap n s))" by linarith
  then show ?thesis
  proof cases
    case 3
    let ?n = "on_session s (\<lambda>x. x\<lparr>sendClosed := True, sendCh := False\<rparr>) n"
    from x 3 have "node_ok ?n" by (intro node_ok_on_session [OF assms(1)]) (simp add: session_ok_def)
    from disconnectFromNode_room [OF this, of k s] assms(2) obtain n1 where
      n1: "disconnectFromNode s ?n = Ret n1" "closing_room k n1" "\<not> Connected (heap n1 s)" by auto
    then have "\<not> Connected (heap (close_session s n1) s)" by (simp add: close_session_def)
    with n1 3 x show ?thesis by (simp add: sendFrame_full session_ok_def)
  qed (use assms(2) x in \<open>simp_all add: sendFrame_room session_ok_def\<close>)
qed

lemma Disconnect_room:
  assumes "node_ok n" "closing_room (k + of_bool (Connected (heap n s))) n"
  shows "\<exists>n'. Disconnect reason code s n = Ret n' \<and> closing_room k n' \<and> closed (heap n' s)"
proof -
  obtain n1 where n1: "disconnectFromNode s n = Ret n1" "closing_room k n1" "\<not> Connected (heap n1 s)"
    using disconnectFromNode_room [OF assms] by blast
  have "node_ok n1" using disconnectFromNode_safe [OF assms(1), of s] n1(1) by simp
  from sendFrame_closing [OF this, of k s "close_frame reason code"] n1 obtain n2 where
    n2: "sendFrame (close_frame reason code) s n1 = Ret n2" "closing_room (k + of_bool (Connected (heap n2 s))) n2"
    by auto
  from n2(2) have "closing_room k (close_session s n2)" using closing_room_mono by fastforce
  moreover have "closed (heap (close_session s n2) s)" by (simp add: close_session_def)
  ultimately show ?thesis using n1(1) n2(1) by (subst Disconnect.simps) simp
qed

lemma Send_closing:
  assumes "node_ok n" "closing_room (k + of_bool (Connected (heap n s))) n"
  shows "\<exists>n' m'. Send (Plain m) s n = Ret (n', m') \<and> closing_room (k + of_bool (Connected (heap n' s))) n'"
proof -
  have "frame_encoder (encoder (heap n s))"
    using node_ok_session [OF assms(1), of s] by (simp add: session_ok_def)
  from frame_encoder.encode_cases [OF this, of m] consider
      f where "enc_Encode (encoder (heap n s)) m = Ret (Some f, None)"
    | e where "enc_Encode (encoder (heap n s)) m = Ret (None, Some e)" by blast
  then show ?thesis
  proof cases
    case 1
    obtain n' where "sendFrame f s n = Ret n'" "closing_room (k + of_bool (Connected (heap n' s))) n'"
      using sendFrame_closing [OF assms] by blast
    with 1 show ?thesis by (simp add: Send_def send_result_def)
  qed (use assms(2) in \<open>simp add: Send_def send_result_def\<close>)
qed

lemma notify_and_disconnect_room:
  assumes "node_ok n" "closing_room (Suc k) n"
  shows "\<exists>n'. notify_and_disconnect msg reason code s n = Ret n' \<and> node_ok n' \<and> closing_room k n' \<and>
    closed (heap n' s) \<and> \<not> Connected (heap n' s) \<and> shutdownCh n' = shutdownCh n \<and>
    hub_running (hub n') = hub_running (hub n) \<and> (\<forall>t. t \<noteq> s \<longrightarrow> heap n' t = heap n t)"
proof -
  have "closing_room (k + of_bool (Connected (heap n s))) n" using closing_room_mono [OF assms(2)] by simp
  from Send_closing [OF assms(1) this] obtain n1 m where
    n1: "Send (Plain (MDisconnect msg)) s n = Ret (n1, m)" "closing_room (k + of_bool (Connected (heap n1 s))) n1"
    by blast
  have "node_ok n1" using Send_safe [OF assms(1), of "Plain (MDisconnect msg)" s] n1(1) by simp
  from Disconnect_room [OF this n1(2)] obtain n2 where
    n2: "Disconnect reason code s n1 = Ret n2" "closing_room k n2" "closed (heap n2 s)" by blast
  have r: "notify_and_disconnect msg reason code s n = Ret n2" by (simp add: notify_and_disconnect_def n1 n2)
  with notify_and_disconnect_safe [OF assms(1), of msg reason code s] have "node_ok n2" by simp
  moreover have "hub_running (hub n2) = hub_running (hub n)"
    using notify_and_disconnect_hub [OF r] by (simp add: remove_request_def)
  ultimately show ?thesis using r n2 notify_and_disconnect_hub [OF r] by blast
qed

lemma notify_loop_completes:
  assumes "node_ok n" "closing_room (length ss) n"
    and "\<forall>s \<in> done_ones. closed (heap n s) \<and> \<not> Connected (heap n s)"
  shows "\<exists>n'. gfor ss (notify_and_disconnect msg reason code) n = Ret n' \<and> shutdownCh n' = shutdownCh n \<and>
    hub_running (hub n') = hub_running (hub n) \<and>
    (\<forall>s \<in> done_ones \<union> set ss. closed (heap n' s) \<and> \<not> Connected (heap n' s))"
  using assms
proof (induction ss arbitrary: n done_ones)
  case (Cons s ss)
  from notify_and_disconnect_room [of n "length ss" msg reason code s] Cons.prems obtain n1 where
    n1: "notify_and_disconnect msg reason code s n = Ret n1" "node_ok n1" "closing_room (length ss) n1"
      "closed (heap n1 s)" "\<not> Connected (heap n1 s)" "\<forall>t. t \<noteq> s \<longrightarrow> heap n1 t = heap n t"
      "shutdownCh n1 = shutdownCh n" "hub_running (hub n1) = hub_running (hub n)" by auto
  have "closed (heap n1 t) \<and> \<not> Connected (heap n1 t)" if "t \<in> insert s done_ones" for t
    using that n1(4-6) Cons.prems(3) by (cases "t = s") auto
  then have "\<forall>t \<in> insert s done_ones. closed (heap n1 t) \<and> \<not> Connected (heap n1 t)" by blast
  from Cons.IH [OF n1(2,3) this] n1(1,7,8) show ?case by simp
qed simp

lemma Node_Shutdown_again:
  "\<not> shutdownCh n \<Longrightarrow> Node_Shutdown dshut cshut n = Ret (n, Some (Err ''Already shut down''))"
  by (simp add: Node_Shutdown_def)

lemma Node_Shutdown_completes:
  assumes "node_ok n" "shutdownCh n" "hub_running (hub n)" "closing_room (length (sessions (hub n))) n"
    and "\<forall>d. \<exists>d'. dshut d = Ret d'"
  shows "\<exists>n'. Node_Shutdown dshut (Ret ()) n = Ret (n', None) \<and>
    (\<forall>s \<in> snd ` set (sessions (hub n)). closed (heap n' s) \<and> \<not> Connected (heap n' s)) \<and>
    \<not> shutdownCh n' \<and> \<not> hub_running (hub n')"
proof -
  let ?n = "n\<lparr>shutdownCh := False, hub := (hub n)\<lparr>hub_running := False\<rparr>\<rparr>"
  have ok: "node_ok ?n" by (rule stopped_node_ok [OF assms(1,3)])
  have "closing_room (length (sessions (hub n))) ?n" using assms(4) by (simp add: closing_room_def)
  with notify_loop_completes [OF ok, of "map snd (sessions (hub n))" "{}"
      "newDisconnectMessage serverRestartReason True" "''Shutdown''" CloseGoingAway] obtain n1 where
    n1: "close_all ?n = Ret n1" "\<forall>s \<in> snd ` set (sessions (hub n)). closed (heap n1 s) \<and> \<not> Connected (heap n1 s)"
    and c: "\<not> shutdownCh n1" "\<not> hub_running (hub n1)" by (auto simp: close_all_def close_one_def)
  have n1': "(if 0 < Size (hub ?n) then close_all ?n else Ret ?n) = Ret n1"
    using n1(1) by (cases "sessions (hub n)") (auto simp: Size_def close_all_def)
  obtain n2 where n2: "(case disconnector n1 of None \<Rightarrow> Ret n1
      | Some d \<Rightarrow> gbind (dshut d) (\<lambda>d. Ret (n1\<lparr>disconnector := Some d\<rparr>))) = Ret n2"
    "heap n2 = heap n1" "\<not> shutdownCh n2" "\<not> hub_running (hub n2)"
  proof (cases "disconnector n1")
    case (Some d)
    obtain d' where "dshut d = Ret d'" using assms(5) by blast
    with Some c show ?thesis by (intro that [of "n1\<lparr>disconnector := Some d'\<rparr>"]) simp_all
  qed (use c in \<open>auto intro: that\<close>)
  have "Node_Shutdown dshut (Ret ()) n = Ret (n2, None)"
    using assms(2,3) n1' n2(1) by (simp add: Node_Shutdown_def shutdown_begin_def Hub_Shutdown_def Let_def)
  with n1(2) n2(2-4) show ?thesis by auto
qed

text \<open>
  C35. The shutdown of a node with room for the requests completes: it returns without an error, the
  hub's loop has ended, every session that was registered has been closed and is no longer
  connected, and a second shutdown reports that it has been done already.
\<close>

theorem shutdown_completes:
  assumes "node_ok n" "shutdownCh n" "hub_running (hub n)" "closing_room (length (sessions (hub n))) n"
    and "\<forall>d. \<exists>d'. dshut d = Ret d'"
  shows "\<exists>n'. Node_Shutdown dshut (Ret ()) n = Ret (n', None) \<and>
    \<not> hub_running (hub n') \<and>
    (\<forall>s \<in> snd ` set (sessions (hub n)). closed (heap n' s) \<and> \<not> Connected (heap n' s)) \<and>
    Node_Shutdown dshut' cshut' n' = Ret (n', Some (Err ''Already shut down''))"
  using Node_Shutdown_completes [OF assms] Node_Shutdown_again by blast

theorem shutdown_completes_witness:
  "\<exists>n'. Node_Shutdown Ret (Ret ()) (crowd_node 2) = Ret (n', None) \<and> closed (heap n' 0) \<and> closed (heap n' 1)"
proof -
  have ses: "sessions (hub (crowd_node 2)) = map (\<lambda>i. (crowd_id i, i)) [0..<2]"
    by (simp add: crowd_node_def crowd_hub_sessions)
  have "shutdownCh (crowd_node 2)" "hub_running (hub (crowd_node 2))"
    "closing_room (length (sessions (hub (crowd_node 2)))) (crowd_node 2)"
    by (simp_all add: crowd_node_def crowd_hub_sessions small_node_def closing_room_def)
  from shutdown_completes [OF crowd_node_ok this, of Ret Ret "Ret ()"]
  show ?thesis by (auto simp: ses)
qed

section \<open>The statistics\<close>

lemma set_gauge_moves: "set_gauge name f n = Ret n' \<Longrightarrow> shutdownCh n' = shutdownCh n \<and> disconnector n' = disconnector n"
  by (auto simp: set_gauge_def go_simps)

lemma collectStatsOnce_moves: "collectStatsOnce g mem n = Ret n' \<Longrightarrow> shutdownCh n' = shutdownCh n"
  by (auto simp: collectStatsOnce_def go_simps dest!: set_gauge_moves split: option.splits)

text \<open>A loop that comes back to its \<^verbatim>\<open>select\<close> after the shutdown waits with a nil channel and never ends.\<close>

lemma late_stats_never_end:
  "\<not> shutdownCh n \<Longrightarrow> collectStats_turn c (StatsSelect False) n = Ret (p, n') \<Longrightarrow>
   p = StatsSelect False \<and> \<not> shutdownCh n'"
  by (cases c) (auto simp: collectStats_def go_simps dest!: collectStatsOnce_moves)

text \<open>A loop that waits with the channel can end once the node is shut down.\<close>

lemma stats_end: "\<not> shutdownCh n \<Longrightarrow> collectStats_turn StatsShutdown (StatsSelect True) n = Ret (StatsReturned, n)"
  by simp

text \<open>Statistics collected before the disconnector is set dereference a nil pointer.\<close>

lemma early_stats_panic:
  assumes "NewNode blank m cfg = Ret n"
  shows "collectStatsOnce g mem n = Panic nil_deref"
proof -
  have "gauges_ok (node_Metrics n)" "disconnector n = None"
    using assms registerMetrics_gauges by (auto simp: NewNode_def go_simps)
  with collectStatsOnce_outcome show ?thesis by (metis (full_types))
qed

end
