(* ===== verification/Runner.thy ===== *)
theory Runner
  imports Options Rpc_Spec Gobench Logging Shutdown
begin

text \<open>
  The program: the runner of \<^verbatim>\<open>cli/cli.go\<close> that builds the components, starts their goroutines and
  shuts them down on a signal, and the two programs \<^verbatim>\<open>cmd/anycable-go\<close> and \<^verbatim>\<open>cmd/gobench-cable\<close>, which
  are the runner with a controller and a subscriber filled in.

  The goroutines a run starts are recorded in the order of the \<^verbatim>\<open>go\<close> statements; what each of them
  does is modelled in the theory of its component, and what it reports when it fails here. The registry of metrics is shared by the
  components and is the one the node holds. Third-party code is in the arguments: \<open>load\<close> loads a
  certificate, \<open>parse_level\<close> reads the name of a log level.
\<close>

section \<open>Building a runner\<close>

datatype Shutdownable = SMetrics | SSubscriber | SServer srvref | SNode

datatype Goroutine =
    HubRun | CollectStats | DisconnectorRun | SubscriberStart | ControllerStart | ServeWS srvref | MetricsRun

record 'c Runner =
  r_name :: string
  r_config :: AppConfig
  controllerFactory :: "(Metrics \<Rightarrow> AppConfig \<Rightarrow> error + ('c \<times> Metrics)) option"
  disconnectorFactory :: "(Node \<Rightarrow> AppConfig \<Rightarrow> error + Disconnector) option"
  subscriberFactory :: "(AppConfig \<Rightarrow> error + Subscriber) option"
  websocketHandler :: "(Node \<Rightarrow> AppConfig \<Rightarrow> error option) option"

text \<open>A missing configuration is read from the command line; its error panics.\<close>

definition NewRunner ::
  "(string list \<Rightarrow> CliVars \<Rightarrow> error + CliVars) \<Rightarrow> string list \<Rightarrow> string \<Rightarrow> AppConfig option \<Rightarrow> CliVars \<Rightarrow> Servers
   \<Rightarrow> ('c Runner \<times> CliVars \<times> Servers) go" where
  "NewRunner parse args name conf vars srvs =
     (let name = (if name = [] then ''AnyCable'' else name) in
      gbind (case conf of
               Some c \<Rightarrow> Ret (c, vars)
             | None \<Rightarrow> (case cli_Config parse args vars of
                 Inl err \<Rightarrow> Panic (error_text err)
               | Inr vars \<Rightarrow> Ret (defaults vars, vars)))
        (\<lambda>(c, vars). Ret
          (\<lparr>r_name = name, r_config = c, controllerFactory = None, disconnectorFactory = None,
            subscriberFactory = None, websocketHandler = None\<rparr>, vars,
           srvs\<lparr>srv_SSL := Some (cfg_SSL c), srv_Host := cfg_Host c, srv_MaxConn := cfg_MaxConn c\<rparr>)))"

definition ControllerFactory ::
  "(Metrics \<Rightarrow> AppConfig \<Rightarrow> error + ('c \<times> Metrics)) \<Rightarrow> 'c Runner \<Rightarrow> 'c Runner" where
  "ControllerFactory f r = r\<lparr>controllerFactory := Some f\<rparr>"

definition DisconnectorFactory :: "(Node \<Rightarrow> AppConfig \<Rightarrow> error + Disconnector) \<Rightarrow> 'c Runner \<Rightarrow> 'c Runner" where
  "DisconnectorFactory f r = r\<lparr>disconnectorFactory := Some f\<rparr>"

definition SubscriberFactory :: "(AppConfig \<Rightarrow> error + Subscriber) \<Rightarrow> 'c Runner \<Rightarrow> 'c Runner" where
  "SubscriberFactory f r = r\<lparr>subscriberFactory := Some f\<rparr>"

definition Runner_WebsocketHandler :: "(Node \<Rightarrow> AppConfig \<Rightarrow> error option) \<Rightarrow> 'c Runner \<Rightarrow> 'c Runner" where
  "Runner_WebsocketHandler f r = r\<lparr>websocketHandler := Some f\<rparr>"

section \<open>The parts of a run\<close>

definition initController :: "'c Runner \<Rightarrow> Metrics \<Rightarrow> error + ('c \<times> Metrics)" where
  "initController r m = (case controllerFactory r of
     None \<Rightarrow> Inl (Err ''Controller factory is not specified'')
   | Some f \<Rightarrow> f m (r_config r))"

definition defaultDisconnector :: "AppConfig \<Rightarrow> (error + Disconnector) go" where
  "defaultDisconnector c =
     (if DisconnectorDisabled c then Ret (Inr NewNoopDisconnector)
      else gbind (NewDisconnectQueue (cfg_DisconnectQueue c)) (\<lambda>d. Ret (Inr (AnyDisconnectQueue d))))"

definition initDisconnector :: "'c Runner \<Rightarrow> Node \<Rightarrow> (error + Disconnector) go" where
  "initDisconnector r n = (case disconnectorFactory r of
     None \<Rightarrow> defaultDisconnector (r_config r)
   | Some f \<Rightarrow> Ret (f n (r_config r)))"

definition initSubscriber :: "'c Runner \<Rightarrow> error + Subscriber" where
  "initSubscriber r = (case subscriberFactory r of
     None \<Rightarrow> Inl (Err ''Subscriber factory is not specified'')
   | Some f \<Rightarrow> f (r_config r))"

definition initWebSocketHandler :: "'c Runner \<Rightarrow> Node \<Rightarrow> error option" where
  "initWebSocketHandler r n = (case websocketHandler r of
     None \<Rightarrow> None
   | Some f \<Rightarrow> f n (r_config r))"

text \<open>The version of the embedded Ruby: \<open>None\<close> where it is not supported.\<close>

definition initMRuby :: "(error + string) option \<Rightarrow> string" where
  "initMRuby mrbv = (case mrbv of Some (Inr v) \<Rightarrow> '' (with '' @ v @ '')'' | _ \<Rightarrow> [])"

definition announceGoPools :: "PoolList \<Rightarrow> string" where
  "announceGoPools pools =
     ''Go pools initialized ('' @
       join '', '' (map (\<lambda>(name, k). name @ '': '' @ nat_text k) (AllPools pools)) @ '')''"

text \<open>
  The default handler of a WebSocket: a session, its authentication, and its reader when that has
  returned no error. The last result says whether the reader was started.
\<close>

definition defaultWebSocketHandler ::
  "(string \<Rightarrow> string option) \<Rightarrow> Controller \<Rightarrow> RequestInfo \<Rightarrow> Node \<Rightarrow> (Node \<times> sref \<times> bool) go" where
  "defaultWebSocketHandler f64 ctl info n =
     (let (s, n) = NewSession (JSON f64) (info_Url info) (info_Headers info) (info_UID info) n in
      gbind (Authenticate ctl s n) (\<lambda>(n, _, err). Ret (n, s, err = None)))"

section \<open>A run\<close>

record 'c Launched =
  l_env :: Servers
  l_metrics :: "MetricsService option"
  l_controller :: "'c option"
  l_node :: "Node option"
  l_subscriber :: "Subscriber option"
  goroutines :: "Goroutine list"
  shutdownables :: "Shutdownable list"
  l_pools :: PoolList
  announced :: "string option"

text \<open>How \<^verbatim>\<open>Run\<close> ends, with what it prints, or that it waits.\<close>

datatype RunEnd = ShownVersion string | ShownHelp string | Failed error | Waiting

definition startup_error :: "string \<Rightarrow> error \<Rightarrow> RunEnd" where
  "startup_error title err = Failed (Err (title @ [CHR 0x0A] @ error_text err))"

text \<open>\<^verbatim>\<open>Node.Start\<close>: the two goroutines of the node, and no error.\<close>

definition Node_Start :: "Goroutine list \<times> error option" where
  "Node_Start = ([HubRun, CollectStats], None)"

text \<open>The server, its handlers and what is started last.\<close>

definition run_server ::
  "(string \<Rightarrow> string \<Rightarrow> error option) \<Rightarrow> 'c Runner \<Rightarrow> Node \<Rightarrow> 'c Launched \<Rightarrow> ('c Launched \<times> RunEnd) go" where
  "run_server load r n w =
     (let cfg = r_config r in
      case ForPort load (int_text (cfg_Port cfg)) (l_env w) of
        (srvs, Inl err) \<Rightarrow> Ret (w\<lparr>l_env := srvs\<rparr>, Failed (Err
            (''!!! Failed to initialize WebSocket server at '' @ error_text err @ '':'' @ cfg_Host cfg @ '' !!!'' @
             [CHR 0x0A] @ int_text (cfg_Port cfg))))
      | (srvs, Inr p) \<Rightarrow>
          (let w = w\<lparr>l_env := srvs, shutdownables := shutdownables w @ [SServer p]\<rparr> in
           case initWebSocketHandler r n of
             Some err \<Rightarrow> Ret (w, startup_error ''!!! Failed to initialize WebSocket handler !!!'' err)
           | None \<Rightarrow>
               gbind (Mux_Handle (cfg_Path cfg) WebSocketMount (srv_store srvs p)) (\<lambda>s.
               gbind (Mux_Handle (HealthPath cfg) HealthMount s) (\<lambda>s.
               Ret (w\<lparr>l_env := on_server p (\<lambda>_. s) srvs, goroutines := goroutines w @ [ServeWS p, MetricsRun],
                     shutdownables := shutdownables w @ [SNode], announced := Some (announceGoPools (l_pools w))\<rparr>,
                    Waiting)))))"

definition run_services ::
  "(string \<Rightarrow> string \<Rightarrow> error option) \<Rightarrow> 'c Runner \<Rightarrow> Node \<Rightarrow> 'c Launched \<Rightarrow> ('c Launched \<times> RunEnd) go" where
  "run_services load r n w =
     (let w = w\<lparr>l_node := Some n, goroutines := goroutines w @ fst Node_Start\<rparr> in
      case snd Node_Start of
        Some err \<Rightarrow> Ret (w, startup_error ''!!! Failed to initialize application !!!'' err)
      | None \<Rightarrow>
      gbind (initDisconnector r n) (\<lambda>res. case res of
        Inl err \<Rightarrow> Ret (w, startup_error ''!!! Failed to initialize disconnector !!!'' err)
      | Inr d \<Rightarrow>
          (let n = SetDisconnector d n;
               w = w\<lparr>l_node := Some n, goroutines := goroutines w @ [DisconnectorRun]\<rparr> in
           case initSubscriber r of
             Inl err \<Rightarrow> Ret (w, Failed (Err (''Couldn't configure pub/sub: '' @ error_text err)))
           | Inr sub \<Rightarrow> run_server load r n
               (w\<lparr>l_subscriber := Some sub, shutdownables := shutdownables w @ [SSubscriber],
                  goroutines := goroutines w @ [SubscriberStart, ControllerStart]\<rparr>))))"

record RunInputs =
  in_load :: "string \<Rightarrow> string \<Rightarrow> error option"
  in_parse_level :: "string \<Rightarrow> LogLevel option"
  in_tty :: bool
  in_logger :: Logger
  in_mrb :: bool
  in_blank :: Session
  in_version :: string
  in_modifier :: string
  in_sha :: string

definition run_controller ::
  "RunInputs \<Rightarrow> 'c Runner \<Rightarrow> MetricsService \<Rightarrow> 'c Launched \<Rightarrow> ('c Launched \<times> RunEnd) go" where
  "run_controller inp r m w = (case initController r (registry m) of
     Inl err \<Rightarrow> Ret (w, startup_error ''!!! Failed to initialize controller !!!'' err)
   | Inr (c, reg) \<Rightarrow>
       gbind (NewNode (in_blank inp) reg (App (r_config r))) (\<lambda>n.
       run_services (in_load inp) r n
         (w\<lparr>l_controller := Some c, l_metrics := Some (m\<lparr>registry := node_Metrics n\<rparr>),
            l_pools := register_pool (pool (hub n)) (l_pools w)\<rparr>)))"

definition Runner_Run ::
  "RunInputs \<Rightarrow> CliVars \<Rightarrow> 'c Runner \<Rightarrow> Servers \<Rightarrow> ('c Launched \<times> RunEnd) go" where
  "Runner_Run inp vars r srvs =
     (let cfg = r_config r;
          w = \<lparr>l_env = srvs, l_metrics = None, l_controller = None, l_node = None, l_subscriber = None,
               goroutines = [], shutdownables = [], l_pools = [], announced = None\<rparr> in
      if showVersion vars then Ret (w, ShownVersion (Version (in_version inp) (in_modifier inp) (in_sha inp)))
      else if showHelp vars then Ret (w, ShownHelp PrintHelp)
      else (case InitLogger (in_parse_level inp) (in_tty inp) (LogFormat cfg) (LogLevel cfg) (in_logger inp) of
        (_, Some err) \<Rightarrow> Ret (w, startup_error ''!!! Failed to initialize logger !!!'' err)
      | (_, None) \<Rightarrow>
          gbind (FromConfig (in_mrb inp) (in_load inp) (cfg_Metrics cfg) srvs) (\<lambda>(srvs, res). case res of
            Inl err \<Rightarrow> Ret (w\<lparr>l_env := srvs\<rparr>, startup_error ''!!! Failed to initialize metrics writer !!!'' err)
          | Inr m \<Rightarrow> run_controller inp r m
              (w\<lparr>l_env := srvs, l_metrics := Some m, shutdownables := [SMetrics]\<rparr>))))"

section \<open>Shutting down on a signal\<close>

text \<open>What is reserved with the signal library, in order; the library calls it in that order.\<close>

datatype Reserved = AnnounceShutdown | CallShutdown Shutdownable | SendNil

definition setupSignalHandlers :: "Shutdownable list \<Rightarrow> Reserved list" where
  "setupSignalHandlers ss = AnnounceShutdown # map CallShutdown ss @ [SendNil]"

text \<open>\<open>dshut\<close> and \<open>cshut\<close> are the shutdowns of the disconnector and of the controller.\<close>

fun call_shutdown ::
  "(Disconnector \<Rightarrow> Disconnector go) \<Rightarrow> unit go \<Rightarrow> Shutdownable \<Rightarrow> 'c Launched \<Rightarrow> 'c Launched go" where
  "call_shutdown dshut cshut SMetrics w = (case l_metrics w of
     None \<Rightarrow> Ret w
   | Some m \<Rightarrow> (let (srvs, m) = Metrics_Shutdown None (l_env w) m in Ret (w\<lparr>l_env := srvs, l_metrics := Some m\<rparr>)))"
| "call_shutdown dshut cshut SSubscriber w = (case l_subscriber w of
     Some (HTTPSub s) \<Rightarrow> Ret (w\<lparr>l_env := fst (HTTPSubscriber_Shutdown None s (l_env w))\<rparr>)
   | _ \<Rightarrow> Ret w)"
| "call_shutdown dshut cshut (SServer p) w =
     Ret (w\<lparr>l_env := on_server p (\<lambda>s. fst (Server_Shutdown None s)) (l_env w)\<rparr>)"
| "call_shutdown dshut cshut SNode w = (case l_node w of
     None \<Rightarrow> Ret w
   | Some n \<Rightarrow> gbind (Node_Shutdown dshut cshut n) (\<lambda>(n, _). Ret (w\<lparr>l_node := Some n\<rparr>)))"

text \<open>The second result is what was sent on \<^verbatim>\<open>errChan\<close>, which ends the run.\<close>

fun run_reserved ::
  "(Disconnector \<Rightarrow> Disconnector go) \<Rightarrow> unit go \<Rightarrow> Reserved list \<Rightarrow> 'c Launched \<Rightarrow> ('c Launched \<times> bool) go" where
  "run_reserved dshut cshut [] w = Ret (w, False)"
| "run_reserved dshut cshut (AnnounceShutdown # rs) w = run_reserved dshut cshut rs w"
| "run_reserved dshut cshut (CallShutdown s # rs) w =
     gbind (call_shutdown dshut cshut s w) (run_reserved dshut cshut rs)"
| "run_reserved dshut cshut (SendNil # rs) w = Ret (w, True)"

section \<open>The programs\<close>

definition anycable_main :: "RpcController Runner \<Rightarrow> RpcController Runner" where
  "anycable_main r =
     SubscriberFactory (\<lambda>c. NewSubscriber (BroadcastAdapter c) (cfg_Redis c) (cfg_HTTPPubSub c))
       (ControllerFactory (\<lambda>m c. let ctl = NewController m (cfg_RPC c) in Inr (ctl, rpc_metrics ctl)) r)"

definition gobench_main :: "unit Runner \<Rightarrow> unit Runner" where
  "gobench_main r =
     SubscriberFactory (\<lambda>c. NewSubscriber (BroadcastAdapter c) (cfg_Redis c) (cfg_HTTPPubSub c))
       (ControllerFactory (\<lambda>m c. Inr ((), gobench_NewController m)) r)"

text \<open>
  What a goroutine sends on \<^verbatim>\<open>errChan\<close> when what it runs has returned, given the servers at that
  moment, and the end of a run that waits while its goroutines return one after the other: the first
  error that is sent. The channel has no buffer and is received from once, so later errors are not seen.
\<close>

fun errChan_report :: "Servers \<Rightarrow> Goroutine \<Rightarrow> error option \<Rightarrow> error option" where
  "errChan_report srvs SubscriberStart (Some err) =
     Some (Err (''!!! Subscriber failed !!!'' @ [CHR 0x0A] @ error_text err))"
| "errChan_report srvs ControllerStart (Some err) =
     Some (Err (''!!! RPC failed !!!'' @ [CHR 0x0A] @ error_text err))"
| "errChan_report srvs (ServeWS p) (Some err) =
     (if Stopped (srv_store srvs p) then None
      else Some (Err (''WebSocket server at '' @ Address (srv_store srvs p) @ '' stopped: '' @ error_text err)))"
| "errChan_report srvs MetricsRun (Some err) =
     Some (Err (''!!! Metrics module failed to start !!!'' @ [CHR 0x0A] @ error_text err))"
| "errChan_report srvs _ _ = None"

fun await_error :: "(Servers \<times> Goroutine \<times> error option) list \<Rightarrow> RunEnd" where
  "await_error [] = Waiting"
| "await_error ((srvs, g, r) # rs) = (case errChan_report srvs g r of
     Some err \<Rightarrow> Failed err
   | None \<Rightarrow> await_error rs)"

text \<open>
  The programs from their arguments on, and the status they exit with: \<open>None\<close> while a program waits
  for its end.
\<close>

definition exit_status :: "RunEnd \<Rightarrow> nat option" where
  "exit_status e = (case e of Failed _ \<Rightarrow> Some 1 | Waiting \<Rightarrow> None | _ \<Rightarrow> Some 0)"

definition anycable_program ::
  "(string list \<Rightarrow> CliVars \<Rightarrow> error + CliVars) \<Rightarrow> string list \<Rightarrow> RunInputs \<Rightarrow> CliVars \<Rightarrow> Servers
   \<Rightarrow> (RpcController Launched \<times> nat option) go" where
  "anycable_program parse args inp vars srvs =
     gbind (NewRunner parse args [] None vars srvs) (\<lambda>(r, vars, srvs).
     gbind (Runner_Run inp vars (anycable_main r) srvs) (\<lambda>(w, e). Ret (w, exit_status e)))"

definition gobench_program ::
  "(string list \<Rightarrow> CliVars \<Rightarrow> error + CliVars) \<Rightarrow> string list \<Rightarrow> RunInputs \<Rightarrow> CliVars \<Rightarrow> Servers
   \<Rightarrow> (unit Launched \<times> nat option) go" where
  "gobench_program parse args inp vars srvs =
     gbind (NewRunner parse args ''GoBenchCable'' None vars srvs) (\<lambda>(r, vars, srvs).
     gbind (Runner_Run inp vars (gobench_main r) srvs) (\<lambda>(w, e). Ret (w, exit_status e)))"

section \<open>Errors of the goroutines\<close>

lemma await_error_status:
  "exit_status (await_error rs) =
     (if \<exists>(srvs, g, r) \<in> set rs. errChan_report srvs g r \<noteq> None then Some 1 else None)"
  by (induction rs rule: await_error.induct) (auto simp: exit_status_def split: option.splits)

lemma errChan_report_silent: "errChan_report srvs g None = None"
  by (cases g) auto

lemma errChan_report_goroutine:
  "errChan_report srvs g r \<noteq> None \<Longrightarrow> g \<notin> {HubRun, CollectStats, DisconnectorRun} \<and> r \<noteq> None"
  by (cases g; cases r) auto

text \<open>A server that was shut down ends its goroutine with an error, which does not end the run.\<close>

lemma stopped_server_silent:
  "call_shutdown dshut cshut (SServer p) w = Ret w' \<Longrightarrow> errChan_report (l_env w') (ServeWS p) r = None"
  by (cases r) (auto simp: on_server_def Server_Shutdown_def Stopped_def)

section \<open>The pools a run announces\<close>

lemma run_server_announces:
  assumes "run_server load r n w = Ret (w', Waiting)"
  shows "announced w' = Some (announceGoPools (l_pools w))"
  using assms
  by (auto simp: run_server_def Let_def startup_error_def gbind_Ret_iff split: prod.splits sum.splits option.splits)

lemma run_services_announces:
  assumes "run_services load r n w = Ret (w', Waiting)"
  shows "announced w' = Some (announceGoPools (l_pools w))"
proof -
  obtain res where res: "initDisconnector r n = Ret res"
    using assms by (auto simp: run_services_def Let_def Node_Start_def gbind_Ret_iff)
  show ?thesis
    using assms res
    by (cases res; cases "initSubscriber r")
      (auto simp: run_services_def Let_def startup_error_def Node_Start_def dest!: run_server_announces)
qed

lemma run_controller_announces:
  assumes "run_controller inp r m w = Ret (w', Waiting)"
  shows "\<exists>reg n. NewNode (in_blank inp) reg (App (r_config r)) = Ret n \<and>
    announced w' = Some (announceGoPools (register_pool (pool (hub n)) (l_pools w)))"
proof (cases "initController r (registry m)")
  case (Inr cm)
  obtain c reg where cm: "cm = (c, reg)" by fastforce
  from assms Inr cm obtain n where n: "NewNode (in_blank inp) reg (App (r_config r)) = Ret n"
    by (auto simp: run_controller_def gbind_Ret_iff)
  with assms Inr cm have "announced w' = Some (announceGoPools (register_pool (pool (hub n)) (l_pools w)))"
    by (auto simp: run_controller_def dest!: run_services_announces)
  with n show ?thesis by blast
qed (use assms in \<open>simp add: run_controller_def startup_error_def\<close>)

text \<open>A run that gets as far as waiting has announced the pool of its node, and no other.\<close>

lemma Runner_Run_announces:
  assumes "Runner_Run inp vars r srvs = Ret (w, Waiting)"
  shows "\<exists>reg n. NewNode (in_blank inp) reg (App (r_config r)) = Ret n \<and>
    announced w = Some (announceGoPools (register_pool (pool (hub n)) []))"
proof -
  obtain srvs' res where "FromConfig (in_mrb inp) (in_load inp) (cfg_Metrics (r_config r)) srvs = Ret (srvs', res)"
    using assms
    by (auto simp: Runner_Run_def Let_def startup_error_def gbind_Ret_iff
        split: if_split_asm prod.split_asm option.split_asm)
  with assms obtain m w0 where "run_controller inp r m w0 = Ret (w, Waiting)" "l_pools w0 = []"
    by (cases res) (auto simp: Runner_Run_def Let_def startup_error_def
        split: if_split_asm prod.split_asm option.split_asm)
  then show ?thesis using run_controller_announces [of inp r m w0 w] by simp
qed

section \<open>What a run has started\<close>

text \<open>How far a run got: the goroutines and the components to shut down, in order.\<close>

definition all_started :: "srvref \<Rightarrow> Goroutine list" where
  "all_started p = [HubRun, CollectStats, DisconnectorRun, SubscriberStart, ControllerStart, ServeWS p, MetricsRun]"

definition all_stoppable :: "srvref \<Rightarrow> Shutdownable list" where
  "all_stoppable p = [SMetrics, SSubscriber, SServer p, SNode]"

definition mounted_at :: "AppConfig \<Rightarrow> srvref \<Rightarrow> Servers \<Rightarrow> bool" where
  "mounted_at cfg p srvs \<longleftrightarrow>
     map_of (allServers srvs) (int_text (cfg_Port cfg)) = Some p \<and>
     map_of (Mux (srv_store srvs p)) (cfg_Path cfg) = Some WebSocketMount \<and>
     map_of (Mux (srv_store srvs p)) (HealthPath cfg) = Some HealthMount"

lemma Mux_Handle_Ret: "Mux_Handle pat h s = Ret s' \<Longrightarrow> Mux s' = mput pat h (Mux s) \<and> \<not> mhas (Mux s) pat"
  by (auto simp: Mux_Handle_def split: if_splits)

lemma ForPort_found: "ForPort load port srvs = (srvs', Inr p) \<Longrightarrow> map_of (allServers srvs') port = Some p"
  by (erule ForPort_cases) (auto simp: gomap_simps)

lemma run_server_end:
  assumes "run_server load r n w = Ret (w', e)"
  shows "l_node w' = l_node w \<and> l_metrics w' = l_metrics w \<and> l_controller w' = l_controller w \<and>
    (case e of
      Waiting \<Rightarrow> \<exists>p. goroutines w' = goroutines w @ [ServeWS p, MetricsRun] \<and>
        shutdownables w' = shutdownables w @ [SServer p, SNode] \<and> mounted_at (r_config r) p (l_env w')
    | Failed _ \<Rightarrow> goroutines w' = goroutines w
    | _ \<Rightarrow> False)"
proof -
  obtain srvs res where f: "ForPort load (int_text (cfg_Port (r_config r))) (l_env w) = (srvs, res)" by fastforce
  show ?thesis
  proof (cases res)
    case (Inl err)
    with assms f show ?thesis by (auto simp: run_server_def Let_def)
  next
    case (Inr p)
    note p = ForPort_found [OF f [unfolded Inr]]
    show ?thesis
    proof (cases "initWebSocketHandler r n")
      case None
      with assms f Inr obtain s1 s2 where
        s: "Mux_Handle (cfg_Path (r_config r)) WebSocketMount (srv_store srvs p) = Ret s1"
          "Mux_Handle (HealthPath (r_config r)) HealthMount s1 = Ret s2"
        and w: "e = Waiting" "goroutines w' = goroutines w @ [ServeWS p, MetricsRun]"
          "shutdownables w' = shutdownables w @ [SServer p, SNode]" "l_env w' = on_server p (\<lambda>_. s2) srvs"
          "l_node w' = l_node w" "l_metrics w' = l_metrics w" "l_controller w' = l_controller w"
        by (auto simp: run_server_def Let_def gbind_Ret_iff)
      have "mounted_at (r_config r) p (l_env w')"
        using p Mux_Handle_Ret [OF s(1)] Mux_Handle_Ret [OF s(2)] w(4)
        by (auto simp: mounted_at_def on_server_def gomap_simps)
      with w show ?thesis by auto
    next
      case (Some err)
      with assms f Inr show ?thesis by (auto simp: run_server_def Let_def startup_error_def)
    qed
  qed
qed

lemma run_services_end:
  assumes "run_services load r n w = Ret (w', e)"
  shows "l_metrics w' = l_metrics w \<and> l_controller w' = l_controller w \<and>
    (case e of
      Waiting \<Rightarrow> \<exists>p d. l_node w' = Some (SetDisconnector d n) \<and>
        goroutines w' = goroutines w @ all_started p \<and>
        shutdownables w' = shutdownables w @ tl (all_stoppable p) \<and> mounted_at (r_config r) p (l_env w')
    | Failed _ \<Rightarrow> (\<forall>p. ServeWS p \<in> set (goroutines w') \<longrightarrow> ServeWS p \<in> set (goroutines w))
    | _ \<Rightarrow> False)"
proof -
  from assms obtain res where d: "initDisconnector r n = Ret res"
    by (auto simp: run_services_def Node_Start_def Let_def gbind_Ret_iff)
  show ?thesis
  proof (cases res)
    case (Inl err)
    with assms d show ?thesis by (auto simp: run_services_def Node_Start_def Let_def startup_error_def)
  next
    case (Inr q)
    show ?thesis
    proof (cases "initSubscriber r")
      case (Inl err)
      with assms d Inr show ?thesis by (auto simp: run_services_def Node_Start_def Let_def)
    next
      case s: (Inr sub)
      let ?w = "w\<lparr>l_node := Some (SetDisconnector q n), l_subscriber := Some sub,
        shutdownables := shutdownables w @ [SSubscriber],
        goroutines := goroutines w @ [HubRun, CollectStats, DisconnectorRun, SubscriberStart, ControllerStart]\<rparr>"
      from assms d Inr s have "run_server load r (SetDisconnector q n) ?w = Ret (w', e)"
        by (simp add: run_services_def Node_Start_def Let_def)
      from run_server_end [OF this] show ?thesis
        by (cases e) (auto simp: all_started_def all_stoppable_def)
    qed
  qed
qed

lemma run_controller_end:
  assumes "run_controller inp r m w = Ret (w', e)" "session_ok (in_blank inp)"
  shows "case e of
      Waiting \<Rightarrow> \<exists>n p c reg. initController r (registry m) = Inr (c, reg) \<and> l_controller w' = Some c \<and>
        l_node w' = Some n \<and> node_started n \<and> l_metrics w' \<noteq> None \<and>
        goroutines w' = goroutines w @ all_started p \<and>
        shutdownables w' = shutdownables w @ tl (all_stoppable p) \<and> mounted_at (r_config r) p (l_env w')
    | Failed _ \<Rightarrow> (\<forall>p. ServeWS p \<in> set (goroutines w') \<longrightarrow> ServeWS p \<in> set (goroutines w))
    | _ \<Rightarrow> False"
proof (cases "initController r (registry m)")
  case (Inl err)
  with assms show ?thesis by (auto simp: run_controller_def startup_error_def)
next
  case (Inr x)
  obtain c reg where x: "x = (c, reg)" by fastforce
  from assms Inr x obtain n where n: "NewNode (in_blank inp) reg (App (r_config r)) = Ret n"
    and s: "run_services (in_load inp) r n
      (w\<lparr>l_controller := Some c, l_metrics := Some (m\<lparr>registry := node_Metrics n\<rparr>),
         l_pools := register_pool (pool (hub n)) (l_pools w)\<rparr>) = Ret (w', e)"
    by (auto simp: run_controller_def gbind_Ret_iff)
  have "node_started (SetDisconnector d n)" for d using n assms(2) unfolding node_started_def by blast
  with run_services_end [OF s] Inr x show ?thesis by (cases e) auto
qed

lemma Runner_Run_end:
  assumes "Runner_Run inp vars r srvs = Ret (w, e)" "session_ok (in_blank inp)"
    and "\<not> showVersion vars" "\<not> showHelp vars"
  shows "case e of
      Waiting \<Rightarrow> \<exists>n p c reg reg'. initController r reg = Inr (c, reg') \<and> l_controller w = Some c \<and>
        l_node w = Some n \<and> node_started n \<and> l_metrics w \<noteq> None \<and>
        goroutines w = all_started p \<and> shutdownables w = all_stoppable p \<and> mounted_at (r_config r) p (l_env w)
    | Failed _ \<Rightarrow> (\<forall>p. ServeWS p \<notin> set (goroutines w))
    | _ \<Rightarrow> False"
proof -
  let ?cfg = "r_config r"
  obtain lg err where l: "InitLogger (in_parse_level inp) (in_tty inp) (LogFormat ?cfg) (LogLevel ?cfg) (in_logger inp) = (lg, err)"
    by fastforce
  show ?thesis
  proof (cases err)
    case (Some e')
    with assms l show ?thesis by (auto simp: Runner_Run_def Let_def startup_error_def)
  next
    case None
    with assms l obtain srvs' res where
      f: "FromConfig (in_mrb inp) (in_load inp) (cfg_Metrics ?cfg) srvs = Ret (srvs', res)"
      by (auto simp: Runner_Run_def Let_def gbind_Ret_iff)
    show ?thesis
    proof (cases res)
      case (Inl e')
      with assms l None f show ?thesis by (auto simp: Runner_Run_def Let_def startup_error_def)
    next
      case (Inr m)
      with assms l None f have "run_controller inp r m
          \<lparr>l_env = srvs', l_metrics = Some m, l_controller = None, l_node = None, l_subscriber = None,
           goroutines = [], shutdownables = [SMetrics], l_pools = [], announced = None\<rparr> = Ret (w, e)"
        by (simp add: Runner_Run_def Let_def)
      note ended = run_controller_end [OF this assms(2)]
      show ?thesis
      proof (cases e)
        case Waiting
        from ended have "\<exists>n p c reg. initController r (registry m) = Inr (c, reg) \<and> l_controller w = Some c \<and>
            l_node w = Some n \<and> node_started n \<and> l_metrics w \<noteq> None \<and>
            goroutines w = all_started p \<and> shutdownables w = all_stoppable p \<and> mounted_at (r_config r) p (l_env w)"
          by (simp add: Waiting all_stoppable_def)
        then show ?thesis unfolding Waiting RunEnd.case by blast
      qed (use ended in auto)
    qed
  qed
qed


text \<open>A run with the defaults, for the witnesses.\<close>

definition demo_inputs :: RunInputs where
  "demo_inputs = \<lparr>in_load = (\<lambda>_ _. None), in_parse_level = (\<lambda>_. Some InfoLevel), in_tty = False,
     in_logger = \<lparr>log_level = None, log_handler = None\<rparr>, in_mrb = False, in_blank = small_session,
     in_version = [], in_modifier = [], in_sha = []\<rparr>"

definition demo_vars :: CliVars where
  "demo_vars = prepareComplexDefaults (cli_init (\<lambda>_. []))"

definition demo_runner :: "RpcController Runner" where
  "demo_runner = anycable_main \<lparr>r_name = ''AnyCable'', r_config = defaults demo_vars,
     controllerFactory = None, disconnectorFactory = None, subscriberFactory = None, websocketHandler = None\<rparr>"

lemma demo_flags: "\<not> showVersion demo_vars" "\<not> showHelp demo_vars"
  by (simp_all add: demo_vars_def prepareComplexDefaults_def cli_init_values)

lemma demo_controller: "initController demo_runner m = Inr (NewController m (cfg_RPC (defaults demo_vars)),
    rpc_metrics (NewController m (cfg_RPC (defaults demo_vars))))"
  by (simp add: initController_def demo_runner_def anycable_main_def ControllerFactory_def SubscriberFactory_def Let_def)

lemma demo_subscriber: "\<exists>sub. initSubscriber demo_runner = Inr sub"
  by (simp add: initSubscriber_def demo_runner_def anycable_main_def ControllerFactory_def SubscriberFactory_def
      NewSubscriber_def demo_vars_def prepareComplexDefaults_def cli_init_values config_New_def Let_def)

lemma demo_disconnector: "\<exists>d. initDisconnector demo_runner n = Ret (Inr d)"
  by (simp add: initDisconnector_def defaultDisconnector_def demo_runner_def anycable_main_def ControllerFactory_def SubscriberFactory_def
      NewDisconnectQueue_def demo_vars_def prepareComplexDefaults_def cli_init_values config_New_def Let_def)

lemma demo_server: "l_env w = demo_servers \<Longrightarrow> \<exists>w'. run_server (\<lambda>_ _. None) demo_runner n w = Ret (w', Waiting)"
  by (simp add: run_server_def Let_def ForPort_def ForPort_check_def ForPort_create_def NewServer_def new_server_def
      demo_servers_def SSL_Available_def NewSSLConfig_def initWebSocketHandler_def Mux_Handle_def gomap_simps
      demo_runner_def anycable_main_def ControllerFactory_def SubscriberFactory_def
      demo_vars_def prepareComplexDefaults_def cli_init_values)

lemma demo_services: "l_env w = demo_servers \<Longrightarrow> \<exists>w'. run_services (\<lambda>_ _. None) demo_runner n w = Ret (w', Waiting)"
proof -
  assume w: "l_env w = demo_servers"
  obtain d sub where "initDisconnector demo_runner n = Ret (Inr d)" "initSubscriber demo_runner = Inr sub"
    using demo_disconnector demo_subscriber by blast
  then show ?thesis by (simp add: run_services_def Node_Start_def Let_def demo_server w)
qed

lemma demo_node: "\<exists>n. NewNode small_session m (App (r_config demo_runner)) = Ret n"
  by (simp add: NewNode_def NewHub_def NewGoPool_positive demo_runner_def anycable_main_def ControllerFactory_def
      SubscriberFactory_def demo_vars_def prepareComplexDefaults_def cli_init_values Let_def)

lemma demo_runs: "\<exists>w. Runner_Run demo_inputs demo_vars demo_runner demo_servers = Ret (w, Waiting)"
proof -
  let ?cfg = "r_config demo_runner"
  have c: "LogFormat ?cfg = ''text''" "\<not> LogEnabled (cfg_Metrics ?cfg)" "\<not> HTTPEnabled (cfg_Metrics ?cfg)"
    "\<not> showVersion demo_vars" "\<not> showHelp demo_vars"
    by (simp_all add: demo_runner_def anycable_main_def ControllerFactory_def SubscriberFactory_def Let_def
        demo_vars_def prepareComplexDefaults_def cli_init_values LogEnabled_def LogFormatterEnabled_def HTTPEnabled_def)
  then have f: "FromConfig False (\<lambda>_ _. None) (cfg_Metrics ?cfg) demo_servers =
      Ret (demo_servers, Inr (NewMetrics [] (m_RotateInterval (cfg_Metrics ?cfg))))"
    by (simp add: FromConfig_def config_writers_def Let_def)
  obtain n where n: "NewNode small_session (rpc_metrics (NewController
      (registry (NewMetrics [] (m_RotateInterval (cfg_Metrics ?cfg)))) (cfg_RPC (defaults demo_vars)))) (App ?cfg) = Ret n"
    using demo_node by blast
  show ?thesis
    by (simp add: Runner_Run_def Let_def c InitLogger_def f n demo_inputs_def run_controller_def demo_controller demo_services)
qed

text \<open>The program without arguments, in an empty environment, gets as far as waiting.\<close>

lemma anycable_starts:
  "\<exists>w. anycable_program (\<lambda>_ v. Inr v) [] demo_inputs (cli_init (\<lambda>_. [])) demo_servers = Ret (w, None)"
proof -
  have "demo_servers\<lparr>srv_SSL := Some (cfg_SSL (defaults demo_vars)), srv_Host := cfg_Host (defaults demo_vars),
      srv_MaxConn := cfg_MaxConn (defaults demo_vars)\<rparr> = demo_servers"
    by (simp add: demo_servers_def demo_vars_def prepareComplexDefaults_def cli_init_values NewSSLConfig_def)
  then have "(NewRunner (\<lambda>_ v. Inr v) [] [] None (cli_init (\<lambda>_. [])) demo_servers ::
      (RpcController Runner \<times> CliVars \<times> Servers) go) = Ret (\<lparr>r_name = ''AnyCable'', r_config = defaults demo_vars, controllerFactory = None, disconnectorFactory = None,
        subscriberFactory = None, websocketHandler = None\<rparr>, demo_vars, demo_servers)"
    by (simp add: NewRunner_def cli_Config_def demo_vars_def [symmetric] Let_def)
  moreover obtain w where "Runner_Run demo_inputs demo_vars demo_runner demo_servers = Ret (w, Waiting)"
    using demo_runs by blast
  ultimately show ?thesis by (simp add: anycable_program_def demo_runner_def exit_status_def)
qed


lemma new_controller_blocks: "with_ticket body (NewController m cfg) = Block"
  by (simp add: with_ticket_def begin_call_def rpc_gauge_def with_gauge_def take_ticket_def NewController_def
      RegisterGauge_def Let_def gomap_simps)

text \<open>
  The server answers before the controller is ready. The goroutine that starts the controller is
  only scheduled when the WebSocket server is; in the state in which the run waits, the controller of
  the program has no semaphore yet, and a call made then waits on the nil channel, which nothing is
  ever sent to: it does not return, whatever the RPC server would answer.
\<close>

theorem early_call_blocks:
  assumes "Runner_Run inp vars (anycable_main r) srvs = Ret (w, Waiting)" "session_ok (in_blank inp)"
    and "\<not> showVersion vars" "\<not> showHelp vars"
  shows "\<exists>c. l_controller w = Some c \<and> rpc_sem c = None \<and> rpc_Authenticate state_at cl sid e c = Block \<and>
    rpc_Subscribe state_at cl sid e idents channel c = Block"
proof -
  from Runner_Run_end [OF assms] obtain c reg reg' where
    "initController (anycable_main r) reg = Inr (c, reg')" and c: "l_controller w = Some c" by auto
  then have "c = NewController reg (cfg_RPC (r_config r))"
    by (auto simp: initController_def anycable_main_def ControllerFactory_def SubscriberFactory_def Let_def)
  then have "rpc_sem c = None" "rpc_Authenticate state_at cl sid e c = Block"
    "rpc_Subscribe state_at cl sid e idents channel c = Block"
    by (simp_all add: rpc_Authenticate_def rpc_Subscribe_def command_call_def new_controller_blocks)
      (simp add: NewController_def Let_def)
  with c show ?thesis by blast
qed

theorem early_call_blocks_witness:
  "\<exists>w c. Runner_Run demo_inputs demo_vars demo_runner demo_servers = Ret (w, Waiting) \<and>
     l_controller w = Some c \<and>
     rpc_Authenticate (\<lambda>_. Conn_Ready) (NewRPCClient demo_conn) ''s1'' (NewSessionEnv ''/cable'' (Some [])) c = Block"
proof -
  obtain w where w: "Runner_Run demo_inputs demo_vars demo_runner demo_servers = Ret (w, Waiting)"
    using demo_runs by blast
  have "session_ok (in_blank demo_inputs)" by (simp add: demo_inputs_def small_session_ok)
  from early_call_blocks [OF w [unfolded demo_runner_def] this demo_flags] w show ?thesis by blast
qed

section \<open>The shutdown of a run\<close>

lemma node_started_idle:
  "node_started n \<Longrightarrow> shutdownCh n \<and> hub_running (hub n) \<and> sessions (hub n) = [] \<and> register_ch (hub n) = []"
  by (auto simp: node_started_def NewNode_def NewHub_def SetDisconnector_def gbind_Ret_iff)

lemma shutdown_node:
  assumes "l_node w = Some n" "node_ok n" "shutdownCh n" "hub_running (hub n)"
    and "closing_room (length (sessions (hub n))) n" "\<forall>d. \<exists>d'. dshut d = Ret d'"
  shows "\<exists>n'. run_reserved dshut (Ret ()) [CallShutdown SNode, SendNil] w = Ret (w\<lparr>l_node := Some n'\<rparr>, True) \<and>
    (\<forall>s \<in> snd ` set (sessions (hub n)). closed (heap n' s) \<and> \<not> Connected (heap n' s)) \<and> \<not> shutdownCh n'"
  using Node_Shutdown_completes [OF assms(2-)] assms(1) by auto

lemma call_subscriber: "\<exists>srvs. call_shutdown dshut cshut SSubscriber w = Ret (w\<lparr>l_env := srvs\<rparr>)"
proof -
  have "\<exists>srvs. w = w\<lparr>l_env := srvs\<rparr>" by (rule exI [of _ "l_env w"]) simp
  then show ?thesis by (auto split: option.split Subscriber.split)
qed

lemma Server_Shutdown_stops: "srv_shutdown (fst (Server_Shutdown down s))"
  by (simp add: Server_Shutdown_def)

lemma Metrics_Shutdown_stops:
  "Metrics_Shutdown down srvs m = (srvs', m') \<Longrightarrow> \<not> ms_shutdownCh m'"
  by (auto simp: Metrics_Shutdown_def split: if_splits)

text \<open>
  C13. What a signal does. The reserved functions are called in order: when the node has room for the
  requests and the disconnector's shutdown returns, they all return, nil is sent to end the run, the
  metrics and the WebSocket server have been shut down, and every session that was registered has
  been closed.
\<close>

theorem shutdown_sequence:
  assumes "Runner_Run inp vars (r :: 'c Runner) srvs = Ret (w0, Waiting)" "session_ok (in_blank inp)"
    and "\<not> showVersion vars" "\<not> showHelp vars"
    and "shutdownables (w :: 'c Launched) = shutdownables w0" "l_metrics w \<noteq> None" "l_node w = Some n"
    and "reachable node_started node_step n" "shutdownCh n" "hub_running (hub n)"
    and "closing_room (length (sessions (hub n))) n" "\<forall>d. \<exists>d'. dshut d = Ret d'"
  shows "\<exists>w' n' m' p.
    run_reserved dshut (Ret ()) (setupSignalHandlers (shutdownables w)) w = Ret (w', True) \<and>
    mounted_at (r_config r) p (l_env w0) \<and> Stopped (srv_store (l_env w') p) \<and>
    l_metrics w' = Some m' \<and> \<not> ms_shutdownCh m' \<and> l_node w' = Some n' \<and> \<not> shutdownCh n' \<and>
    (\<forall>s \<in> snd ` set (sessions (hub n)). closed (heap n' s) \<and> \<not> Connected (heap n' s))"
proof -
  from Runner_Run_end [OF assms(1-4)] assms(5) obtain p where
    p: "shutdownables w = all_stoppable p" "mounted_at (r_config r) p (l_env w0)" by auto
  from assms(6) obtain m where m: "l_metrics w = Some m" by auto
  obtain srvs1 m' where down: "Metrics_Shutdown None (l_env w) m = (srvs1, m')" by fastforce
  define w1 where "w1 = w\<lparr>l_env := srvs1, l_metrics := Some m'\<rparr>"
  have 1: "call_shutdown dshut (Ret ()) SMetrics w = Ret w1" by (simp add: m down w1_def)
  obtain srvs2 where 2: "call_shutdown dshut (Ret ()) SSubscriber w1 = Ret (w1\<lparr>l_env := srvs2\<rparr>)"
    using call_subscriber by blast
  let ?w = "w1\<lparr>l_env := on_server p (\<lambda>s. fst (Server_Shutdown None s)) srvs2\<rparr>"
  have "node_ok n" by (rule node_machine.inv_reachable [OF assms(8)])
  from shutdown_node [of ?w n dshut, OF _ this assms(9-12)] assms(7) obtain n' where
    4: "run_reserved dshut (Ret ()) [CallShutdown SNode, SendNil] ?w = Ret (?w\<lparr>l_node := Some n'\<rparr>, True)"
    and n': "\<forall>s \<in> snd ` set (sessions (hub n)). closed (heap n' s) \<and> \<not> Connected (heap n' s)" "\<not> shutdownCh n'"
    by (auto simp: w1_def)
  have 3: "call_shutdown dshut (Ret ()) (SServer p) (w1\<lparr>l_env := srvs2\<rparr>) = Ret ?w" by simp
  have r: "setupSignalHandlers (shutdownables w) = AnnounceShutdown # CallShutdown SMetrics #
      CallShutdown SSubscriber # CallShutdown (SServer p) # [CallShutdown SNode, SendNil]"
    by (simp add: p setupSignalHandlers_def all_stoppable_def)
  have "run_reserved dshut (Ret ()) (setupSignalHandlers (shutdownables w)) w = Ret (?w\<lparr>l_node := Some n'\<rparr>, True)"
    unfolding r run_reserved.simps(2,3) 1 gbind.simps 2 3 using 4 by simp
  moreover have "Stopped (srv_store (l_env ?w) p)"
    by (simp add: Stopped_def on_server_def Server_Shutdown_stops)
  moreover have "l_metrics ?w = Some m'" "\<not> ms_shutdownCh m'"
    using Metrics_Shutdown_stops [OF down] by (simp_all add: w1_def)
  ultimately show ?thesis using p(2) n' by fastforce
qed

theorem shutdown_sequence_witness:
  "\<exists>w0 (w :: RpcController Launched) w'. Runner_Run demo_inputs demo_vars demo_runner demo_servers = Ret (w0, Waiting) \<and>
     shutdownables w = shutdownables w0 \<and>
     run_reserved Ret (Ret ()) (setupSignalHandlers (shutdownables w)) w = Ret (w', True)"
proof -
  obtain w0 where w0: "Runner_Run demo_inputs demo_vars demo_runner demo_servers = Ret (w0, Waiting)"
    using demo_runs by blast
  have ok: "session_ok (in_blank demo_inputs)" by (simp add: demo_inputs_def small_session_ok)
  obtain n0 where "NewNode small_session \<lparr>counters = [], gauges = []\<rparr> (App (r_config demo_runner)) = Ret n0"
    using demo_node by blast
  then have n: "node_started (SetDisconnector NoopDisconnectQueue n0)" (is "node_started ?n")
    unfolding node_started_def using small_session_ok by blast
  note idle = node_started_idle [OF this]
  have room: "closing_room (length (sessions (hub ?n))) ?n"
    using idle by (simp add: closing_room_def) (simp add: SetDisconnector_def)
  let ?w = "w0\<lparr>l_node := Some ?n\<rparr>"
  have "l_metrics ?w \<noteq> None" using Runner_Run_end [OF w0 ok demo_flags] by auto
  from shutdown_sequence [OF w0 ok demo_flags _ this, of ?n Ret, OF _ _ reach_init [of node_started, OF n]] idle room
  have "\<exists>w'. run_reserved Ret (Ret ()) (setupSignalHandlers (shutdownables ?w)) ?w = Ret (w', True)" by auto
  moreover have "shutdownables ?w = shutdownables w0" by simp
  ultimately show ?thesis using w0 by blast
qed

section \<open>Serving a WebSocket\<close>

lemma reachable_from: "reachable (\<lambda>n. n = n0) step n \<Longrightarrow> init n0 \<Longrightarrow> reachable init step n"
  by (induction rule: reachable.induct) (auto intro: reach_init reach_step)

lemma websocket_handler_events:
  "defaultWebSocketHandler f64 ctl info n = gbind (node_do (Accepted (JSON f64) (info_Url info) (info_Headers info) (info_UID info)) n)
     (\<lambda>n1. gbind (Authenticate ctl (next_session n) n1) (\<lambda>(n2, _, err). Ret (n2, next_session n, err = None)))"
  by (simp add: defaultWebSocketHandler_def NewSession_def Let_def)

lemma Authenticate_error: "Authenticate ctl s n = Ret (n', r) \<Longrightarrow> r = ctl_Authenticate ctl (UID (heap n s)) (env (heap n s))"
  by (auto simp: Authenticate_def gbind_Ret_iff Let_def split: prod.splits if_splits option.splits)

text \<open>
  C12. A WebSocket that a run of the program accepts. Whatever has happened in the node since it was
  started, accepting and authenticating the connection does not panic, leads to a state the node can
  reach, and is followed by the session's reader exactly when the controller reported no error:
  a session that the application rejected is still read from.
\<close>

theorem websocket_served:
  assumes "Runner_Run inp vars r srvs = Ret (w, Waiting)" "session_ok (in_blank inp)"
    and "\<not> showVersion vars" "\<not> showHelp vars"
    and "l_node w = Some n0" "reachable (\<lambda>n. n = n0) node_step n" "controller ctl"
  shows "case defaultWebSocketHandler f64 ctl info n of
      Ret (n', s, serve) \<Rightarrow> s = next_session n \<and> reachable (\<lambda>n. n = n0) node_step n' \<and>
        serve = (snd (ctl_Authenticate ctl (info_UID info) (NewSessionEnv (info_Url info) (info_Headers info))) = None)
    | Panic _ \<Rightarrow> False
    | Block \<Rightarrow> True"
proof -
  let ?acc = "Accepted (JSON f64) (info_Url info) (info_Headers info) (info_UID info)"
  define n1 where "n1 = snd (NewSession (JSON f64) (info_Url info) (info_Headers info) (info_UID info) n)"
  have acc: "event_ok ?acc" "node_do ?acc n = Ret n1" by (simp_all add: json_enc.frame_encoder_axioms n1_def)
  have r1: "reachable (\<lambda>n. n = n0) node_step n1"
    using assms(6) node_step.intros [OF acc] by (rule reach_step)
  have x: "UID (heap n1 (next_session n)) = info_UID info"
    "env (heap n1 (next_session n)) = NewSessionEnv (info_Url info) (info_Headers info)"
    by (simp_all add: n1_def NewSession_def Let_def addPing_def)
  have "node_started n0" using Runner_Run_end [OF assms(1-4)] assms(5) by auto
  then have "node_ok n1" by (rule node_machine.inv_reachable [OF reachable_from [OF r1]])
  moreover have ok: "event_ok (Authenticated ctl (next_session n))" using assms(7) by simp
  ultimately have safe: "safely node_ok (node_do (Authenticated ctl (next_session n)) n1)" by (rule node_do_safe)
  have h: "defaultWebSocketHandler f64 ctl info n = gbind (Authenticate ctl (next_session n) n1)
      (\<lambda>(n2, _, err). Ret (n2, next_session n, err = None))"
    by (simp add: websocket_handler_events n1_def)
  show ?thesis
  proof (cases "Authenticate ctl (next_session n) n1")
    case (Ret y)
    obtain n2 res err where y: "y = (n2, res, err)" by (metis prod.exhaust)
    with Ret have "node_do (Authenticated ctl (next_session n)) n1 = Ret n2" by simp
    with ok have "node_step n1 n2" by (rule node_step.intros)
    with r1 have r2: "reachable (\<lambda>n. n = n0) node_step n2" by (rule reach_step)
    have "ctl_Authenticate ctl (info_UID info) (NewSessionEnv (info_Url info) (info_Headers info)) = (res, err)"
      using Authenticate_error [OF Ret [unfolded y]] x by simp
    with r2 show ?thesis by (simp add: h Ret y)
  qed (use h safe in simp_all)
qed

theorem websocket_served_witness:
  "\<exists>w n. Runner_Run demo_inputs demo_vars demo_runner demo_servers = Ret (w, Waiting) \<and> l_node w = Some n \<and>
     defaultWebSocketHandler (\<lambda>_. None) silent_controller
       \<lparr>info_UID = ''s1'', info_Url = ''/cable'', info_Headers = Some []\<rparr> n \<noteq> Panic nil_deref"
proof -
  obtain w where w: "Runner_Run demo_inputs demo_vars demo_runner demo_servers = Ret (w, Waiting)"
    using demo_runs by blast
  have ok: "session_ok (in_blank demo_inputs)" by (simp add: demo_inputs_def small_session_ok)
  from Runner_Run_end [OF w ok demo_flags] obtain n where n: "l_node w = Some n" by auto
  have "reachable (\<lambda>x. x = n) node_step n" by (rule reach_init) simp
  from websocket_served [OF w ok demo_flags n this silent.controller_axioms, where ?f64.0 = "\<lambda>_. None"
      and info = "\<lparr>info_UID = ''s1'', info_Url = ''/cable'', info_Headers = Some []\<rparr>"]
  have "defaultWebSocketHandler (\<lambda>_. None) silent_controller
      \<lparr>info_UID = ''s1'', info_Url = ''/cable'', info_Headers = Some []\<rparr> n \<noteq> Panic nil_deref"
    by (auto split: go.splits)
  with w n show ?thesis by blast
qed

end
