(* ===== verification/Stats.thy ===== *)
theory Stats
  imports Go_Prelude "HOL-Library.Multiset" "HOL-Library.Signed_Division"
begin

text \<open>
  The duration samples of the benchmarks: \<^verbatim>\<open>stats/stats.go\<close>, and the copy of it that
  \<^verbatim>\<open>cmd/rpcbench/pool/main.go\<close> has. An aggregate keeps its samples in one slice and sorts it when
  it is asked for the first time after an addition. The locale \<open>sample_aggregate\<close> says what such an
  aggregate promises; both implementations are shown to keep it, and so to answer every sequence of
  calls as the multiset of the samples does.

  Durations are nanoseconds as integers; the division of \<^verbatim>\<open>RoundToMS\<close> truncates towards zero.
\<close>

section \<open>The aggregate of the package stats\<close>

definition RoundToMS :: "int \<Rightarrow> int" where
  "RoundToMS d = (d + 500000) sdiv 1000000"

record ResAggregate =
  samples :: "int list"
  sorted_flag :: bool

definition empty_ResAggregate :: ResAggregate where
  "empty_ResAggregate = \<lparr>samples = [], sorted_flag = False\<rparr>"

definition ResAggregate_Add :: "int \<Rightarrow> ResAggregate \<Rightarrow> ResAggregate" where
  "ResAggregate_Add rtt agg = agg\<lparr>samples := samples agg @ [rtt], sorted_flag := False\<rparr>"

definition ResAggregate_Count :: "ResAggregate \<Rightarrow> nat" where
  "ResAggregate_Count agg = length (samples agg)"

definition ResAggregate_sort :: "ResAggregate \<Rightarrow> ResAggregate" where
  "ResAggregate_sort agg =
     (if sorted_flag agg then agg else agg\<lparr>samples := sort (samples agg), sorted_flag := True\<rparr>)"

definition ResAggregate_Min :: "ResAggregate \<Rightarrow> ResAggregate \<times> int" where
  "ResAggregate_Min agg =
     (if ResAggregate_Count agg = 0 then (agg, 0)
      else (let agg = ResAggregate_sort agg in (agg, samples agg ! 0)))"

definition ResAggregate_Max :: "ResAggregate \<Rightarrow> ResAggregate \<times> int" where
  "ResAggregate_Max agg =
     (if ResAggregate_Count agg = 0 then (agg, 0)
      else (let agg = ResAggregate_sort agg in (agg, samples agg ! (length (samples agg) - 1))))"

definition ResAggregate_Percentile :: "int \<Rightarrow> ResAggregate \<Rightarrow> (ResAggregate \<times> int) go" where
  "ResAggregate_Percentile p agg =
     (if p \<le> 0 then Panic ''p must be greater than 0''
      else if 100 \<le> p then Panic ''p must be less 100''
      else
        (let agg = ResAggregate_sort agg; rank = nat p * length (samples agg) div 100 in
         if ResAggregate_Count agg = 0 then Ret (agg, 0)
         else if rank < length (samples agg) then Ret (agg, samples agg ! rank)
         else Panic ''index out of range''))"

lemma sdiv_mono:
  fixes a b c :: int
  assumes "a \<le> b" "0 < c"
  shows "a sdiv c \<le> b sdiv c"
proof -
  have eq: "x sdiv c = (if 0 \<le> x then x div c else - ((- x) div c))" for x
    using assms(2) by (auto simp: signed_divide_int_def sgn_if abs_if)
  have "0 \<le> (- a) div c" if "a < 0" using that assms(2) by (simp add: pos_imp_zdiv_nonneg_iff)
  moreover have "0 \<le> b div c" if "0 \<le> b" using that assms(2) by (simp add: pos_imp_zdiv_nonneg_iff)
  ultimately show ?thesis using assms zdiv_mono1 [of a b c] zdiv_mono1 [of "- b" "- a" c] by (auto simp: eq)
qed

lemma RoundToMS_mono: "a \<le> b \<Longrightarrow> RoundToMS a \<le> RoundToMS b"
  by (simp add: RoundToMS_def sdiv_mono)

section \<open>The aggregate of the pool benchmark\<close>

definition roundToMS :: "int \<Rightarrow> int" where
  "roundToMS d = (d + 500000) sdiv 1000000"

record resAggregate =
  res_samples :: "int list"
  res_sorted :: bool

definition empty_resAggregate :: resAggregate where
  "empty_resAggregate = \<lparr>res_samples = [], res_sorted = False\<rparr>"

definition resAggregate_Add :: "int \<Rightarrow> resAggregate \<Rightarrow> resAggregate" where
  "resAggregate_Add rtt agg = agg\<lparr>res_samples := res_samples agg @ [rtt], res_sorted := False\<rparr>"

definition resAggregate_Count :: "resAggregate \<Rightarrow> nat" where
  "resAggregate_Count agg = length (res_samples agg)"

definition resAggregate_Sort :: "resAggregate \<Rightarrow> resAggregate" where
  "resAggregate_Sort agg =
     (if res_sorted agg then agg else agg\<lparr>res_samples := sort (res_samples agg), res_sorted := True\<rparr>)"

definition resAggregate_Min :: "resAggregate \<Rightarrow> resAggregate \<times> int" where
  "resAggregate_Min agg =
     (if resAggregate_Count agg = 0 then (agg, 0)
      else (let agg = resAggregate_Sort agg in (agg, res_samples agg ! 0)))"

definition resAggregate_Max :: "resAggregate \<Rightarrow> resAggregate \<times> int" where
  "resAggregate_Max agg =
     (if resAggregate_Count agg = 0 then (agg, 0)
      else (let agg = resAggregate_Sort agg in (agg, res_samples agg ! (length (res_samples agg) - 1))))"

definition resAggregate_Percentile :: "int \<Rightarrow> resAggregate \<Rightarrow> (resAggregate \<times> int) go" where
  "resAggregate_Percentile p agg =
     (if p \<le> 0 then Panic ''p must be greater than 0''
      else if 100 \<le> p then Panic ''p must be less 100''
      else
        (let agg = resAggregate_Sort agg; rank = nat p * length (res_samples agg) div 100 in
         if resAggregate_Count agg = 0 then Ret (agg, 0)
         else if rank < length (res_samples agg) then Ret (agg, res_samples agg ! rank)
         else Panic ''index out of range''))"

lemma roundToMS_mono: "a \<le> b \<Longrightarrow> roundToMS a \<le> roundToMS b"
  by (simp add: roundToMS_def sdiv_mono)

section \<open>What an aggregate promises\<close>

definition spec_min :: "int multiset \<Rightarrow> int" where
  "spec_min M = (if M = {#} then 0 else Min (set_mset M))"

definition spec_max :: "int multiset \<Rightarrow> int" where
  "spec_max M = (if M = {#} then 0 else Max (set_mset M))"

definition spec_percentile :: "int \<Rightarrow> int multiset \<Rightarrow> int go" where
  "spec_percentile p M =
     (if p \<le> 0 then Panic ''p must be greater than 0''
      else if 100 \<le> p then Panic ''p must be less 100''
      else Ret (if M = {#} then 0 else sorted_list_of_multiset M ! (nat p * size M div 100)))"

locale sample_aggregate =
  fixes init :: 'a and add :: "int \<Rightarrow> 'a \<Rightarrow> 'a" and minimum maximum :: "'a \<Rightarrow> 'a \<times> int"
    and percentile :: "int \<Rightarrow> 'a \<Rightarrow> ('a \<times> int) go"
    and samples_of :: "'a \<Rightarrow> int multiset" and ok :: "'a \<Rightarrow> bool"
  assumes init: "ok init" "samples_of init = {#}"
    and add: "ok a \<Longrightarrow> ok (add x a) \<and> samples_of (add x a) = add_mset x (samples_of a)"
    and minimum: "ok a \<Longrightarrow> \<exists>a'. minimum a = (a', spec_min (samples_of a)) \<and> ok a' \<and> samples_of a' = samples_of a"
    and maximum: "ok a \<Longrightarrow> \<exists>a'. maximum a = (a', spec_max (samples_of a)) \<and> ok a' \<and> samples_of a' = samples_of a"
    and percentile: "ok a \<Longrightarrow> \<exists>a'. percentile p a = gbind (spec_percentile p (samples_of a)) (\<lambda>v. Ret (a', v)) \<and>
      ok a' \<and> samples_of a' = samples_of a"

datatype AggOp = AddSample int | AskMin | AskMax | AskPercentile int

fun spec_run :: "AggOp list \<Rightarrow> int multiset \<Rightarrow> int list go" where
  "spec_run [] M = Ret []"
| "spec_run (AddSample x # ops) M = spec_run ops (add_mset x M)"
| "spec_run (AskMin # ops) M = gbind (spec_run ops M) (\<lambda>vs. Ret (spec_min M # vs))"
| "spec_run (AskMax # ops) M = gbind (spec_run ops M) (\<lambda>vs. Ret (spec_max M # vs))"
| "spec_run (AskPercentile p # ops) M =
     gbind (spec_percentile p M) (\<lambda>v. gbind (spec_run ops M) (\<lambda>vs. Ret (v # vs)))"

fun agg_run ::
  "(int \<Rightarrow> 'a \<Rightarrow> 'a) \<Rightarrow> ('a \<Rightarrow> 'a \<times> int) \<Rightarrow> ('a \<Rightarrow> 'a \<times> int) \<Rightarrow> (int \<Rightarrow> 'a \<Rightarrow> ('a \<times> int) go) \<Rightarrow>
   AggOp list \<Rightarrow> 'a \<Rightarrow> int list go" where
  "agg_run add mini maxi pct [] a = Ret []"
| "agg_run add mini maxi pct (AddSample x # ops) a = agg_run add mini maxi pct ops (add x a)"
| "agg_run add mini maxi pct (AskMin # ops) a =
     (let (a, v) = mini a in gbind (agg_run add mini maxi pct ops a) (\<lambda>vs. Ret (v # vs)))"
| "agg_run add mini maxi pct (AskMax # ops) a =
     (let (a, v) = maxi a in gbind (agg_run add mini maxi pct ops a) (\<lambda>vs. Ret (v # vs)))"
| "agg_run add mini maxi pct (AskPercentile p # ops) a =
     gbind (pct p a) (\<lambda>(a, v). gbind (agg_run add mini maxi pct ops a) (\<lambda>vs. Ret (v # vs)))"

context sample_aggregate
begin

lemma run_spec: "ok a \<Longrightarrow> agg_run add minimum maximum percentile ops a = spec_run ops (samples_of a)"
proof (induction ops arbitrary: a)
  case (Cons op ops)
  show ?case
  proof (cases op)
    case (AddSample x)
    with Cons add [of a x] show ?thesis by simp
  next
    case AskMin
    with Cons minimum [of a] show ?thesis by auto
  next
    case AskMax
    with Cons maximum [of a] show ?thesis by auto
  next
    case (AskPercentile p)
    with Cons percentile [of a p] show ?thesis by (cases "spec_percentile p (samples_of a)") auto
  qed
qed simp

text \<open>The questions of a report, in its order.\<close>

lemma report:
  assumes "ok a" "0 < p" "p < 100" "0 < q" "q < 100"
  shows "\<exists>a1 a2 a3 a4 u v. percentile p a = Ret (a1, u) \<and> minimum a1 = (a2, spec_min (samples_of a)) \<and>
    percentile q a2 = Ret (a3, v) \<and> maximum a3 = (a4, spec_max (samples_of a)) \<and>
    spec_percentile p (samples_of a) = Ret u \<and> spec_percentile q (samples_of a) = Ret v"
proof -
  obtain u v where uv: "spec_percentile p (samples_of a) = Ret u" "spec_percentile q (samples_of a) = Ret v"
    using assms by (simp add: spec_percentile_def)
  obtain a1 where a1: "percentile p a = Ret (a1, u)" "ok a1" "samples_of a1 = samples_of a"
    using percentile [OF assms(1), of p] uv by auto
  obtain a2 where a2: "minimum a1 = (a2, spec_min (samples_of a))" "ok a2" "samples_of a2 = samples_of a"
    using minimum [OF a1(2)] a1(3) by auto
  obtain a3 where a3: "percentile q a2 = Ret (a3, v)" "ok a3" "samples_of a3 = samples_of a"
    using percentile [OF a2(2), of q] a2(3) uv by auto
  obtain a4 where "maximum a3 = (a4, spec_max (samples_of a))" using maximum [OF a3(2)] a3(3) by auto
  with uv a1 a2 a3 show ?thesis by blast
qed

end

section \<open>Both aggregates keep the promise\<close>

lemma sort_first: "xs \<noteq> [] \<Longrightarrow> sort xs ! 0 = spec_min (mset xs)"
proof -
  assume "xs \<noteq> []"
  then obtain y ys where s: "sort xs = y # ys" by (cases "sort xs") (auto dest: arg_cong [of _ _ length])
  then have "sorted (y # ys)" "set (y # ys) = set xs" by (metis sorted_sort, metis set_sort)
  then have "Min (set xs) = y" by (intro Min_eqI) auto
  with s \<open>xs \<noteq> []\<close> show ?thesis by (simp add: spec_min_def)
qed

lemma sort_last: "xs \<noteq> [] \<Longrightarrow> sort xs ! (length xs - 1) = spec_max (mset xs)"
proof -
  assume xs: "xs \<noteq> []"
  have "sort xs ! i \<le> sort xs ! (length xs - 1)" if "i < length xs" for i
    using that by (intro sorted_nth_mono) auto
  then have "x \<le> sort xs ! (length xs - 1)" if "x \<in> set xs" for x
    using that by (metis in_set_conv_nth length_sort set_sort)
  moreover have "sort xs ! (length xs - 1) \<in> set xs"
    using xs nth_mem [of "length xs - 1" "sort xs"] by simp
  ultimately have "Max (set xs) = sort xs ! (length xs - 1)" by (intro Max_eqI) auto
  with xs show ?thesis by (simp add: spec_max_def)
qed

lemma sort_empty: "sort xs = [] \<longleftrightarrow> xs = []"
  by (metis length_0_conv length_sort)

lemma rank_bound: "0 < n \<Longrightarrow> p < 100 \<Longrightarrow> nat p * n div 100 < n"
  by (simp add: div_less_iff_less_mult)

lemma spec_percentile_order:
  assumes "spec_percentile p M = Ret u" "spec_percentile q M = Ret v" "p \<le> q"
  shows "spec_min M \<le> u \<and> u \<le> v \<and> v \<le> spec_max M"
proof (cases "M = {#}")
  case False
  define xs where "xs = sorted_list_of_multiset M"
  have M: "M = mset xs" and s: "sorted xs" "sort xs = xs" by (simp_all add: xs_def sorted_sort_id)
  with False have xs: "xs \<noteq> []" by auto
  from assms have pq: "0 < p" "q < 100" by (auto simp: spec_percentile_def split: if_splits)
  have rank: "nat p * length xs div 100 \<le> nat q * length xs div 100" "nat q * length xs div 100 < length xs"
    using assms(3) xs pq by (auto intro!: div_le_mono rank_bound)
  have uv: "u = xs ! (nat p * length xs div 100)" "v = xs ! (nat q * length xs div 100)"
    using assms False pq size_mset [of xs] by (auto simp: spec_percentile_def M [symmetric] xs_def [symmetric] split: if_splits)
  have "xs ! 0 \<le> u" "u \<le> v" "v \<le> xs ! (length xs - 1)"
    unfolding uv using rank s(1) xs by (auto intro!: sorted_nth_mono)
  with sort_first [OF xs] sort_last [OF xs] s(2) show ?thesis by (simp add: M)
qed (use assms in \<open>auto simp: spec_percentile_def spec_min_def spec_max_def split: if_splits\<close>)

lemma sorted_samples: "sorted xs \<Longrightarrow> sorted_list_of_multiset (mset xs) = xs"
  by (simp add: sorted_sort_id)

interpretation stats_agg: sample_aggregate empty_ResAggregate ResAggregate_Add ResAggregate_Min ResAggregate_Max ResAggregate_Percentile
  "\<lambda>a. mset (samples a)" "\<lambda>a. sorted_flag a \<longrightarrow> sorted (samples a)"
proof
  show "sorted_flag empty_ResAggregate \<longrightarrow> sorted (samples empty_ResAggregate)" "mset (samples empty_ResAggregate) = {#}"
    by (simp_all add: empty_ResAggregate_def)
next
  fix a :: ResAggregate and x p :: int
  assume ok: "sorted_flag a \<longrightarrow> sorted (samples a)"
  show "(sorted_flag (ResAggregate_Add x a) \<longrightarrow> sorted (samples (ResAggregate_Add x a))) \<and>
      mset (samples (ResAggregate_Add x a)) = add_mset x (mset (samples a))"
    by (simp add: ResAggregate_Add_def)
  let ?a = "ResAggregate_sort a"
  have s: "samples ?a = sort (samples a)" "sorted_flag ?a \<longrightarrow> sorted (samples ?a)"
    using ok by (simp_all add: ResAggregate_sort_def sorted_sort_id)
  show "\<exists>a'. ResAggregate_Min a = (a', spec_min (mset (samples a))) \<and> (sorted_flag a' \<longrightarrow> sorted (samples a')) \<and> mset (samples a') = mset (samples a)"
    using ok s sort_first [of "samples a"] by (auto simp: ResAggregate_Min_def ResAggregate_Count_def spec_min_def Let_def)
  show "\<exists>a'. ResAggregate_Max a = (a', spec_max (mset (samples a))) \<and> (sorted_flag a' \<longrightarrow> sorted (samples a')) \<and> mset (samples a') = mset (samples a)"
    using ok s sort_last [of "samples a"] by (auto simp: ResAggregate_Max_def ResAggregate_Count_def spec_max_def Let_def)
  show "\<exists>a'. ResAggregate_Percentile p a = gbind (spec_percentile p (mset (samples a))) (\<lambda>v. Ret (a', v)) \<and>
      (sorted_flag a' \<longrightarrow> sorted (samples a')) \<and> mset (samples a') = mset (samples a)"
    using s rank_bound [of "length (samples a)" p]
    by (intro exI [of _ ?a]) (auto simp: ResAggregate_Percentile_def ResAggregate_Count_def spec_percentile_def sort_empty Let_def)
qed

interpretation pool_agg: sample_aggregate empty_resAggregate resAggregate_Add resAggregate_Min resAggregate_Max resAggregate_Percentile
  "\<lambda>a. mset (res_samples a)" "\<lambda>a. res_sorted a \<longrightarrow> sorted (res_samples a)"
proof
  show "res_sorted empty_resAggregate \<longrightarrow> sorted (res_samples empty_resAggregate)" "mset (res_samples empty_resAggregate) = {#}"
    by (simp_all add: empty_resAggregate_def)
next
  fix a :: resAggregate and x p :: int
  assume ok: "res_sorted a \<longrightarrow> sorted (res_samples a)"
  show "(res_sorted (resAggregate_Add x a) \<longrightarrow> sorted (res_samples (resAggregate_Add x a))) \<and>
      mset (res_samples (resAggregate_Add x a)) = add_mset x (mset (res_samples a))"
    by (simp add: resAggregate_Add_def)
  let ?a = "resAggregate_Sort a"
  have s: "res_samples ?a = sort (res_samples a)" "res_sorted ?a \<longrightarrow> sorted (res_samples ?a)"
    using ok by (simp_all add: resAggregate_Sort_def sorted_sort_id)
  show "\<exists>a'. resAggregate_Min a = (a', spec_min (mset (res_samples a))) \<and> (res_sorted a' \<longrightarrow> sorted (res_samples a')) \<and> mset (res_samples a') = mset (res_samples a)"
    using ok s sort_first [of "res_samples a"] by (auto simp: resAggregate_Min_def resAggregate_Count_def spec_min_def Let_def)
  show "\<exists>a'. resAggregate_Max a = (a', spec_max (mset (res_samples a))) \<and> (res_sorted a' \<longrightarrow> sorted (res_samples a')) \<and> mset (res_samples a') = mset (res_samples a)"
    using ok s sort_last [of "res_samples a"] by (auto simp: resAggregate_Max_def resAggregate_Count_def spec_max_def Let_def)
  show "\<exists>a'. resAggregate_Percentile p a = gbind (spec_percentile p (mset (res_samples a))) (\<lambda>v. Ret (a', v)) \<and>
      (res_sorted a' \<longrightarrow> sorted (res_samples a')) \<and> mset (res_samples a') = mset (res_samples a)"
    using s rank_bound [of "length (res_samples a)" p]
    by (intro exI [of _ ?a]) (auto simp: resAggregate_Percentile_def resAggregate_Count_def spec_percentile_def sort_empty Let_def)
qed

text \<open>
  C37. Keeping the samples sorted lazily changes no answer. Whatever is added and asked in whatever
  order, the aggregate of the package and its copy in the pool benchmark return the same values,
  which are those of the multiset of the samples added so far: its least and greatest element, the
  element of rank \<open>p * n div 100\<close> of its sorted list, and 0 while it is empty; and they panic for
  the same percentiles. In particular no rank is ever out of range.
\<close>

theorem aggregates_agree:
  "agg_run ResAggregate_Add ResAggregate_Min ResAggregate_Max ResAggregate_Percentile ops empty_ResAggregate =
     spec_run ops {#} \<and>
   agg_run resAggregate_Add resAggregate_Min resAggregate_Max resAggregate_Percentile ops empty_resAggregate =
     spec_run ops {#}"
  using stats_agg.run_spec [of empty_ResAggregate] pool_agg.run_spec [of empty_resAggregate]
    stats_agg.init pool_agg.init by simp

text \<open>A percentile in terms of the samples: how many lie below it and how many up to it.\<close>

lemma sorted_nth_counts:
  assumes "sorted xs" "i < length xs"
  shows "size (filter_mset (\<lambda>x. x < xs ! i) (mset xs)) \<le> i \<and> i < size (filter_mset (\<lambda>x. x \<le> xs ! i) (mset xs))"
proof
  have below: "{j. j < length xs \<and> xs ! j < xs ! i} \<subseteq> {..<i}"
    using assms sorted_nth_mono [of xs i] by (auto simp: not_le [symmetric])
  have "length (filter (\<lambda>x. x < xs ! i) xs) = card {j. j < length xs \<and> xs ! j < xs ! i}"
    by (rule length_filter_conv_card)
  also have "\<dots> \<le> card {..<i}" using below by (intro card_mono) auto
  finally show "size (filter_mset (\<lambda>x. x < xs ! i) (mset xs)) \<le> i" by (simp flip: mset_filter)
  have upto: "{..i} \<subseteq> {j. j < length xs \<and> xs ! j \<le> xs ! i}"
    using assms sorted_nth_mono [of xs _ i] by auto
  have "card {..i} \<le> card {j. j < length xs \<and> xs ! j \<le> xs ! i}" using upto by (intro card_mono) auto
  then show "i < size (filter_mset (\<lambda>x. x \<le> xs ! i) (mset xs))"
    by (simp add: length_filter_conv_card flip: mset_filter)
qed

lemma percentile_counts:
  assumes "0 < p" "p < 100" "M \<noteq> {#}"
  shows "\<exists>v. spec_percentile p M = Ret v \<and> size (filter_mset (\<lambda>x. x < v) M) \<le> nat p * size M div 100 \<and>
     nat p * size M div 100 < size (filter_mset (\<lambda>x. x \<le> v) M)"
proof -
  define xs where "xs = sorted_list_of_multiset M"
  have xs: "sorted xs" "mset xs = M" "length xs = size M" by (simp_all add: xs_def flip: size_mset)
  have "0 < size M" using assms(3) by (simp add: nonempty_has_size)
  then have "nat p * size M div 100 < length xs" using assms rank_bound [of "size M" p] xs(3) by simp
  from sorted_nth_counts [OF xs(1) this] xs(2) assms show ?thesis
    by (simp add: spec_percentile_def flip: xs_def)
qed

end
