(* ===== verification/Channel_Pool.thy ===== *)
theory Channel_Pool
  imports Server "HOL-Library.Multiset"
begin

text \<open>
  The pool of gRPC connections of \<^verbatim>\<open>pool/pool.go\<close>. Connections are numbered in the order in which
  the factory makes them; \<open>made\<close>, \<open>handed\<close> and \<open>closed_conns\<close> record what became of each of them.
  The factory and closing a connection belong to the gRPC library: \<open>dial\<close> is the error the factory
  returns, if any, and \<open>cl\<close> the error of closing.

  Taking a connection from an empty pool is in two steps, as in the code, where nothing keeps the
  pool from being closed between the \<^verbatim>\<open>select\<close> and the call of the factory.
\<close>

section \<open>The pool\<close>

type_synonym connref = nat

record channelPool =
  conns :: "connref list option"
  conns_cap :: nat
  activeCount :: int
  factory :: bool
  made :: nat
  handed :: "connref list"
  closed_conns :: "connref list"

definition errClosed :: error where
  "errClosed = Err ''pool is closed''"

definition wrapConn :: "connref \<Rightarrow> channelPool \<Rightarrow> channelPool" where
  "wrapConn c p = p\<lparr>activeCount := activeCount p + 1, handed := handed p @ [c]\<rparr>"

definition close_conn :: "connref \<Rightarrow> channelPool \<Rightarrow> channelPool" where
  "close_conn c p = p\<lparr>closed_conns := closed_conns p @ [c]\<rparr>"

definition channelPool_Close :: "channelPool \<Rightarrow> channelPool" where
  "channelPool_Close p =
     (let p' = p\<lparr>conns := None, factory := False\<rparr> in
      case conns p of None \<Rightarrow> p' | Some cs \<Rightarrow> fold close_conn cs p')"

text \<open>The connections a new pool starts with, from what the factory returns for each of them.\<close>

fun fill_pool :: "nat \<Rightarrow> (nat \<Rightarrow> error option) \<Rightarrow> channelPool \<Rightarrow> channelPool \<times> error option" where
  "fill_pool 0 dial p = (p, None)"
| "fill_pool (Suc k) dial p = (case dial (made p) of
     Some err \<Rightarrow>
       (channelPool_Close p, Some (Err (''factory is not able to fill the pool: '' @ error_text err)))
   | None \<Rightarrow> fill_pool k dial (p\<lparr>made := Suc (made p), conns := map_option (\<lambda>cs. cs @ [made p]) (conns p)\<rparr>))"

definition NewChannelPool :: "int \<Rightarrow> int \<Rightarrow> (nat \<Rightarrow> error option) \<Rightarrow> channelPool \<times> error option" where
  "NewChannelPool initialCap maxCap dial =
     (let p = \<lparr>conns = Some [], conns_cap = nat maxCap, activeCount = 0, factory = True, made = 0,
              handed = [], closed_conns = []\<rparr>
      in if initialCap < 0 \<or> maxCap \<le> 0 \<or> initialCap > maxCap
         then (p\<lparr>conns := None, factory := False\<rparr>, Some (Err ''invalid capacity settings''))
         else fill_pool (nat initialCap) dial p)"

definition Get_make :: "error option \<Rightarrow> channelPool \<Rightarrow> (channelPool \<times> (error + connref)) go" where
  "Get_make dial p =
     (if \<not> factory p then Panic nil_deref
      else case dial of
        Some err \<Rightarrow> Ret (p, Inl err)
      | None \<Rightarrow> Ret (wrapConn (made p) (p\<lparr>made := Suc (made p)\<rparr>), Inr (made p)))"

text \<open>\<open>None\<close> where the pool is empty and the factory is called next.\<close>

definition Get_select :: "channelPool \<Rightarrow> (channelPool \<times> (error + connref)) option" where
  "Get_select p = (case conns p of
     None \<Rightarrow> Some (p, Inl errClosed)
   | Some (c # cs) \<Rightarrow> Some (wrapConn c (p\<lparr>conns := Some cs\<rparr>), Inr c)
   | Some [] \<Rightarrow> None)"

definition Pool_Get :: "error option \<Rightarrow> channelPool \<Rightarrow> (channelPool \<times> (error + connref)) go" where
  "Pool_Get dial p = (case Get_select p of Some r \<Rightarrow> Ret r | None \<Rightarrow> Get_make dial p)"

definition Pool_put :: "error option \<Rightarrow> connref \<Rightarrow> channelPool \<Rightarrow> channelPool \<times> error option" where
  "Pool_put cl c p =
     (let p = p\<lparr>activeCount := activeCount p - 1, handed := remove1 c (handed p)\<rparr> in
      case conns p of
        None \<Rightarrow> (close_conn c p, cl)
      | Some cs \<Rightarrow>
          if length cs < conns_cap p then (p\<lparr>conns := Some (cs @ [c])\<rparr>, None)
          else (close_conn c p, cl))"

definition Busy :: "channelPool \<Rightarrow> int" where
  "Busy p = activeCount p"

definition Available :: "channelPool \<Rightarrow> nat" where
  "Available p = (case conns p of None \<Rightarrow> 0 | Some cs \<Rightarrow> length cs)"

section \<open>Every connection is accounted for\<close>

inductive conns_step :: "channelPool \<Rightarrow> channelPool \<Rightarrow> bool" where
  got: "Pool_Get dial p = Ret (p', r) \<Longrightarrow> conns_step p p'"
| returned: "c \<in> set (handed p) \<Longrightarrow> Pool_put cl c p = (p', r) \<Longrightarrow> conns_step p p'"
| shut: "conns_step p (channelPool_Close p)"

definition conns_created :: "channelPool \<Rightarrow> bool" where
  "conns_created p \<longleftrightarrow> (\<exists>i m dial err. NewChannelPool i m dial = (p, err))"

definition conns_inv :: "channelPool \<Rightarrow> bool" where
  "conns_inv p \<longleftrightarrow>
     mset (case conns p of None \<Rightarrow> [] | Some cs \<Rightarrow> cs) + mset (handed p) + mset (closed_conns p) =
       mset [0..<made p] \<and>
     activeCount p = int (length (handed p)) \<and> Available p \<le> conns_cap p \<and> (factory p \<longleftrightarrow> conns p \<noteq> None)"

lemma fold_close_conn: "fold close_conn cs p = p\<lparr>closed_conns := closed_conns p @ cs\<rparr>"
  by (induction cs arbitrary: p) (simp_all add: close_conn_def)

lemma pool_inv_Close: "conns_inv p \<Longrightarrow> conns_inv (channelPool_Close p)"
  by (cases "conns p")
    (auto simp: conns_inv_def channelPool_Close_def Available_def fold_close_conn ac_simps)

lemma fill_pool_inv:
  "conns_inv p \<Longrightarrow> conns p = Some cs \<Longrightarrow> length cs + k \<le> conns_cap p \<Longrightarrow> conns_inv (fst (fill_pool k dial p))"
proof (induction k arbitrary: p cs)
  case (Suc k)
  show ?case
  proof (cases "dial (made p)")
    case None
    let ?p = "p\<lparr>made := Suc (made p), conns := Some (cs @ [made p])\<rparr>"
    have "conns_inv ?p" using Suc.prems by (auto simp: conns_inv_def Available_def ac_simps)
    from Suc.IH [OF this] Suc.prems None show ?thesis by simp
  next
    case (Some err)
    with Suc.prems pool_inv_Close show ?thesis by simp
  qed
qed simp

lemma pool_inv_init: "conns_created p \<Longrightarrow> conns_inv p"
proof -
  assume "conns_created p"
  then obtain i m dial err where p: "NewChannelPool i m dial = (p, err)" by (auto simp: conns_created_def)
  let ?p = "\<lparr>conns = Some [], conns_cap = nat m, activeCount = 0, factory = True, made = 0,
              handed = [], closed_conns = []\<rparr>"
  show ?thesis
  proof (cases "i < 0 \<or> m \<le> 0 \<or> i > m")
    case True
    with p show ?thesis by (auto simp: NewChannelPool_def Let_def conns_inv_def Available_def)
  next
    case False
    have "conns_inv (fst (fill_pool (nat i) dial ?p))"
      using False by (intro fill_pool_inv [where cs = "[]"]) (auto simp: conns_inv_def Available_def)
    with p False show ?thesis by (auto simp: NewChannelPool_def Let_def)
  qed
qed

lemma Pool_put_inv:
  assumes "conns_inv p" "c \<in> set (handed p)"
  shows "conns_inv (fst (Pool_put cl c p))"
proof -
  obtain hs where hs: "remove1 c (handed p) = hs" by simp
  have m: "mset (handed p) = add_mset c (mset hs)" using assms(2) by (simp flip: hs)
  then have "length (handed p) = Suc (length hs)" by (metis size_add_mset size_mset)
  with assms(1) m hs show ?thesis
    by (cases "conns p")
      (simp_all add: Pool_put_def close_conn_def conns_inv_def Available_def Let_def del: mset_remove1)
qed

lemma mset_upt_Suc: "mset_set {0..<Suc n} = add_mset n (mset_set {0..<n})"
  by (simp add: atLeast0_lessThan_Suc)

lemma conn_pool_inv_step: "conns_inv p \<Longrightarrow> conns_step p p' \<Longrightarrow> conns_inv p'"
proof (erule conns_step.cases)
  fix dial q q' r
  assume inv: "conns_inv p" and q: "p = q" "p' = q'" "Pool_Get dial q = Ret (q', r)"
  then show "conns_inv p'"
    by (auto simp: Pool_Get_def Get_select_def Get_make_def wrapConn_def conns_inv_def Available_def mset_upt_Suc ac_simps
        split: option.splits list.splits if_splits)
next
  fix c q cl q' r
  assume inv: "conns_inv p" and q: "p = q" "p' = q'" "c \<in> set (handed q)" "Pool_put cl c q = (q', r)"
  then show "conns_inv p'" using Pool_put_inv [of q c cl] by simp
next
  fix q
  assume "conns_inv p" "p = q" "p' = channelPool_Close q"
  then show "conns_inv p'" using pool_inv_Close by simp
qed

interpretation conn_pool: invariant_of conns_created conns_step conns_inv
  by unfold_locales (erule pool_inv_init, erule (1) conn_pool_inv_step)

text \<open>
  C38. The connection pool loses no connection. After any calls from its creation on, failed creation
  included, every connection the factory made is in exactly one place: idle in the pool, handed
  out, or closed. \<^verbatim>\<open>Busy\<close> is the number of those handed out, never more than the maximum are
  idle, and once the pool is closed and everything was returned every connection has been closed.
\<close>

theorem pool_connections:
  assumes "reachable conns_created conns_step p"
  shows "mset (case conns p of None \<Rightarrow> [] | Some cs \<Rightarrow> cs) + mset (handed p) + mset (closed_conns p) =
      mset [0..<made p] \<and>
    Busy p = int (length (handed p)) \<and> Available p \<le> conns_cap p \<and>
    (conns p = None \<and> handed p = [] \<longrightarrow> mset (closed_conns p) = mset [0..<made p])"
  using conn_pool.inv_reachable [OF assms] by (auto simp: conns_inv_def Busy_def)

theorem pool_connections_witness:
  "\<exists>p. reachable conns_created conns_step p \<and> conns p = None \<and> handed p = [] \<and> made p = 2 \<and>
     mset (closed_conns p) = mset [0..<2]"
proof -
  define p where "p = fst (NewChannelPool 2 5 (\<lambda>_. None))"
  have "conns_created p" unfolding conns_created_def p_def by (metis prod.collapse)
  then have "reachable conns_created conns_step p" by (rule reach_init)
  then have r: "reachable conns_created conns_step (channelPool_Close p)"
    using conns_step.shut by (rule reach_step)
  have p: "conns (channelPool_Close p) = None" "handed (channelPool_Close p) = []" "made (channelPool_Close p) = 2"
    by (simp_all add: p_def NewChannelPool_def channelPool_Close_def close_conn_def Let_def eval_nat_numeral)
  from pool_connections [OF r] p show ?thesis by (intro exI [of _ "channelPool_Close p"]) (simp add: r)
qed

text \<open>A pool closed between the \<^verbatim>\<open>select\<close> and the call of the factory makes the caller panic.\<close>

lemma closed_while_getting: "Get_select p = None \<Longrightarrow> Get_make dial (channelPool_Close p) = Panic nil_deref"
  by (auto simp: Get_select_def Get_make_def channelPool_Close_def fold_close_conn split: option.splits list.splits)

end
