(* ===== verification/Benchmark.thy ===== *)
theory Benchmark
  imports Rpc Stats Channel_Pool Logging Metrics_Run
begin

text \<open>
  The two RPC benchmarks, \<^verbatim>\<open>cmd/rpcbench/main.go\<close>, which drives the RPC controller, and
  \<^verbatim>\<open>cmd/rpcbench/pool/main.go\<close>, which drives gRPC connections from a pool or a single one, with a
  retry loop of its own. Parsing the command line, the ring buffer of requests and the clock belong
  to libraries: the options are arguments, a request taken from the buffer is a turn of a worker and
  a duration is what the clock says. A worker's answers arrive at the main goroutine as a list.
\<close>

section \<open>Options\<close>

record bench_Options =
  bo_host :: string
  bo_capacity :: int
  bo_concurrency :: int
  bo_total :: int
  bo_channel :: string
  bo_action :: string
  bo_mode :: string
  bo_debug :: bool

definition bench_parseOptions :: bench_Options where
  "bench_parseOptions = \<lparr>bo_host = ''localhost:50051'', bo_capacity = 30, bo_concurrency = 10,
     bo_total = 1000, bo_channel = ''BenchmarkChannel'', bo_action = ''echo'', bo_mode = ''perform'',
     bo_debug = False\<rparr>"

record pool_Options =
  po_host :: string
  po_capacity :: int
  po_initialCapacity :: int
  po_concurrency :: int
  po_total :: int
  po_pool :: bool
  po_debug :: bool

definition pool_parseOptions :: pool_Options where
  "pool_parseOptions = \<lparr>po_host = ''localhost:50051'', po_capacity = 30, po_initialCapacity = 10,
     po_concurrency = 10, po_total = 1000, po_pool = False, po_debug = False\<rparr>"

section \<open>Collecting the answers\<close>

text \<open>
  The main loop of both benchmarks: it takes one answer after the other, an error or a duration,
  until there are as many as requests, and waits when there is none.
\<close>

fun collect :: "(int \<Rightarrow> 'a \<Rightarrow> 'a) \<Rightarrow> int \<Rightarrow> (error + int) list \<Rightarrow> 'a \<times> int \<times> int \<Rightarrow> ('a \<times> int \<times> int) go" where
  "collect add requests [] (agg, completed, failures) =
     (if completed < requests then Block else Ret (agg, completed, failures))"
| "collect add requests (a # as) (agg, completed, failures) =
     (if completed < requests then
        (case a of
           Inr result \<Rightarrow> collect add requests as (add result agg, completed + 1, failures)
         | Inl err \<Rightarrow> collect add requests as (agg, completed + 1, failures + 1))
      else Ret (agg, completed, failures))"

definition bench_printResults :: "ResAggregate \<Rightarrow> (int \<times> int \<times> int \<times> int) go" where
  "bench_printResults res =
     gbind (ResAggregate_Percentile 95 res) (\<lambda>(res, p95).
     (let (res, mn) = ResAggregate_Min res in
      gbind (ResAggregate_Percentile 50 res) (\<lambda>(res, med).
      (let (res, mx) = ResAggregate_Max res in
       Ret (RoundToMS p95, RoundToMS mn, RoundToMS med, RoundToMS mx)))))"

definition pool_printResults :: "resAggregate \<Rightarrow> (int \<times> int \<times> int \<times> int) go" where
  "pool_printResults res =
     gbind (resAggregate_Percentile 95 res) (\<lambda>(res, p95).
     (let (res, mn) = resAggregate_Min res in
      gbind (resAggregate_Percentile 50 res) (\<lambda>(res, med).
      (let (res, mx) = resAggregate_Max res in
       Ret (roundToMS p95, roundToMS mn, roundToMS med, roundToMS mx)))))"

definition printMetrics :: "Metrics \<Rightarrow> 64 word option" where
  "printMetrics m =
     (let retries = (case map_of (IntervalSnapshot m) ''rpc_retries_total'' of None \<Rightarrow> 0 | Some v \<Rightarrow> v)
      in if 0 < retries then Some retries else None)"

section \<open>The benchmark of the controller\<close>

record Benchmark =
  b_rpc :: RpcController
  b_perform :: bool
  b_channel :: string
  b_action :: string

text \<open>The setup in \<^verbatim>\<open>main\<close>, up to the workers.\<close>

definition new_benchmark ::
  "(rpc_Config \<Rightarrow> grpcClientHelper option \<times> error option) \<Rightarrow> bench_Options \<Rightarrow> Benchmark go" where
  "new_benchmark dialer options =
     (let cfg = rpc_NewConfig\<lparr>Concurrency := bo_capacity options, Host := bo_host options\<rparr>;
          m = registry (NewMetrics [] 0)
      in gbind (Start dialer (NewController m cfg)) (\<lambda>(c, err).
         if err \<noteq> None then Panic ''Failed to initialize RPC''
         else Ret \<lparr>b_rpc = c, b_perform = (bo_mode options = ''perform''),
                b_channel = state_text [(''channel'', bo_channel options)],
                b_action = state_text [(''action'', bo_action options)]\<rparr>))"

definition bench_env :: SessionEnv where
  "bench_env = \<lparr>URL = ''/cable'', Headers = Some [(''cookie'', ''test_id=rpc-bench'')],
     ConnectionState = None, ChannelStates = None\<rparr>"

text \<open>
  A worker first authenticates. It reads the identifiers of the result before it looks at the
  error. \<open>None\<close> is a worker that gave up.
\<close>

definition worker_auth ::
  "(nat \<Rightarrow> Connectivity) \<Rightarrow> RPCClient \<Rightarrow> error + string \<Rightarrow> Benchmark \<Rightarrow> (Benchmark \<times> (string \<times> string) option) go" where
  "worker_auth state_at cl nanoid b = (case nanoid of
     Inl _ \<Rightarrow> Panic ''Nanoid failed''
   | Inr uuid \<Rightarrow>
       gbind (rpc_Authenticate state_at cl uuid bench_env (b_rpc b)) (\<lambda>(c, res, err). case res of
         None \<Rightarrow> Panic nil_deref
       | Some r \<Rightarrow>
           Ret (b\<lparr>b_rpc := c\<rparr>, if err \<noteq> None then None else Some (uuid, conn_Identifier r))))"

definition worker_turn ::
  "(nat \<Rightarrow> Connectivity) \<Rightarrow> RPCClient \<Rightarrow> int \<Rightarrow> string \<times> string \<Rightarrow> Benchmark \<Rightarrow> (Benchmark \<times> (error + int)) go" where
  "worker_turn state_at cl since ids b = (case ids of (uuid, idents) \<Rightarrow>
     gbind (if b_perform b
            then gbind (rpc_Perform state_at cl uuid bench_env idents (b_channel b) (b_action b) (b_rpc b))
                   (\<lambda>(c, _, err). Ret (c, err))
            else gbind (rpc_Authenticate state_at cl uuid bench_env (b_rpc b)) (\<lambda>(c, _, err). Ret (c, err)))
       (\<lambda>(c, err). Ret (b\<lparr>b_rpc := c\<rparr>, case err of Some e \<Rightarrow> Inl e | None \<Rightarrow> Inr since)))"

section \<open>The benchmark of the pool\<close>

text \<open>The counters \<^verbatim>\<open>retryCount\<close> and \<^verbatim>\<open>retryTime\<close>.\<close>

record RetryStats =
  retryCount :: "64 word"
  retryTime :: "64 word"

text \<open>
  The retry loop: unlike the controller's it looks at no connection state and retries every error
  that carries a gRPC code.
\<close>

definition pool_delay :: "nat \<Rightarrow> nat \<Rightarrow> bool \<Rightarrow> nat \<times> nat \<times> bool" where
  "pool_delay code attempt wasExhausted =
     (if code = ResourceExhausted
      then (let attempt = (if \<not> wasExhausted then 0 else attempt) in (2 ^ attempt * 10, attempt, True))
      else (let attempt = (if wasExhausted then 0 else attempt) in (2 ^ attempt * 100, attempt, False)))"

lemma pool_delay_positive: "pool_delay code attempt ex = (d, a, ex') \<Longrightarrow> 10 \<le> d"
  by (auto simp: pool_delay_def Let_def split: if_splits)

function pool_retry_loop ::
  "(nat \<Rightarrow> 'r \<times> error option) \<Rightarrow> nat \<Rightarrow> nat \<Rightarrow> nat \<Rightarrow> bool \<Rightarrow> RetryStats \<Rightarrow> RetryStats \<times> 'r option \<times> error option" where
  "pool_retry_loop callback k retryAge attempt wasExhausted st = (case callback k of
     (res, None) \<Rightarrow> (st, Some res, None)
   | (_, Some err) \<Rightarrow>
       if 3000 < retryAge then (st, None, Some err)
       else (case FromError err of
         None \<Rightarrow> (st, None, Some err)
       | Some code \<Rightarrow>
           (case pool_delay code attempt wasExhausted of (delay, attempt, wasExhausted) \<Rightarrow>
              pool_retry_loop callback (Suc k) (retryAge + delay) (Suc attempt) wasExhausted
                (st\<lparr>retryCount := retryCount st + 1, retryTime := retryTime st + of_nat delay\<rparr>))))"
  by pat_completeness auto
termination
  by (relation "measure (\<lambda>(_, _, age, _). 3001 - age)")
    (auto dest!: pool_delay_positive [OF sym])

declare pool_retry_loop.simps [simp del]

definition pool_retry ::
  "(nat \<Rightarrow> 'r \<times> error option) \<Rightarrow> RetryStats \<Rightarrow> RetryStats \<times> 'r option \<times> error option" where
  "pool_retry callback = pool_retry_loop callback 0 0 0 False"

definition pool_request :: "string \<Rightarrow> ConnectionRequest" where
  "pool_request cookie = \<lparr>creq_Env = \<lparr>Url = ''/cable'', env_Headers = [(''cookie'', cookie)],
     env_Cstate = None, env_Istate = None\<rparr>\<rparr>"

definition connect_with ::
  "RPCClient \<Rightarrow> string \<Rightarrow> RetryStats \<Rightarrow> RetryStats \<times> error option" where
  "connect_with cl cookie st =
     (let (st, _, err) = pool_retry (\<lambda>k. client_Connect cl [] (pool_request cookie) k) st in (st, err))"

text \<open>\<open>client c\<close> is the client on connection \<open>c\<close>; the connection goes back whatever happens.\<close>

definition performPoolRequest ::
  "error option \<Rightarrow> error option \<Rightarrow> (connref \<Rightarrow> RPCClient) \<Rightarrow> channelPool \<times> RetryStats
   \<Rightarrow> ((channelPool \<times> RetryStats) \<times> error option) go" where
  "performPoolRequest dial cl client = (\<lambda>(p, st).
     gbind (Pool_Get dial p) (\<lambda>(p, r). case r of
       Inl err \<Rightarrow> Ret ((p, st), Some err)
     | Inr c \<Rightarrow>
         (let (st, err) = connect_with (client c) ''test_id=pool'' st;
              (p, _) = Pool_put cl c p
          in Ret ((p, st), err))))"

text \<open>With a single connection a semaphore limits the requests: its tickets and its capacity.\<close>

definition performRequest ::
  "RPCClient \<Rightarrow> (nat \<times> nat) \<times> RetryStats \<Rightarrow> (((nat \<times> nat) \<times> RetryStats) \<times> error option) go" where
  "performRequest client = (\<lambda>((t, cap), st).
     if t = 0 then Block
     else
       (let (st, err) = connect_with client ''test_id=mono'' st; t = t - 1
        in if t < cap then Ret (((Suc t, cap), st), err) else Block))"

section \<open>The programs\<close>

text \<open>
  The workers run as goroutines; the order in which they take their turns is an argument: the number
  of the worker and what the clock says of the turn. A worker that gave up takes none. There are as
  many requests in the buffer as the total.
\<close>

fun start_workers ::
  "(nat \<Rightarrow> Connectivity) \<Rightarrow> RPCClient \<Rightarrow> (error + string) list \<Rightarrow> Benchmark
   \<Rightarrow> (Benchmark \<times> (string \<times> string) option list) go" where
  "start_workers state_at cl [] b = Ret (b, [])"
| "start_workers state_at cl (nanoid # ns) b =
     gbind (worker_auth state_at cl nanoid b) (\<lambda>(b, ids).
     gbind (start_workers state_at cl ns b) (\<lambda>(b, rest). Ret (b, ids # rest)))"

fun work_through ::
  "(nat \<times> int \<Rightarrow> 'b \<Rightarrow> ('b \<times> (error + int)) go) \<Rightarrow> (nat \<times> int) list \<Rightarrow> 'b \<Rightarrow> ('b \<times> (error + int) list) go" where
  "work_through turn [] b = Ret (b, [])"
| "work_through turn (t # ts) b =
     gbind (turn t b) (\<lambda>(b, a). gbind (work_through turn ts b) (\<lambda>(b, as). Ret (b, a # as)))"

definition bench_turn ::
  "(nat \<Rightarrow> Connectivity) \<Rightarrow> RPCClient \<Rightarrow> (string \<times> string) option list \<Rightarrow> nat \<times> int \<Rightarrow> Benchmark
   \<Rightarrow> (Benchmark \<times> (error + int)) go" where
  "bench_turn state_at cl ws t b = (case t of (i, since) \<Rightarrow>
     if i < length ws then (case ws ! i of Some ids \<Rightarrow> worker_turn state_at cl since ids b | None \<Rightarrow> Block)
     else Block)"

text \<open>A program exits with an error, or reports: the four durations, the retries and the failures.\<close>

datatype 'r BenchEnd = BenchExit string | BenchReport "int \<times> int \<times> int \<times> int" 'r "(int \<times> int) option"

definition failed_line :: "int \<Rightarrow> int \<Rightarrow> (int \<times> int) option" where
  "failed_line failures completed = (if 0 < failures then Some (failures, completed) else None)"

definition bench_main ::
  "(string \<Rightarrow> LogLevel option) \<Rightarrow> bool \<Rightarrow> Logger \<Rightarrow> (rpc_Config \<Rightarrow> grpcClientHelper option \<times> error option)
   \<Rightarrow> (nat \<Rightarrow> Connectivity) \<Rightarrow> RPCClient \<Rightarrow> (error + string) list \<Rightarrow> (nat \<times> int) list \<Rightarrow> bench_Options
   \<Rightarrow> 64 word option BenchEnd go" where
  "bench_main parse_level isTTY logger dialer state_at cl nanoids turns options =
     (case InitLogger parse_level isTTY ''text'' (if bo_debug options then ''debug'' else ''info'') logger of
        (_, Some err) \<Rightarrow> Ret (BenchExit (''!!! Failed to initialize logger !!!'' @ [CHR 0x0A] @ error_text err))
      | (_, None) \<Rightarrow>
          gbind (new_benchmark dialer options) (\<lambda>b.
          gbind (start_workers state_at cl (take (nat (bo_concurrency options)) nanoids) b) (\<lambda>(b, ws).
          gbind (work_through (bench_turn state_at cl ws) (take (nat (bo_total options)) turns) b) (\<lambda>(b, answers).
          gbind (collect ResAggregate_Add (bo_total options) answers (empty_ResAggregate, 0, 0))
            (\<lambda>(agg, completed, failures).
          gbind (bench_printResults agg) (\<lambda>res.
          Ret (BenchReport res (printMetrics (rpc_metrics (b_rpc b))) (failed_line failures completed))))))))"

text \<open>The pool benchmark works with a pool or with one connection and a semaphore.\<close>

datatype PoolBenchmark = WithPool channelPool | WithConn "nat \<times> nat"

definition new_pool_benchmark :: "(nat \<Rightarrow> error option) \<Rightarrow> pool_Options \<Rightarrow> (string + PoolBenchmark) go" where
  "new_pool_benchmark dial options =
     (if po_pool options then
        (case NewChannelPool (po_initialCapacity options) (po_capacity options) dial of
           (_, Some err) \<Rightarrow> Ret (Inl (''!!! Failed to intialize RPC pool !!!'' @ [CHR 0x0A] @ error_text err))
         | (p, None) \<Rightarrow> Ret (Inr (WithPool p)))
      else
        (case dial 0 of
           Some err \<Rightarrow> Ret (Inl (''!!! Failed to intialize RPC connection !!!'' @ [CHR 0x0A] @ error_text err))
         | None \<Rightarrow>
             if po_capacity options < 0 then Panic ''makechan: size out of range''
             else Ret (Inr (WithConn (nat (po_capacity options), nat (po_capacity options))))))"

definition pool_turn ::
  "(nat \<Rightarrow> error option) \<Rightarrow> error option \<Rightarrow> (connref \<Rightarrow> RPCClient) \<Rightarrow> nat \<times> int \<Rightarrow> PoolBenchmark \<times> RetryStats
   \<Rightarrow> ((PoolBenchmark \<times> RetryStats) \<times> (error + int)) go" where
  "pool_turn dial closing client t = (\<lambda>(b, st).
     gbind (case b of
         WithPool p \<Rightarrow> gbind (performPoolRequest (dial (made p)) closing client (p, st)) (\<lambda>((p, st), err).
           Ret ((WithPool p, st), err))
       | WithConn s \<Rightarrow> gbind (performRequest (client 0) (s, st)) (\<lambda>((s, st), err). Ret ((WithConn s, st), err)))
     (\<lambda>(bst, err). Ret (bst, case err of Some e \<Rightarrow> Inl e | None \<Rightarrow> Inr (snd t))))"

definition pool_main ::
  "(string \<Rightarrow> LogLevel option) \<Rightarrow> bool \<Rightarrow> Logger \<Rightarrow> (nat \<Rightarrow> error option) \<Rightarrow> error option \<Rightarrow> (connref \<Rightarrow> RPCClient)
   \<Rightarrow> (nat \<times> int) list \<Rightarrow> pool_Options \<Rightarrow> RetryStats option BenchEnd go" where
  "pool_main parse_level isTTY logger dial closing client turns options =
     (case InitLogger parse_level isTTY ''text'' (if po_debug options then ''debug'' else ''info'') logger of
        (_, Some err) \<Rightarrow> Ret (BenchExit (''!!! Failed to initialize logger !!!'' @ [CHR 0x0A] @ error_text err))
      | (_, None) \<Rightarrow>
          gbind (new_pool_benchmark dial options) (\<lambda>r. case r of
            Inl msg \<Rightarrow> Ret (BenchExit msg)
          | Inr b \<Rightarrow>
              gbind (work_through (pool_turn dial closing client) (take (nat (po_total options)) turns)
                  (b, \<lparr>retryCount = 0, retryTime = 0\<rparr>)) (\<lambda>((b, st), answers).
              gbind (collect resAggregate_Add (po_total options) answers (empty_resAggregate, 0, 0))
                (\<lambda>(agg, completed, failures).
              gbind (pool_printResults agg) (\<lambda>res.
              Ret (BenchReport res (if 0 < retryCount st then Some st else None) (failed_line failures completed)))))))"

section \<open>What the benchmarks report\<close>

definition durations :: "(error + int) list \<Rightarrow> int list" where
  "durations as = concat (map (\<lambda>a. case a of Inl _ \<Rightarrow> [] | Inr d \<Rightarrow> [d]) as)"

definition errors_in :: "(error + int) list \<Rightarrow> nat" where
  "errors_in as = length (filter isl as)"

lemma collect_spec:
  "0 \<le> left \<Longrightarrow> collect add (completed + left) as (agg, completed, failures) =
     (if length as < nat left then Block
      else Ret (fold add (durations (take (nat left) as)) agg, completed + left,
        failures + int (errors_in (take (nat left) as))))"
proof (induction as arbitrary: left agg completed failures)
  case (Cons a as)
  show ?case
  proof (cases "left = 0")
    case False
    define k where "k = nat (left - 1)"
    with False Cons.prems have left: "left = 1 + int k" by simp
    have IH: "collect add (completed + (1 + int k)) as (agg, completed + 1, failures) =
        (if length as < k then Block
         else Ret (fold add (durations (take k as)) agg, completed + (1 + int k),
           failures + int (errors_in (take k as))))"
      for agg failures
      using Cons.IH [of "int k" "completed + 1"] by (simp add: algebra_simps)
    show ?thesis
      using False Cons.prems by (cases a) (simp_all add: IH left nat_add_distrib durations_def errors_in_def)
  qed (simp add: durations_def errors_in_def)
qed (auto simp: durations_def errors_in_def)

lemma fold_ResAggregate_Add:
  "samples (fold ResAggregate_Add ds agg) = samples agg @ ds"
  by (induction ds arbitrary: agg) (simp_all add: ResAggregate_Add_def)

text \<open>
  What the benchmark reports: with as many answers as requests the main loop ends, having counted
  every request once, as failed when its answer was an error and with its duration among the samples
  when not; with fewer answers it waits for good.
\<close>

theorem benchmark_collects:
  assumes "0 \<le> requests"
  shows "case collect ResAggregate_Add requests answers (empty_ResAggregate, 0, 0) of
     Block \<Rightarrow> length answers < nat requests
   | Panic e \<Rightarrow> False
   | Ret (agg, completed, failures) \<Rightarrow> nat requests \<le> length answers \<and> completed = requests \<and>
       samples agg = durations (take (nat requests) answers) \<and>
       failures = int (errors_in (take (nat requests) answers)) \<and>
       int (length (samples agg)) + failures = completed"
proof -
  have "int (length (durations as)) + int (errors_in as) = int (length as)" for as
    by (induction as) (auto simp: durations_def errors_in_def split: sum.splits)
  from this [of "take (nat requests) answers"] show ?thesis
    using assms collect_spec [of requests ResAggregate_Add 0 answers empty_ResAggregate 0]
    by (auto simp: fold_ResAggregate_Add empty_ResAggregate_def)
qed

theorem benchmark_collects_witness:
  "\<exists>agg. collect ResAggregate_Add 3 [Inr 5, Inl (Err ''timeout''), Inr 2, Inr 9] (empty_ResAggregate, 0, 0) =
     Ret (agg, 3, 1) \<and> samples agg = [5, 2]"
  using benchmark_collects [of 3 "[Inr 5, Inl (Err ''timeout''), Inr 2, Inr 9]"]
  by (simp add: durations_def errors_in_def)

section \<open>Requests over the pool\<close>

lemma Pool_Get_returns:
  assumes "conns_inv p"
  obtains p' r where "Pool_Get dial p = Ret (p', r)"
  using assms by (fastforce simp: Pool_Get_def Get_select_def Get_make_def conns_inv_def split: option.splits list.splits)

lemma Pool_Get_Inr:
  "Pool_Get dial p = Ret (p', Inr c) \<Longrightarrow> c \<in> set (handed p') \<and> activeCount p' = activeCount p + 1"
  by (auto simp: Pool_Get_def Get_select_def Get_make_def wrapConn_def split: option.splits list.splits if_splits)

lemma Pool_Get_Inl: "Pool_Get dial p = Ret (p', Inl e) \<Longrightarrow> activeCount p' = activeCount p"
  by (auto simp: Pool_Get_def Get_select_def Get_make_def split: option.splits list.splits if_splits)

lemma Pool_put_count: "Pool_put cl c p = (p', r) \<Longrightarrow> activeCount p' = activeCount p - 1"
  by (auto simp: Pool_put_def close_conn_def Let_def split: option.splits if_splits)

text \<open>
  A request of the pool benchmark returns and gives its connection back: whatever the factory and
  the server answer, a pool that came about by its operations does not panic, is again such a pool
  afterwards and has as many connections in use as before.
\<close>

theorem pool_request_returns:
  assumes "reachable conns_created conns_step p"
  shows "\<exists>p' st' err. performPoolRequest dial cl client (p, st) = Ret ((p', st'), err) \<and>
     reachable conns_created conns_step p' \<and> Busy p' = Busy p"
proof -
  obtain p1 r where g: "Pool_Get dial p = Ret (p1, r)"
    using conn_pool.inv_reachable [OF assms] by (rule Pool_Get_returns)
  have r1: "reachable conns_created conns_step p1"
    using assms conns_step.got [OF g] by (rule reach_step)
  show ?thesis
  proof (cases r)
    case (Inl e)
    with g r1 Pool_Get_Inl [of dial p p1 e] show ?thesis by (simp add: performPoolRequest_def Busy_def)
  next
    case (Inr c)
    obtain st' err where c: "connect_with (client c) ''test_id=pool'' st = (st', err)" by fastforce
    obtain p2 e where p2: "Pool_put cl c p1 = (p2, e)" by fastforce
    have "c \<in> set (handed p1)" "activeCount p1 = activeCount p + 1"
      using Pool_Get_Inr [of dial p p1 c] g Inr by simp_all
    moreover have "reachable conns_created conns_step p2"
      using r1 conns_step.returned [OF calculation(1) p2] by (rule reach_step)
    ultimately show ?thesis
      using g Inr c p2 Pool_put_count [OF p2] by (simp add: performPoolRequest_def Busy_def)
  qed
qed

theorem pool_request_returns_witness:
  "\<exists>p p' st' err. NewChannelPool 1 2 (\<lambda>_. None) = (p, None) \<and>
     performPoolRequest None None (\<lambda>_. \<lparr>client_Connect = \<lambda>_ _ _. (None, Some (Err ''down'')),
        client_Command = \<lambda>_ _ _. (None, None), client_Disconnect = \<lambda>_ _ _. (None, None)\<rparr>)
       (p, \<lparr>retryCount = 0, retryTime = 0\<rparr>) = Ret ((p', st'), err) \<and> Busy p' = Busy p"
proof -
  let ?cl = "\<lparr>client_Connect = \<lambda>_ _ _. (None, Some (Err ''down'')),
        client_Command = \<lambda>_ _ _. (None, None), client_Disconnect = \<lambda>_ _ _. (None, None)\<rparr>"
  obtain p where p: "NewChannelPool 1 2 (\<lambda>_. None) = (p, None)" by (simp add: NewChannelPool_def Let_def)
  then have "conns_created p" unfolding conns_created_def by blast
  then have "reachable conns_created conns_step p" by (rule reach_init)
  from pool_request_returns [OF this, of None None "\<lambda>_. ?cl" "\<lparr>retryCount = 0, retryTime = 0\<rparr>"] p
  show ?thesis by blast
qed

text \<open>A worker whose first authentication fails panics: it reads the identifiers of the missing result.\<close>

lemma worker_auth_panics:
  "rpc_Authenticate state_at cl uuid bench_env (b_rpc b) = Ret (c, None, Some err) \<Longrightarrow>
   worker_auth state_at cl (Inr uuid) b = Panic nil_deref"
  by (simp add: worker_auth_def)

section \<open>What the pool benchmark reports\<close>

lemma pool_printResults_order:
  assumes "res_sorted agg \<longrightarrow> sorted (res_samples agg)"
  shows "\<exists>p95 mn med mx. pool_printResults agg = Ret (p95, mn, med, mx) \<and> mn \<le> med \<and> med \<le> p95 \<and> p95 \<le> mx"
proof -
  obtain a1 a2 a3 a4 u v where
    r: "resAggregate_Percentile 95 agg = Ret (a1, u)" "resAggregate_Min a1 = (a2, spec_min (mset (res_samples agg)))"
      "resAggregate_Percentile 50 a2 = Ret (a3, v)" "resAggregate_Max a3 = (a4, spec_max (mset (res_samples agg)))"
    and uv: "spec_percentile 95 (mset (res_samples agg)) = Ret u" "spec_percentile 50 (mset (res_samples agg)) = Ret v"
    using pool_agg.report [OF assms, of 95 50] by auto
  from spec_percentile_order [OF uv(2,1)] show ?thesis
    by (simp add: pool_printResults_def r roundToMS_mono)
qed

lemma fold_resAggregate_Add:
  "res_sorted agg \<longrightarrow> sorted (res_samples agg) \<Longrightarrow>
   res_sorted (fold resAggregate_Add ds agg) \<longrightarrow> sorted (res_samples (fold resAggregate_Add ds agg))"
  by (induction ds arbitrary: agg) (simp_all add: resAggregate_Add_def)

text \<open>A benchmark as its turns keep it: a pool that came about by its operations, or some tickets.\<close>

definition bench_ok :: "PoolBenchmark \<Rightarrow> bool" where
  "bench_ok b = (case b of
     WithPool p \<Rightarrow> reachable conns_created conns_step p
   | WithConn (t, cap) \<Rightarrow> 0 < t \<and> t = cap)"

lemma pool_turn_returns:
  assumes "bench_ok b"
  shows "\<exists>b' st' a. pool_turn dial closing client t (b, st) = Ret ((b', st'), a) \<and> bench_ok b'"
proof (cases b)
  case (WithPool p)
  with assms have "reachable conns_created conns_step p" by (simp add: bench_ok_def)
  from pool_request_returns [OF this, of "dial (made p)" closing client st] WithPool show ?thesis
    by (auto simp: pool_turn_def bench_ok_def)
next
  case (WithConn s)
  obtain n cap where s: "s = (n, cap)" by fastforce
  obtain st' err where "connect_with (client 0) ''test_id=mono'' st = (st', err)" by fastforce
  with assms WithConn s show ?thesis by (auto simp: pool_turn_def bench_ok_def performRequest_def Let_def)
qed

lemma pool_work_returns:
  assumes "bench_ok b"
  shows "\<exists>b' st' as. work_through (pool_turn dial closing client) ts (b, st) = Ret ((b', st'), as) \<and> length as = length ts"
  using assms
proof (induction ts arbitrary: b st)
  case (Cons t ts)
  obtain b1 st1 a where 1: "pool_turn dial closing client t (b, st) = Ret ((b1, st1), a)" "bench_ok b1"
    using pool_turn_returns [OF Cons.prems] by blast
  from Cons.IH [OF 1(2), of st1] 1(1) show ?case by auto
qed simp

lemma new_pool_benchmark_ok:
  assumes "new_pool_benchmark dial options = Ret (Inr b)" "po_pool options \<or> 0 < po_capacity options"
  shows "bench_ok b"
proof (cases "po_pool options")
  case True
  obtain p err where p: "NewChannelPool (po_initialCapacity options) (po_capacity options) dial = (p, err)" by fastforce
  then have "conns_created p" unfolding conns_created_def by blast
  then have "reachable conns_created conns_step p" by (rule reach_init)
  with assms(1) True p show ?thesis by (auto simp: new_pool_benchmark_def bench_ok_def split: option.splits)
next
  case False
  with assms show ?thesis by (auto simp: new_pool_benchmark_def bench_ok_def split: option.splits if_splits)
qed



end
