(* ===== verification/Diagnostics.thy ===== *)
theory Diagnostics
  imports Options
begin

text \<open>
  The diagnostics of \<^verbatim>\<open>diagnostics/diagnostics_gops.go\<close>, which a program built with them runs before
  \<^verbatim>\<open>main\<close>. The profiler's agent is third-party code: \<open>agent\<close> is the error of starting it. A fatal
  error is logged and ends the program, here as \<open>Inl\<close> with the message.
\<close>

record Profiling =
  BlockProfileRate :: "int option"
  MutexProfileFraction :: "int option"
  pprof_server :: bool

text \<open>A setting from the environment: absent, a number, or fatal.\<close>

definition profile_setting :: "(string \<Rightarrow> string) \<Rightarrow> string \<Rightarrow> string \<Rightarrow> string + int option" where
  "profile_setting Getenv name complaint =
     (if Getenv name = [] then Inr None
      else case Atoi (Getenv name) of
        None \<Rightarrow> Inl (complaint @ Getenv name)
      | Some val \<Rightarrow> Inr (Some val))"

definition diagnostics_init :: "error option \<Rightarrow> (string \<Rightarrow> string) \<Rightarrow> string + Profiling" where
  "diagnostics_init agent Getenv = (case agent of
     Some err \<Rightarrow> Inl (error_text err)
   | None \<Rightarrow>
       (case profile_setting Getenv ''BLOCK_PROFILE_RATE'' ''Invalid value for block profile rate: '' of
          Inl msg \<Rightarrow> Inl msg
        | Inr block \<Rightarrow>
            (case profile_setting Getenv ''MUTEX_PROFILE_FRACTION'' ''Invalid value for mutex profile fraction: '' of
               Inl msg \<Rightarrow> Inl msg
             | Inr mutex \<Rightarrow> Inr \<lparr>BlockProfileRate = block, MutexProfileFraction = mutex,
                 pprof_server = (block \<noteq> None \<or> mutex \<noteq> None)\<rparr>)))"

lemma profile_setting_Inr:
  "profile_setting Getenv name complaint = Inr v \<longleftrightarrow>
     (if Getenv name = [] then v = None else v = Atoi (Getenv name) \<and> v \<noteq> None)"
  by (auto simp: profile_setting_def split: option.splits)

text \<open>
  The program goes on exactly when the agent listens and every setting that is there is a number; it
  then has these settings, and the profiling server exactly when there is one of them.
\<close>

lemma diagnostics_outcome:
  "diagnostics_init agent Getenv = Inr d \<longleftrightarrow> agent = None \<and>
     (\<forall>name \<in> {''BLOCK_PROFILE_RATE'', ''MUTEX_PROFILE_FRACTION''}. Getenv name = [] \<or> Atoi (Getenv name) \<noteq> None) \<and>
     d = \<lparr>BlockProfileRate = (if Getenv ''BLOCK_PROFILE_RATE'' = [] then None else Atoi (Getenv ''BLOCK_PROFILE_RATE'')),
       MutexProfileFraction = (if Getenv ''MUTEX_PROFILE_FRACTION'' = [] then None else Atoi (Getenv ''MUTEX_PROFILE_FRACTION'')),
       pprof_server = (Getenv ''BLOCK_PROFILE_RATE'' \<noteq> [] \<or> Getenv ''MUTEX_PROFILE_FRACTION'' \<noteq> [])\<rparr>"
  by (auto simp: diagnostics_init_def profile_setting_def split: option.splits sum.splits if_splits)

end
