(* ===== verification/Mruby.thy ===== *)
theory Mruby
  imports Metrics_Run
begin

text \<open>
  The embedded Ruby of \<^verbatim>\<open>mrb/mrb.go\<close> and the printer of \<^verbatim>\<open>metrics/custom_printer.go\<close> that formats the
  metrics with it. The Ruby machine itself is third-party code: its operations are the fields of
  \<open>RubyLib\<close>, on machines of an arbitrary type. What the engine adds is the lock, the compile context
  and the parser, which have to be released on every path; \<open>open_contexts\<close> and \<open>open_parsers\<close> count
  those that are open.
\<close>

section \<open>The engine\<close>

record 'v RubyLib =
  NewMrb :: 'v
  Parser_Parse :: "string \<Rightarrow> string \<Rightarrow> 'v \<Rightarrow> 'v \<times> error option"
  VM_Run :: "'v \<Rightarrow> 'v \<times> error option"
  VM_LoadString :: "string \<Rightarrow> 'v \<Rightarrow> 'v \<times> (error + string)"

record 'v Engine =
  VM :: 'v
  engine_mu :: bool
  open_contexts :: nat
  open_parsers :: nat

definition NewEngine :: "'v RubyLib \<Rightarrow> 'v Engine" where
  "NewEngine lib = \<lparr>VM = NewMrb lib, engine_mu = False, open_contexts = 0, open_parsers = 0\<rparr>"

text \<open>The variable \<^verbatim>\<open>defaultEngine\<close> is the argument and its new value the result.\<close>

definition DefaultEngine :: "'v RubyLib \<Rightarrow> 'v Engine option \<Rightarrow> 'v Engine" where
  "DefaultEngine lib shared = (case shared of None \<Rightarrow> NewEngine lib | Some e \<Rightarrow> e)"

text \<open>The deferred calls of \<^verbatim>\<open>LoadString\<close>, before and after there is a parser.\<close>

definition release_context :: "'v Engine \<Rightarrow> 'v Engine" where
  "release_context e = e\<lparr>open_contexts := open_contexts e - 1, engine_mu := False\<rparr>"

definition release_parser :: "'v Engine \<Rightarrow> 'v Engine" where
  "release_parser e = release_context (e\<lparr>open_parsers := open_parsers e - 1\<rparr>)"

definition Engine_LoadString ::
  "'v RubyLib \<Rightarrow> error + string \<Rightarrow> string \<Rightarrow> 'v Engine \<Rightarrow> ('v Engine \<times> error option) go" where
  "Engine_LoadString lib nanoid contents e =
     (if engine_mu e then Block
      else
        (let e = e\<lparr>engine_mu := True, open_contexts := Suc (open_contexts e)\<rparr> in
         case nanoid of
           Inl err \<Rightarrow> Ret (release_context e, Some err)
         | Inr filename \<Rightarrow>
             (let e = e\<lparr>open_parsers := Suc (open_parsers e)\<rparr>;
                  (vm, err) = Parser_Parse lib (filename @ ''.rb'') contents (VM e);
                  e = e\<lparr>VM := vm\<rparr>
              in if err \<noteq> None then Ret (release_parser e, err)
                 else (let (vm, err) = VM_Run lib (VM e) in Ret (release_parser (e\<lparr>VM := vm\<rparr>), err)))))"

definition Engine_LoadFile ::
  "'v RubyLib \<Rightarrow> error + string \<Rightarrow> (string \<Rightarrow> error + string) \<Rightarrow> string \<Rightarrow> 'v Engine \<Rightarrow> ('v Engine \<times> error option) go" where
  "Engine_LoadFile lib nanoid ReadFile path e = (case ReadFile path of
     Inl err \<Rightarrow> Ret (e, Some err)
   | Inr contents \<Rightarrow> Engine_LoadString lib nanoid contents e)"

definition Engine_Eval :: "'v RubyLib \<Rightarrow> string \<Rightarrow> 'v Engine \<Rightarrow> 'v Engine \<times> (error + string)" where
  "Engine_Eval lib code e = (let (vm, r) = VM_LoadString lib code (VM e) in (e\<lparr>VM := vm\<rparr>, r))"

section \<open>The version\<close>

text \<open>\<^verbatim>\<open>strings.TrimSpace\<close>: the white space of Unicode, in UTF-8.\<close>

definition space_runes :: "string list" where
  "space_runes =
     [[CHR 0x09], [CHR 0x0A], [CHR 0x0B], [CHR 0x0C], [CHR 0x0D], [CHR 0x20], [CHR 0xC2, CHR 0x85],
      [CHR 0xC2, CHR 0xA0], [CHR 0xE1, CHR 0x9A, CHR 0x80]] @
     map (\<lambda>n. [CHR 0xE2, CHR 0x80, char_of n]) ([128..<139] @ [168, 169, 175 :: nat]) @
     [[CHR 0xE2, CHR 0x81, CHR 0x9F], [CHR 0xE3, CHR 0x80, CHR 0x80]]"

definition leading_space :: "string list \<Rightarrow> string \<Rightarrow> nat" where
  "leading_space runes s = (case filter (\<lambda>r. take (length r) s = r) runes of [] \<Rightarrow> 0 | r # _ \<Rightarrow> length r)"

lemma leading_space_le: "leading_space runes s \<le> length s"
proof (cases "filter (\<lambda>r. take (length r) s = r) runes")
  case (Cons r rs)
  then have "r \<in> set (filter (\<lambda>r. take (length r) s = r) runes)" by simp
  then have "take (length r) s = r" by simp
  then have "length r \<le> length s" by (metis length_take min.absorb_iff2 min.commute)
  with Cons show ?thesis by (simp add: leading_space_def)
qed (simp add: leading_space_def)

function trim_left :: "string list \<Rightarrow> string \<Rightarrow> string" where
  "trim_left runes s = (if leading_space runes s = 0 then s else trim_left runes (drop (leading_space runes s) s))"
  by pat_completeness auto
termination
proof (relation "measure (\<lambda>(_, s). length s)")
  fix runes and s :: string
  assume "leading_space runes s \<noteq> 0"
  with leading_space_le [of runes s] show "((runes, drop (leading_space runes s) s), runes, s) \<in> measure (\<lambda>(_, s). length s)"
    by auto
qed simp

declare trim_left.simps [simp del]

definition TrimSpace :: "string \<Rightarrow> string" where
  "TrimSpace s = rev (trim_left (map rev space_runes) (rev (trim_left space_runes s)))"

definition mrb_Version :: "'v RubyLib \<Rightarrow> 'v Engine option \<Rightarrow> 'v Engine \<times> (error + string)" where
  "mrb_Version lib shared =
     (case Engine_Eval lib ''MRUBY_DESCRIPTION'' (DefaultEngine lib shared) of
        (e, Inl err) \<Rightarrow> (e, Inl err)
      | (e, Inr v) \<Rightarrow> (e, Inr (TrimSpace v)))"

section \<open>The printer\<close>

text \<open>
  Running the printer loads its script; it then asks the script to format every snapshot. \<open>call\<close> is
  what the script makes of the hash of a snapshot. The first component is the level of the line.
\<close>

definition RubyPrinter_Run ::
  "'v RubyLib \<Rightarrow> error + string \<Rightarrow> (string \<Rightarrow> error + string) \<Rightarrow> string \<Rightarrow> 'v Engine option \<Rightarrow> ('v Engine \<times> error option) go" where
  "RubyPrinter_Run lib nanoid ReadFile path shared = Engine_LoadFile lib nanoid ReadFile path (DefaultEngine lib shared)"

datatype ScriptLine = ScriptInfo string | ScriptError string

definition RubyPrinter_Print :: "((string, 64 word) gomap \<Rightarrow> error + string) \<Rightarrow> (string, 64 word) gomap \<Rightarrow> ScriptLine" where
  "RubyPrinter_Print call snapshot = (case call (fold (\<lambda>(k, v) hash. mput k v hash) snapshot []) of
     Inl err \<Rightarrow> ScriptError (error_text err)
   | Inr line \<Rightarrow> ScriptInfo line)"

section \<open>What the engine keeps\<close>

text \<open>Loading code into a free engine returns on every path with the engine free and everything closed.\<close>

lemma LoadString_releases:
  assumes "\<not> engine_mu e"
  shows "\<exists>e' err. Engine_LoadString lib nanoid contents e = Ret (e', err) \<and> \<not> engine_mu e' \<and>
    open_contexts e' = open_contexts e \<and> open_parsers e' = open_parsers e"
  using assms
  by (auto simp: Engine_LoadString_def release_parser_def release_context_def Let_def split: sum.split prod.split)

lemma LoadFile_releases:
  assumes "\<not> engine_mu e"
  shows "\<exists>e' err. Engine_LoadFile lib nanoid ReadFile path e = Ret (e', err) \<and> \<not> engine_mu e' \<and>
    open_contexts e' = open_contexts e \<and> open_parsers e' = open_parsers e"
  using assms LoadString_releases [OF assms] by (auto simp: Engine_LoadFile_def split: sum.split)

text \<open>Trimming leaves no white space in front.\<close>

lemma trim_left_none: "leading_space runes (trim_left runes s) = 0"
  by (induction runes s rule: trim_left.induct) (subst trim_left.simps, simp)

end
