(* ===== verification/Spec2Isabelle.thy ===== *)
theory Spec2Isabelle
  imports Hub_Spec Delivery Runner Benchmark Diagnostics Mruby
begin

text \<open>
  AnyCable-Go is a WebSocket server for the Action Cable protocol. Clients hold WebSocket
  connections to it; the decisions (who may connect, what a subscription means, what an action
  does) are made by a Ruby application that the server calls over gRPC, and broadcasts come from
  Redis or from HTTP requests. This development translates the Go code under \<^verbatim>\<open>src/\<close> into
  definitions and proves what its components promise, alone and put together.

  \<^bold>\<open>The parts and how they interact.\<close> The runner (\<^verbatim>\<open>cli/cli.go\<close>) reads the configuration and builds
  a metrics service, a node with its hub, a controller, a disconnect queue, a subscriber and an HTTP
  server. A request to the WebSocket path becomes a session; the session's reader hands each message
  to the node, the node asks the controller and applies the reply to the hub and to the session. The
  hub keeps which session listens to which stream. A published message goes from the subscriber to
  the node, through the hub's channel to its loop, as a task to the goroutine pool, and from there as
  frames into the buffers of the sessions, whose senders write them. A closed session is removed from
  the hub, and the application is told by way of the disconnect queue.

  \<^bold>\<open>The theories.\<close>
  \<^item> \<open>Go_Prelude\<close>: the outcome of Go code (\<open>go\<close>: a value, a panic, or waiting for good), errors,
    buffered channels, maps, and reachability with the locale \<open>invariant_of\<close>. \<open>Go_Json\<close>: what is used
    of \<^verbatim>\<open>encoding/json\<close>. \<open>Json_Roundtrip\<close>: reading inverts writing, and the fuel of the parser.
    \<open>Go_Fmt\<close>: the verb \<^verbatim>\<open>%v\<close> of \<^verbatim>\<open>fmt\<close> on such values.
  \<^item> \<open>Common\<close> (\<^verbatim>\<open>common/common.go\<close>), \<open>Encoding\<close> (\<^verbatim>\<open>encoders/\<close>, \<^verbatim>\<open>node/encoding_cache.go\<close>, the frames of
    \<^verbatim>\<open>ws/ws.go\<close>), \<open>Protocol\<close> (\<^verbatim>\<open>protocol/protocol.go\<close> and the messages of \<^verbatim>\<open>protos/rpc.pb.go\<close>): the data
    that travels between the components, and its conversions.
  \<^item> \<open>Go_Pool\<close> (\<^verbatim>\<open>utils/gopool.go\<close>), \<open>Hub\<close> and \<open>Hub_Spec\<close> (\<^verbatim>\<open>node/hub.go\<close>), \<open>Disconnect_Queue\<close>
    (\<^verbatim>\<open>node/disconnect_queue.go\<close>), \<open>Session\<close> and \<open>Session_Spec\<close> (\<^verbatim>\<open>node/session.go\<close>), \<open>Node\<close>
    (\<^verbatim>\<open>node/node.go\<close>) with \<open>Node_Safety\<close>, \<open>Broadcast\<close>, \<open>Commands\<close>, \<open>Delivery\<close> and \<open>Shutdown\<close>: the node and
    all it owns.
  \<^item> \<open>Rpc\<close> and \<open>Rpc_Spec\<close> (\<^verbatim>\<open>rpc/\<close>): the controller that calls the application. \<open>Gobench\<close>
    (\<^verbatim>\<open>gobench/gobench.go\<close>): the controller that answers by itself.
  \<^item> \<open>Server\<close> (\<^verbatim>\<open>server/\<close>), \<open>Ws\<close> (\<^verbatim>\<open>ws/\<close>), \<open>Pubsub\<close> (\<^verbatim>\<open>pubsub/\<close>): where requests and broadcasts come in.
  \<^item> \<open>Metrics\<close> and \<open>Metrics_Run\<close> (\<^verbatim>\<open>metrics/\<close>), \<open>Mruby\<close> (\<^verbatim>\<open>mrb/mrb.go\<close>, \<^verbatim>\<open>metrics/custom_printer.go\<close>),
    \<open>Logging\<close> (\<^verbatim>\<open>utils/\<close>), \<open>Diagnostics\<close> (\<^verbatim>\<open>diagnostics/\<close>).
  \<^item> \<open>Options\<close> (\<^verbatim>\<open>config/config.go\<close>, \<^verbatim>\<open>cli/options.go\<close>) and \<open>Runner\<close> (\<^verbatim>\<open>cli/cli.go\<close>, \<^verbatim>\<open>cmd/anycable-go\<close>,
    \<^verbatim>\<open>cmd/gobench-cable\<close>): the programs.
  \<^item> \<open>Stats\<close> (\<^verbatim>\<open>stats/stats.go\<close>), \<open>Channel_Pool\<close> (\<^verbatim>\<open>pool/pool.go\<close>), \<open>Benchmark\<close> (\<^verbatim>\<open>cmd/rpcbench\<close>,
    \<^verbatim>\<open>cmd/rpcbench/pool\<close>): the benchmark programs.

  \<^bold>\<open>State and operations.\<close> A struct is a record with the fields of the source, a method is a function
  that takes the record and returns it changed, under the name of the method (with its type's name
  in front where the name alone would be ambiguous). Objects that are shared by pointer live in a
  store and are named by numbers: sessions in the \<open>heap\<close> of the node, servers in the record
  \<open>Servers\<close>. A Go map is an association list with distinct keys; the order in which a map is visited
  is an argument or is shown not to matter. A channel is the list of what is in its buffer, with the
  capacity the source gives it: 256 frames for a session; 2048 registrations, 256 broadcasts, 128
  changes of subscriptions and 128 remote disconnects for the hub; 4096 sessions for the disconnect
  queue. A send that finds the buffer full and a receive that finds it empty are the
  outcome \<open>Block\<close>; a nil pointer, a closed channel, a failed type assertion are the outcome \<open>Panic\<close>.

  Goroutines are steps. Each component with concurrent users has a step relation (\<open>hub_step\<close>,
  \<open>queue_step\<close>, \<open>pool_step\<close>, \<open>node_step\<close>, \<open>rpc_step\<close>, \<open>server_step\<close>, \<open>conns_step\<close>) whose steps are the
  stretches of code between two points where other goroutines can act, and what is proved of its
  reachable states holds for every interleaving of them. Mutexes are not modelled on their own: a
  critical section is one step. Where the code takes no lock and two goroutines can meet, the
  operation is split into its steps.

  \<^bold>\<open>Interfaces.\<close> The locales are \<open>go_map\<close> (maps), \<open>invariant_of\<close> (an invariant kept by every step),
  \<open>frame_encoder\<close>, \<open>disconnector\<close>, \<open>controller\<close>, \<open>command_executor\<close>, \<open>pubsub_handler\<close> and
  \<open>sample_aggregate\<close>. Each is interpreted on the definitions of its providers: the JSON encoder, both
  disconnectors, the RPC controller, the node as a handler, both aggregates of durations, and eight
  machines; a node with any controller is an executor of commands.

  \<^bold>\<open>What is shown.\<close>
  \<^item> The node: no event panics and every reachable state is well-formed, whatever the application
    answers, whoever executes the commands, and with statistics collected and a shutdown under way;
    what each client command does to hub and session on every branch; what a broadcast delivers to
    whom, and that a published message runs through hub, pool and sender until the client reads its
    value (\<open>published_value_delivered\<close>); that a connection is removed once; that the shutdown closes every session, if its requests fit into the
    hub's channel, and hangs if they do not.
  \<^item> The hub: its nested maps refine three plain relations for every sequence of operations; its loop
    applies one request at a time. The pool: bounded, no task is lost or run twice, and a task that
    waits when every worker has retired stays where it is. The disconnect queue: first in, first out, once each, drained by a shutdown.
  \<^item> The session: what its sender writes and counts, and that it ends.
  \<^item> The controller: the answer of every call, that retries end within a bounded number of attempts
    and a bounded delay, that no more calls are in flight than configured, and that it keeps the
    contract the node relies on.
  \<^item> The outside: origins, headers and session parameters of a WebSocket, one server per port, the
    authorization of HTTP broadcasts, when the Redis subscriber gives up.
  \<^item> The programs: what has been built and started when a run waits for signals or fails, how a
    WebSocket is served by it, what its shutdown does, which pools it announces and which errors of
    its goroutines end it; the flags with their defaults, and how they differ from the usage; the reports of metrics and benchmarks.
  \<^item> Round trips: channel states through a disconnect call, channel state through a reply, JSON values
    through their text.

  Some theorems state behaviour that the code's authors would not want: \<open>shutdown_hangs\<close>,
  \<open>resubscription_lost\<close>, \<open>task_stranded\<close>, \<open>early_call_blocks\<close>, the panics in \<open>CheckOrigin_spec\<close> and \<open>gobench_perform\<close>,
  the rejected sessions that \<open>websocket_served\<close> goes on to read from.

  \<^bold>\<open>Bounds and fuel.\<close> The parser of JSON takes twice the length of the text and two as fuel, which
  \<open>json_parse_fuel\<close> shows to be enough for every text; its nesting limit of 10000 is the one of the Go
  scanner. All other loops recurse on a list of what happens (events, rounds, attempts, answers): a list that
  is used up means that the loop still waits. The retry loop of the controller and the sender of a
  session are shown to end.

  \<^bold>\<open>Third-party code\<close> is in the arguments of the definitions: gRPC connections (their states and
  answers), Redis and its sentinels, WebSockets, certificates and listeners, URL parsing, the flag parser, the
  log handlers, the signal library, the Ruby machine, the profiler's agent, random ids, clocks and
  timers, and the conversion of numbers to 64-bit floats and back (\<open>f64\<close>).

  \<^bold>\<open>Not modelled.\<close>
  \<^item> The wire format and the reflection data of the generated \<^verbatim>\<open>protos/rpc.pb.go\<close>: tables for the
    protobuf library. Its messages, getters and client are modelled.
  \<^item> The mocks (\<^verbatim>\<open>mocks/\<close>, \<^verbatim>\<open>node_mocks/\<close>): generated, used only by tests.
  \<^item> The text of log lines, save those that carry a result.
  \<^item> Accessors that only return a field or pass a call on (\<^verbatim>\<open>Gauge.Name\<close>, \<^verbatim>\<open>Session.decodeMessage\<close> and
    the like): their callers read the field or make the call.
  \<^item> Lower-casing outside ASCII, in origins and header names.
  \<^item> Integers of 64 bits are unbounded where the values come from configuration or count things in
    memory; widths are kept where a value can wrap.
\<close>

section \<open>The states of a running node\<close>

text \<open>
  C10. Every state that a started node can reach is well-formed: the maps of the hub have distinct
  keys, every subscription is listed under its session, every registered session is found under an
  identifier; the channels of the hub and of the sessions are within their capacities, a session
  never holds a channel that is closed, the pool runs no more workers than its size, the session
  environments have their state maps and there is a disconnector.
\<close>

theorem node_wellformed:
  assumes "reachable node_started node_step n"
  shows "hub_maps (hub n) \<and> indexed (hub n) \<and> covered (hub n) \<and>
    length (register_ch (hub n)) \<le> 2048 \<and> length (subscribe_ch (hub n)) \<le> 128 \<and>
    length (broadcast_ch (hub n)) \<le> 256 \<and> length (disconnect_ch (hub n)) \<le> 128 \<and>
    length (workers (pool (hub n))) \<le> pool_size (pool (hub n)) \<and> disconnector n \<noteq> None \<and>
    (\<forall>s. (sendCh (heap n s) \<longrightarrow> \<not> sendClosed (heap n s)) \<and> length (sendBuf (heap n s)) \<le> 256 \<and>
      ConnectionState (env (heap n s)) \<noteq> None \<and> ChannelStates (env (heap n s)) \<noteq> None)"
  using node_machine.inv_reachable [OF assms]
  by (simp add: node_ok_def hub_ok_def hub_inv_def channels_ok_def Go_Pool.pool_inv_def session_ok_def env_ok_def)

theorem node_wellformed_witness:
  "\<exists>n. reachable node_started node_step n \<and> covered (hub n) \<and> disconnector n \<noteq> None"
proof -
  obtain n where "node_started n" using small_node_started by blast
  then have "reachable node_started node_step n" by (rule reach_init)
  with node_wellformed [OF this] show ?thesis by blast
qed

section \<open>From the publisher to the client\<close>

text \<open>
  C9. A published value reaches the client. Take a node at rest, with room in the buffers of the
  subscribed sessions, and a session whose sender runs and has nothing to write. When a message for
  a stream is published, then whichever way the hub's loop and the pool choose, steps of workers and
  of the session's sender lead to a state in which the client has been sent, after what it got
  before, one text for each channel identifier the session is subscribed to the stream with, and
  nothing else. Each text is JSON that a client reads as the identifier and the published value,
  with numbers formatted as float64 and the members of objects in sorted order.
\<close>

theorem published_value_delivered:
  assumes "node_ok n" "quiet n" "own_ids n" "json_sessions f64 n"
    and "\<And>sid t. map_of (sessions (hub n)) sid = Some t \<Longrightarrow>
      room_for (length (channels_on (hub n) stream sid)) (heap n t)"
    and "map_of (sessions (hub n)) (UID (heap n s)) = Some s"
    and "sendCh (heap n s)" "sender_running (heap n s)" "sendBuf (heap n s) = []"
    and "\<exists>ident. subscribed (hub n) stream (UID (heap n s)) ident"
    and "\<forall>ident. subscribed (hub n) stream (UID (heap n s)) ident \<longrightarrow> valid_utf8 ident"
    and "PubSubMessageFromJSON raw = Inr (PStream \<lparr>sm_Stream = stream, sm_Data = data\<rparr>)"
    and "json_parse data = Some v" "jdepth v < 10000"
    and "\<forall>t t'. f64 t = Some t' \<longrightarrow> number_literal t'"
  shows "\<exists>ws n' idents ts. list_all (worker_event f64) ws \<and>
    node_run (Published raw # HubTurn c c' # ws @ replicate (length ts) (SenderTurn s None)) n = Ret n' \<and>
    conn (heap n' s) = conn (heap n s) @ map ConnWrite ts \<and>
    distinct idents \<and> set idents = {ident. subscribed (hub n) stream (UID (heap n s)) ident} \<and>
    map json_parse ts = map (\<lambda>ident. Some (JObj [(''identifier'', JStr ident),
      (''message'', in_order (any_of f64 v))])) idents"
proof -
  let ?ids = "channels_on (hub n) stream (UID (heap n s))"
  let ?fs = "map (stream_frame f64 data) ?ids"
  have ids: "distinct ?ids" "set ?ids = {ident. subscribed (hub n) stream (UID (heap n s)) ident}"
    using channels_on_set assms(1) by (auto simp: node_ok_def hub_ok_def)
  have "mhas (streams (hub n)) stream" using assms(10) subscribed_stream by blast
  from publish_buffered [OF assms(1-4,12) this assms(5), of c c'] obtain ws n1 where
    n1: "list_all (worker_event f64) ws" "node_run (Published raw # HubTurn c c' # ws) n = Ret n1" "node_ok n1"
      "heap n1 s = (heap n s)\<lparr>sendBuf := ?fs\<rparr>"
    using assms(6,7,9) by auto
  have "sender_running (heap n1 s)" "sendBuf (heap n1 s) = ?fs @ []" "\<forall>f \<in> set ?fs. data_frame f"
    using n1(4) assms(8) stream_frame_data(1) by auto
  from sender_drains [OF n1(3) this] obtain n2 where
    n2: "gfor ?fs (\<lambda>_. SendMessages_turn None s) n1 = Ret n2"
      "heap n2 = (heap n1)(s := (heap n1 s)\<lparr>sendBuf := [], conn := conn (heap n1 s) @ concat (map frame_calls ?fs)\<rparr>)"
    by blast
  let ?ts = "map Payload ?fs"
  have "node_run (Published raw # HubTurn c c' # ws @ replicate (length ?ts) (SenderTurn s None)) n = Ret n2"
    using node_run_append [OF n1(2), of "replicate (length ?ts) (SenderTurn s None)"] n2(1)
      node_run_sender [of ?fs s n1] by simp
  moreover have "concat (map frame_calls ?fs) = map ConnWrite ?ts" by (simp add: stream_frame_data(2) comp_def)
  then have "conn (heap n2 s) = conn (heap n s) @ map ConnWrite ?ts" using n1(4) n2(2) by simp
  moreover have "map json_parse ?ts = map (\<lambda>ident. Some (JObj [(''identifier'', JStr ident),
      (''message'', in_order (any_of f64 v))])) ?ids"
    using stream_frame_read [OF assms(13,14) _ assms(15)] assms(11) ids(2) by auto
  ultimately show ?thesis using n1(1) ids by blast
qed

theorem published_value_delivered_witness:
  \<open>\<exists>es n' t. node_run es resting_node = Ret n' \<and> conn (heap n' 0) = [ConnWrite t] \<and>
     json_parse t = Some (JObj [(''identifier'', JStr ''ch''),
       (''message'', JArr [JBool True, JNull])])\<close>
proof -
  let ?n = resting_node
  have sub: "subscribed (hub ?n) ''news'' ''u'' ident \<longleftrightarrow> ident = ''ch''" for ident
    by (simp add: subscribed_def resting_node_def listening_node_def subscribeSession_def Let_def
        addSession_def small_hub_def gomap_simps mfind_def mhas_Cons)
  have ch: "channels_on (hub ?n) ''news'' sid = (if sid = ''u'' then [''ch''] else [])" for sid
    by (simp add: channels_on_def resting_node_def listening_node_def subscribeSession_def Let_def
        addSession_def small_hub_def mfind_def)
  have room: "room_for (length (channels_on (hub ?n) ''news'' sid)) (heap ?n t)" for sid t
    unfolding ch by (simp add: room_for_def resting_node_def listening_node_def small_session_def)
  have s: "map_of (sessions (hub ?n)) (UID (heap ?n 0)) = Some 0" "sendCh (heap ?n 0)"
    "sender_running (heap ?n 0)" "sendBuf (heap ?n 0) = []" "conn (heap ?n 0) = []" "UID (heap ?n 0) = ''u''"
    by (simp_all add: resting_node_def listening_node_def small_session_def gomap_simps small_hub_def)
  let ?raw = \<open>''{"stream":"news","data":"[true,null]"}''\<close>
  have raw: \<open>PubSubMessageFromJSON ?raw =
      Inr (PStream \<lparr>sm_Stream = ''news'', sm_Data = ''[true,null]''\<rparr>)\<close> by code_simp
  have parse: \<open>json_parse ''[true,null]'' = Some (JArr [JBool True, JNull])\<close>
    by code_simp
  have "valid_utf8 ''ch''" by code_simp
  then have "\<exists>ident. subscribed (hub ?n) ''news'' (UID (heap ?n 0)) ident"
    "\<forall>ident. subscribed (hub ?n) ''news'' (UID (heap ?n 0)) ident \<longrightarrow> valid_utf8 ident"
    unfolding s(6) sub by simp_all
  then obtain ws n' idents ts where
    r: "node_run (Published ?raw # HubTurn 0 0 # ws @ replicate (length ts) (SenderTurn 0 None)) ?n = Ret n'"
      "conn (heap n' 0) = conn (heap ?n 0) @ map ConnWrite ts" "distinct idents" "set idents = {''ch''}"
      "map json_parse ts = map (\<lambda>ident. Some (JObj [(''identifier'', JStr ident), (''message'',
        in_order (any_of (\<lambda>_. None) (JArr [JBool True, JNull])))])) idents"
    using published_value_delivered [OF resting_node_ready room s(1-4) _ _ raw parse, of 0 0]
    unfolding s(6) sub by auto
  have "length idents = 1" using distinct_card [OF r(3)] r(4) by simp
  then obtain x where x: "idents = [x]" by (cases idents) simp_all
  with r(4) have "x = ''ch''" by simp
  with r(5) obtain t where t: "ts = [t]" "json_parse t = Some (JObj [(''identifier'', JStr ''ch''),
      (''message'', JArr [JBool True, JNull])])"
    unfolding x by (cases ts) (simp_all add: in_order.simps)
  from r(2) have "conn (heap n' 0) = [ConnWrite t]" unfolding t(1) s(5) by simp
  with r(1) t(2) show ?thesis by blast
qed

end
